(* ===== verification/Go_Prelude.thy ===== *)
theory Go_Prelude
  imports
    "HOL-Library.Finite_Map"
    "HOL-Library.Multiset"
    "HOL-Library.Word"
    "HOL-Library.List_Lexorder"
    "HOL-Library.Char_ord"
begin

text \<open>
  What the operator uses of the Go language and its standard library, shared by every other
  theory: machine integers, nil-able slices and maps, \<open>range\<close> over a map, the \<open>strings\<close>
  functions and the \<open>%d\<close> verb of \<open>fmt\<close>.

  A Go string is a list of bytes (\<open>string\<close>). A Go map of strings is a finite map under an
  \<open>option\<close>: \<open>None\<close> is the nil map, which reads like an empty one but which
  \<open>reflect.DeepEqual\<close> tells from an empty one. Slices carry the same distinction.
  A field of a third-party type that the operator only copies or compares has the type
  \<open>'o opaque\<close>: \<open>None\<close> is the zero value of the field's Go type, and the type parameter \<open>'o\<close>
  stands for all its other values.
\<close>

named_theorems go_map "lookups, domains and equality of Go maps"
named_theorems go_slice "elements of Go slices"

section \<open>Machine integers\<close>

type_synonym int32 = "32 word"
type_synonym int64 = "64 word"

type_synonym 'o opaque = "'o option"

section \<open>Slices\<close>

text \<open>\<open>None\<close> is the nil slice; \<open>Some []\<close> is an empty slice that is not nil.\<close>

type_synonym 'a slice = "'a list option"

definition elems :: "'a slice \<Rightarrow> 'a list" where
  "elems s = (case s of None \<Rightarrow> [] | Some xs \<Rightarrow> xs)"

lemma elems_simps [simp, go_slice]: "elems None = []" "elems (Some xs) = xs"
  by (simp_all add: elems_def)

text \<open>\<open>append([]T(nil), xs...)\<close>: a copy of the elements, nil when there is none.\<close>

definition append_nil :: "'a slice \<Rightarrow> 'a slice" where
  "append_nil s = (if elems s = [] then None else Some (elems s))"

lemma elems_append_nil [simp, go_slice]: "elems (append_nil s) = elems s"
  by (simp add: append_nil_def)

lemma append_nil_idem [simp, go_slice]: "append_nil (append_nil s) = append_nil s"
  by (simp add: append_nil_def)

lemma append_nil_None [simp, go_slice]: "append_nil None = None"
  by (simp add: append_nil_def)

text \<open>\<open>append([]T{x}, xs...)\<close>: never nil.\<close>

definition prepend :: "'a \<Rightarrow> 'a slice \<Rightarrow> 'a slice" where
  "prepend x s = Some (x # elems s)"

lemma elems_prepend [simp, go_slice]: "elems (prepend x s) = x # elems s"
  by (simp add: prepend_def)

text \<open>Writing through \<open>for i := range s\<close>, and writing the first element.\<close>

definition map_slice :: "('a \<Rightarrow> 'b) \<Rightarrow> 'a slice \<Rightarrow> 'b slice" where
  "map_slice f s = map_option (map f) s"

lemma map_slice_simps [simp, go_slice]:
  "map_slice f None = None" "map_slice f (Some xs) = Some (map f xs)"
  by (simp_all add: map_slice_def)

lemma elems_map_slice [simp, go_slice]: "elems (map_slice f s) = map f (elems s)"
  by (cases s) simp_all

lemma append_nil_map_slice: "append_nil (map_slice f s) = map_slice f (append_nil s)"
  by (simp add: append_nil_def)

section \<open>Maps of strings\<close>

type_synonym gomap = "(string, string) fmap option"

definition gm_map :: "gomap \<Rightarrow> (string, string) fmap" where
  "gm_map m = (case m of None \<Rightarrow> fmempty | Some f \<Rightarrow> f)"

text \<open>\<open>v, ok := m[k]\<close>\<close>

definition gm_get :: "gomap \<Rightarrow> string \<Rightarrow> string option" where
  "gm_get m k = fmlookup (gm_map m) k"

text \<open>\<open>m[k]\<close>: the zero value \<open>""\<close> for a key that is absent.\<close>

definition gm_index :: "gomap \<Rightarrow> string \<Rightarrow> string" where
  "gm_index m k = (case gm_get m k of None \<Rightarrow> [] | Some v \<Rightarrow> v)"

text \<open>\<open>len(m)\<close>\<close>

definition gm_len :: "gomap \<Rightarrow> nat" where
  "gm_len m = fcard (fmdom (gm_map m))"

lemma gm_map_simps [simp, go_map]: "gm_map None = fmempty" "gm_map (Some f) = f"
  by (simp_all add: gm_map_def)

lemma gm_get_simps [simp, go_map]:
  "gm_get None k = None" "gm_get (Some f) k = fmlookup f k"
  by (simp_all add: gm_get_def)

lemma gm_index_simps [simp, go_map]:
  "gm_index None k = []"
  "gm_index (Some f) k = (case fmlookup f k of None \<Rightarrow> [] | Some v \<Rightarrow> v)"
  by (simp_all add: gm_index_def)

lemma sorted_list_of_fmap_keys:
  "map fst (sorted_list_of_fmap f) = sorted_list_of_fset (fmdom f)"
  by (simp add: sorted_list_of_fmap_def comp_def)

lemma distinct_keys_sorted_list_of_fmap [simp]:
  "distinct (map fst (sorted_list_of_fmap f))"
  by (simp add: sorted_list_of_fmap_keys sorted_list_of_fset.rep_eq)

lemma set_sorted_list_of_fmap:
  "(k, v) \<in> set (sorted_list_of_fmap f) \<longleftrightarrow> fmlookup f k = Some v"
  using map_of_eq_Some_iff [OF distinct_keys_sorted_list_of_fmap, of f k v]
  by (simp only: map_of_sorted_list)

lemma fmap_of_sorted_list [simp]: "fmap_of_list (sorted_list_of_fmap f) = f"
  by (rule fmap_ext) (simp add: fmlookup_of_list)

lemma length_sorted_list_of_fmap: "length (sorted_list_of_fmap f) = fcard (fmdom f)"
proof -
  have "length (map fst (sorted_list_of_fmap f)) = fcard (fmdom f)"
    by (simp only: sorted_list_of_fmap_keys sorted_list_of_fset.rep_eq fcard.rep_eq
        length_sorted_list_of_set)
  then show ?thesis by simp
qed

lemma gm_len_length: "gm_len m = length (sorted_list_of_fmap (gm_map m))"
  by (simp add: gm_len_def length_sorted_list_of_fmap)

lemma fmdom_eq_empty [simp]: "fmdom f = {||} \<longleftrightarrow> f = fmempty"
  by (metis fempty_iff fmdom_empty fmdom_notD fmempty_lookup fmap_ext)

lemma sorted_list_of_fmap_empty [simp]: "sorted_list_of_fmap fmempty = []"
  using length_sorted_list_of_fmap [of fmempty] by (simp add: fcard.rep_eq)

lemma gm_len_0 [simp, go_map]: "gm_len m = 0 \<longleftrightarrow> gm_map m = fmempty"
  using sorted_list_of_fmap_keys [of "gm_map m"] fmap_of_sorted_list [of "gm_map m"]
  by (auto simp: gm_len_length simp del: fmap_of_sorted_list)

lemma gm_len_None [simp, go_map]: "gm_len None = 0"
  by simp

section \<open>Ranging over a map\<close>

text \<open>
  Go leaves the order of \<open>for k, v := range m\<close> open. The model runs the body over the entries
  in the order of their keys; the locale below says which bodies make that choice harmless:
  those whose steps for two different keys commute. Every order of the entries then gives
  the same state.
\<close>

definition range_map :: "(string \<Rightarrow> string \<Rightarrow> 's \<Rightarrow> 's) \<Rightarrow> gomap \<Rightarrow> 's \<Rightarrow> 's" where
  "range_map body m s = fold (\<lambda>(k, v). body k v) (sorted_list_of_fmap (gm_map m)) s"

definition is_range_order :: "gomap \<Rightarrow> (string \<times> string) list \<Rightarrow> bool" where
  "is_range_order m xs \<longleftrightarrow>
     distinct (map fst xs) \<and> (\<forall>k v. (k, v) \<in> set xs \<longleftrightarrow> gm_get m k = Some v)"

lemma range_map_None [simp, go_map]: "range_map body None s = s"
  by (simp add: range_map_def)

lemma is_range_order_sorted: "is_range_order m (sorted_list_of_fmap (gm_map m))"
  by (simp add: is_range_order_def set_sorted_list_of_fmap gm_get_def)

lemma is_range_order_mset:
  assumes "is_range_order m xs" "is_range_order m ys"
  shows "mset xs = mset ys"
proof -
  have "set xs = set ys" using assms by (auto simp: is_range_order_def)
  moreover have "distinct xs" "distinct ys"
    using assms by (auto simp: is_range_order_def distinct_map)
  ultimately show ?thesis by (simp add: set_eq_iff_mset_eq_distinct)
qed

locale range_body =
  fixes body :: "string \<Rightarrow> string \<Rightarrow> 's \<Rightarrow> 's"
  assumes commute:
    "k \<noteq> k' \<Longrightarrow> body k v (body k' v' s) = body k' v' (body k v s)"
begin

lemma fold_swap_front:
  assumes "x \<in> set xs" "distinct (map fst xs)"
  shows "fold (\<lambda>(k, v). body k v) xs s =
         fold (\<lambda>(k, v). body k v) (remove1 x xs) (body (fst x) (snd x) s)"
  using assms
proof (induction xs arbitrary: s)
  case Nil
  then show ?case by simp
next
  case (Cons y ys)
  show ?case
  proof (cases "x = y")
    case True
    then show ?thesis by (simp add: case_prod_unfold)
  next
    case False
    with Cons.prems have "x \<in> set ys" "distinct (map fst ys)" by auto
    then have *: "fst x \<noteq> fst y"
      using Cons.prems(2) by (metis distinct.simps(2) image_eqI list.set_map list.simps(9))
    from False Cons.IH [OF \<open>x \<in> set ys\<close> \<open>distinct (map fst ys)\<close>] commute [OF *]
    show ?thesis by (simp add: case_prod_unfold)
  qed
qed

lemma fold_order:
  assumes "distinct (map fst xs)" "mset xs = mset ys"
  shows "fold (\<lambda>(k, v). body k v) xs s = fold (\<lambda>(k, v). body k v) ys s"
  using assms
proof (induction ys arbitrary: xs s)
  case Nil
  then have "xs = []" by simp
  then show ?case by simp
next
  case (Cons y ys)
  then have y: "y \<in> set xs" by (metis list.set_intros(1) set_mset_mset)
  have "distinct (map fst (remove1 y xs))"
    using Cons.prems(1) by (simp add: distinct_map inj_on_def)
  moreover have "mset (remove1 y xs) = mset ys" using Cons.prems(2) by simp
  ultimately show ?case
    using Cons.IH fold_swap_front [OF y Cons.prems(1)] by (simp add: case_prod_unfold)
qed

lemma range_any_order:
  assumes "is_range_order m xs"
  shows "fold (\<lambda>(k, v). body k v) xs s = range_map body m s"
  unfolding range_map_def
  using assms is_range_order_mset [OF assms is_range_order_sorted]
  by (auto simp: is_range_order_def intro: fold_order)

end

text \<open>Storing each entry under its key, the body of every copying loop of the operator.\<close>

definition store_entry :: "string \<Rightarrow> string \<Rightarrow> (string, string) fmap \<Rightarrow> (string, string) fmap" where
  "store_entry k v m = fmupd k v m"

interpretation store_loop: range_body store_entry
  by unfold_locales (simp add: store_entry_def fmupd_reorder_neq)

lemma fold_store_entry:
  "distinct (map fst xs) \<Longrightarrow>
   fold (\<lambda>(k, v). store_entry k v) xs m = m ++\<^sub>f fmap_of_list xs"
proof (induction xs arbitrary: m)
  case Nil
  then show ?case by simp
next
  case (Cons x xs)
  obtain k v where x: "x = (k, v)" by (cases x)
  with Cons.prems have "k \<notin> fst ` set xs" by simp
  then have "k |\<notin>| fmdom (fmap_of_list xs)"
    by (simp add: fset_of_list.rep_eq)
  then have "fmupd k v m ++\<^sub>f fmap_of_list xs = m ++\<^sub>f fmupd k v (fmap_of_list xs)"
    by (intro fmap_ext) auto
  then show ?case
    using Cons x by (simp add: store_entry_def)
qed

lemma range_store_entry [go_map]: "range_map store_entry m acc = acc ++\<^sub>f gm_map m"
  by (simp add: range_map_def fold_store_entry)

section \<open>Strings\<close>

text \<open>\<open>strings.TrimSpace\<close> cuts the runes with the Unicode property White_Space from both ends;
  these are their UTF-8 encodings.\<close>

definition utf8_spaces :: "string list" where
  "utf8_spaces =
     map (\<lambda>n. [char_of (n :: nat)]) [9, 10, 11, 12, 13, 32] @
     map (map (char_of :: nat \<Rightarrow> char))
       ([[194, 133], [194, 160], [225, 154, 128]] @
        map (\<lambda>n. [226, 128, n]) [128, 129, 130, 131, 132, 133, 134, 135, 136, 137, 138, 168, 169, 175] @
        [[226, 129, 159], [227, 128, 128]])"

fun strip_prefix :: "string \<Rightarrow> string \<Rightarrow> string option" where
  "strip_prefix [] s = Some s"
| "strip_prefix (p # ps) [] = None"
| "strip_prefix (p # ps) (c # s) = (if p = c then strip_prefix ps s else None)"

fun strip_any :: "string list \<Rightarrow> string \<Rightarrow> string option" where
  "strip_any [] s = None"
| "strip_any (p # ps) s =
     (case strip_prefix p s of Some r \<Rightarrow> if p = [] then strip_any ps s else Some r
      | None \<Rightarrow> strip_any ps s)"

lemma strip_prefix_length: "strip_prefix p s = Some r \<Longrightarrow> length s = length p + length r"
  by (induction p s rule: strip_prefix.induct) (auto split: if_splits)

lemma strip_any_shorter: "strip_any ps s = Some r \<Longrightarrow> length r < length s"
  by (induction ps) (auto split: option.splits if_splits dest!: strip_prefix_length)

function trim_left :: "string list \<Rightarrow> string \<Rightarrow> string" where
  "trim_left ps s = (case strip_any ps s of None \<Rightarrow> s | Some r \<Rightarrow> trim_left ps r)"
  by pat_completeness auto
termination
  by (relation "measure (\<lambda>(ps, s). length s)") (auto dest: strip_any_shorter)

declare trim_left.simps [simp del]

definition trim_space :: "string \<Rightarrow> string" where
  "trim_space s = rev (trim_left (map rev utf8_spaces) (rev (trim_left utf8_spaces s)))"

text \<open>
  \<open>strings.ToLower\<close> on the bytes of ASCII; the other runes are left as they are. Unicode has
  only two runes outside ASCII whose lower case is an ASCII letter (U+0130 gives \<open>i\<close> and
  U+212A gives \<open>k\<close>), and neither letter occurs in the words the operator compares with.
\<close>

definition to_lower_byte :: "char \<Rightarrow> char" where
  "to_lower_byte c =
     (let n = (of_char c :: nat) in if 65 \<le> n \<and> n \<le> 90 then char_of (n + 32) else c)"

definition to_lower :: "string \<Rightarrow> string" where
  "to_lower s = map to_lower_byte s"

text \<open>The \<open>%d\<close> verb.\<close>

fun dec_digits :: "nat \<Rightarrow> string" where
  "dec_digits n =
     (if n < 10 then [char_of (48 + n)] else dec_digits (n div 10) @ [char_of (48 + n mod 10)])"

declare dec_digits.simps [simp del]

definition go_itoa :: "int \<Rightarrow> string" where
  "go_itoa i = (if i < 0 then ''-'' @ dec_digits (nat (- i)) else dec_digits (nat i))"

end
