(* ===== verification/Api_Types.thy ===== *)
theory Api_Types
  imports Go_Prelude
begin

text \<open>
  The data model. The types of the \<open>v1beta1\<close> package (api/v1beta1/phare_types.go) are
  translated field by field, in the order of the file. Of the Kubernetes types (object
  metadata, containers, volumes, probes, services, workloads, routes) the records hold the
  fields the operator reads or writes; the rest of such a type is one field of type
  \<open>'o opaque\<close>, which the operator copies and compares but never looks into. Pointers become
  \<open>option\<close>, with \<open>None\<close> for nil.
\<close>

section \<open>Object metadata\<close>

record type_meta =
  tm_apiVersion :: string
  tm_kind :: string

record owner_ref =
  or_apiVersion :: string
  or_kind :: string
  or_name :: string
  or_uid :: string
  or_controller :: "bool option"

record 'o meta =
  m_name :: string
  m_namespace :: string
  m_uid :: string
  m_generation :: int64
  m_labels :: gomap
  m_annotations :: gomap
  m_owners :: "owner_ref slice"
  m_rest :: "'o opaque"

section \<open>Pods\<close>

record 'o http_get =
  hg_path :: string
  hg_scheme :: string
  hg_rest :: "'o opaque"

record 'o probe =
  pr_httpGet :: "'o http_get option"
  pr_timeoutSeconds :: int32
  pr_periodSeconds :: int32
  pr_successThreshold :: int32
  pr_failureThreshold :: int32
  pr_rest :: "'o opaque"

record 'o volume_mount =
  vm_name :: string
  vm_mountPath :: string
  vm_rest :: "'o opaque"

record 'o volume_device =
  vd_name :: string
  vd_rest :: "'o opaque"

record 'o container =
  c_name :: string
  c_image :: string
  c_command :: "'o opaque"
  c_args :: "'o opaque"
  c_ports :: "'o opaque"
  c_envFrom :: "'o opaque"
  c_env :: "'o opaque"
  c_resources :: "'o opaque"
  c_volumeMounts :: "'o volume_mount slice"
  c_volumeDevices :: "'o volume_device slice"
  c_livenessProbe :: "'o probe option"
  c_readinessProbe :: "'o probe option"
  c_startupProbe :: "'o probe option"
  c_terminationMessagePath :: string
  c_terminationMessagePolicy :: string
  c_imagePullPolicy :: string
  c_rest :: "'o opaque"

record 'o secret_source =
  sec_defaultMode :: "int32 option"
  sec_rest :: "'o opaque"

record 'o config_map_source =
  cms_name :: string
  cms_defaultMode :: "int32 option"
  cms_optional :: "bool option"
  cms_rest :: "'o opaque"

record 'o volume =
  v_name :: string
  v_secret :: "'o secret_source option"
  v_configMap :: "'o config_map_source option"
  v_rest :: "'o opaque"

record 'o pod_spec =
  pod_volumes :: "'o volume slice"
  pod_initContainers :: "'o container slice"
  pod_containers :: "'o container slice"
  pod_affinity :: "'o opaque"
  pod_tolerations :: "'o opaque"
  pod_rest :: "'o opaque"

section \<open>Services\<close>

record 'o service_port =
  sp_name :: string
  sp_protocol :: string
  sp_port :: int32
  sp_nodePort :: int32
  sp_rest :: "'o opaque"

record 'o service_spec =
  svc_ports :: "'o service_port slice"
  svc_selector :: gomap
  svc_clusterIP :: string
  svc_clusterIPs :: "string slice"
  svc_type :: string
  svc_externalIPs :: "string slice"
  svc_sessionAffinity :: string
  svc_loadBalancerIP :: string
  svc_loadBalancerSourceRanges :: "string slice"
  svc_externalName :: string
  svc_externalTrafficPolicy :: string
  svc_healthCheckNodePort :: int32
  svc_sessionAffinityConfig :: "'o opaque"
  svc_ipFamilies :: "string slice"
  svc_ipFamilyPolicy :: "string option"
  svc_allocateLoadBalancerNodePorts :: "bool option"
  svc_loadBalancerClass :: "string option"
  svc_internalTrafficPolicy :: "string option"
  svc_rest :: "'o opaque"

section \<open>The Phare resource\<close>

record image_spec =
  img_repository :: string
  img_tag :: string

record 'o micro_service_spec =
  ms_kind :: string
  ms_replicaCount :: int32
  ms_image :: image_spec
  ms_ports :: "'o opaque"
  ms_imagePullPolicy :: string
  ms_env :: "'o opaque"
  ms_envFrom :: "'o opaque"
  ms_affinity :: "'o opaque"
  ms_tolerations :: "'o opaque"
  ms_volumes :: "'o volume slice"
  ms_volumeMounts :: "'o volume_mount slice"
  ms_volumeClaimTemplates :: "'o opaque"
  ms_initContainers :: "'o container slice"
  ms_extraContainers :: "'o container slice"
  ms_resourceRequirements :: "'o opaque"
  ms_command :: "'o opaque"
  ms_args :: "'o opaque"
  ms_podLabels :: gomap
  ms_podAnnotations :: gomap
  ms_livenessProbe :: "'o probe option"
  ms_readinessProbe :: "'o probe option"
  ms_startupProbe :: "'o probe option"

type_synonym phare_phase = string

definition PharePhaseReconciling :: phare_phase where
  "PharePhaseReconciling = ''Reconciling''"

definition PharePhaseActive :: phare_phase where
  "PharePhaseActive = ''Active''"

definition PharePhaseFailed :: phare_phase where
  "PharePhaseFailed = ''Failed''"

record phare_status =
  st_phase :: phare_phase
  st_message :: string

record 'o phare_http_route_spec =
  phr_hostnames :: "'o opaque"
  phr_parentRefs :: "'o opaque"
  phr_rules :: "'o opaque"

record log_config =
  lc_enabled :: string

record health_check =
  hc_portSpecification :: string
  hc_port :: string
  hc_portName :: string
  hc_host :: string
  hc_requestPath :: string
  hc_response :: string
  hc_proxyHeader :: string

record grpc_check =
  gc_grpcServiceName :: string
  gc_portSpecification :: string
  gc_port :: string
  gc_portName :: string

record health_check_config =
  hcc_type :: string
  hcc_httpHealthCheck :: health_check
  hcc_httpsHealthCheck :: health_check
  hcc_grpcHealthCheck :: grpc_check
  hcc_http2HealthCheck :: health_check

record default_check =
  dc_checkIntervalSec :: string
  dc_timeoutSec :: string
  dc_healthyThreshold :: string
  dc_unhealthyThreshold :: string
  dc_logConfig :: log_config
  dc_config :: health_check_config

record target_ref =
  tr_group :: string
  tr_kind :: string
  tr_name :: string

record health_check_policy_spec =
  hcp_default :: default_check
  hcp_targetRef :: target_ref

record gcp_logging_spec =
  gl_enabled :: bool
  gl_sampleRate :: int64

record gcp_default_spec =
  gd_logging :: gcp_logging_spec
  gd_timeoutSec :: int64

record gcp_target_ref_spec =
  gt_group :: string
  gt_kind :: string
  gt_name :: string

record gcp_backend_policy_spec =
  gbp_default :: gcp_default_spec
  gbp_targetRef :: gcp_target_ref_spec

text \<open>\<open>type ConfigSpec map[string]string\<close>\<close>

type_synonym config_spec = gomap

record 'o toolchain_spec =
  tc_config :: config_spec
  tc_httpRoute :: "'o phare_http_route_spec option"
  tc_healthCheckPolicy :: "health_check_policy_spec option"
  tc_gcpBackendPolicy :: "gcp_backend_policy_spec option"

record 'o phare_spec =
  ps_microService :: "'o micro_service_spec"
  ps_service :: "'o service_spec option"
  ps_toolChain :: "'o toolchain_spec option"

record 'o phare =
  ph_type :: type_meta
  ph_meta :: "'o meta"
  ph_spec :: "'o phare_spec"
  ph_status :: phare_status

abbreviation ph_name :: "'o phare \<Rightarrow> string" where
  "ph_name p \<equiv> m_name (ph_meta p)"

abbreviation ph_namespace :: "'o phare \<Rightarrow> string" where
  "ph_namespace p \<equiv> m_namespace (ph_meta p)"

text \<open>\<open>phare.Spec.ToolChain != nil && len(phare.Spec.ToolChain.Config) > 0\<close>\<close>

definition has_config :: "'o phare \<Rightarrow> bool" where
  "has_config p = (case ps_toolChain (ph_spec p) of None \<Rightarrow> False
     | Some tc \<Rightarrow> 0 < gm_len (tc_config tc))"

section \<open>The objects the operator writes\<close>

record 'o config_map =
  cm_type :: type_meta
  cm_meta :: "'o meta"
  cm_data :: gomap
  cm_rest :: "'o opaque"

record 'o service =
  s_type :: type_meta
  s_meta :: "'o meta"
  s_spec :: "'o service_spec"
  s_rest :: "'o opaque"

text \<open>
  Deployments and StatefulSets share their fields but for the volume claim templates; the
  selector is \<open>Some\<close> of its \<open>MatchLabels\<close>.
\<close>

record 'o workload =
  w_type :: type_meta
  w_meta :: "'o meta"
  w_replicas :: "int32 option"
  w_selector :: "gomap option"
  w_tmplLabels :: gomap
  w_tmplAnnotations :: gomap
  w_pod :: "'o pod_spec"
  w_rest :: "'o opaque"

type_synonym 'o deployment = "'o workload"

record 'o stateful_set = "'o workload" +
  ss_volumeClaimTemplates :: "'o opaque"

record 'o http_route_spec =
  hrs_parentRefs :: "'o opaque"
  hrs_hostnames :: "'o opaque"
  hrs_rules :: "'o opaque"

record 'o http_route =
  hr_type :: type_meta
  hr_meta :: "'o meta"
  hr_spec :: "'o http_route_spec"
  hr_rest :: "'o opaque"

text \<open>
  Unstructured objects (the GKE policies): \<open>metadata.labels\<close> is an untyped value
  there, and so is the \<open>spec\<close>. Go values of type \<open>interface{}\<close> are trees; floating point numbers
  are the finite ones, and \<open>GStringMap\<close> is a \<open>map[string]string\<close> held in an interface, which
  is not a \<open>map[string]interface{}\<close>.
\<close>

datatype gval = GNil | GBool bool | GInt int64 | GFloat rat | GString string
  | GList "gval list" | GMap "(string, gval) fmap" | GStringMap "(string, string) fmap"

record 'o unstructured =
  u_type :: type_meta
  u_name :: string
  u_namespace :: string
  u_labels :: gval
  u_owners :: "owner_ref slice"
  u_spec :: gval
  u_rest :: "'o opaque"

end
