(* ===== verification/Canonical_Json.thy ===== *)
theory Canonical_Json
  imports Api_Types
begin

text \<open>
  Comparing specs as the JSON decoder sees them (controllers/expose_controller.go):
  \<open>canonicalizeSpec\<close> marshals a spec and unmarshals the bytes into an \<open>interface{}\<close>, so that two
  specs that differ only in their Go types compare equal. The composition of the two functions of
  \<open>encoding/json\<close> is the tree function \<open>json_roundtrip\<close>: every number becomes a \<open>float64\<close>,
  rounded to 53 bits; bytes of a string that are not UTF-8 become U+FFFD; a \<open>map[string]string\<close>
  becomes a \<open>map[string]interface{}\<close>. (The bytes in between, and the escapes in them, are not
  modelled: what the encoder escapes the decoder restores.)
\<close>

section \<open>Strings\<close>

definition replacement :: string where
  "replacement = map (char_of :: nat \<Rightarrow> char) [239, 191, 189]"

definition in_range :: "nat \<Rightarrow> nat \<Rightarrow> char \<Rightarrow> bool" where
  "in_range lo hi c = (lo \<le> (of_char c :: nat) \<and> (of_char c :: nat) \<le> hi)"

text \<open>The second bytes that exclude overlong encodings, surrogates and runes above U+10FFFF.\<close>

definition second_of_three :: "char \<Rightarrow> char \<Rightarrow> bool" where
  "second_of_three a b =
     (let n = (of_char a :: nat) in
      in_range (if n = 224 then 160 else 128) (if n = 237 then 159 else 191) b)"

definition second_of_four :: "char \<Rightarrow> char \<Rightarrow> bool" where
  "second_of_four a b =
     (let n = (of_char a :: nat) in
      in_range (if n = 240 then 144 else 128) (if n = 244 then 143 else 191) b)"

text \<open>The number of bytes of the UTF-8 sequence at the front, 0 when there is none (\<open>utf8.DecodeRune\<close>
  then consumes one byte and gives U+FFFD).\<close>

fun rune_length :: "string \<Rightarrow> nat" where
  "rune_length [] = 0"
| "rune_length (a # s) =
     (if in_range 0 127 a then 1
      else if in_range 194 223 a then
        (case s of b # _ \<Rightarrow> if in_range 128 191 b then 2 else 0 | _ \<Rightarrow> 0)
      else if in_range 224 239 a then
        (case s of
           b # c # _ \<Rightarrow>
             if second_of_three a b \<and> in_range 128 191 c then 3 else 0
         | _ \<Rightarrow> 0)
      else if in_range 240 244 a then
        (case s of
           b # c # d # _ \<Rightarrow>
             if second_of_four a b \<and> in_range 128 191 c \<and> in_range 128 191 d then 4 else 0
         | _ \<Rightarrow> 0)
      else 0)"

function to_valid_utf8 :: "string \<Rightarrow> string" where
  "to_valid_utf8 s =
     (if s = [] then []
      else if rune_length s = 0 then replacement @ to_valid_utf8 (tl s)
      else take (rune_length s) s @ to_valid_utf8 (drop (rune_length s) s))"
  by pat_completeness auto
termination
  by (relation "measure length") auto

declare to_valid_utf8.simps [simp del]

lemma to_valid_utf8_Nil [simp]: "to_valid_utf8 [] = []"
  by (simp add: to_valid_utf8.simps)

section \<open>Numbers\<close>

function bit_length :: "int \<Rightarrow> nat" where
  "bit_length n = (if n \<le> 0 then 0 else Suc (bit_length (n div 2)))"
  by pat_completeness auto
termination
  by (relation "measure nat") auto

declare bit_length.simps [simp del]

text \<open>The nearest number with a significand of 53 bits, ties to even.\<close>

definition round53 :: "int \<Rightarrow> int" where
  "round53 n =
     (let e = bit_length n - 53; q = n div 2 ^ e; r = n mod 2 ^ e in
      if e = 0 then n
      else (if 2 * r > 2 ^ e \<or> 2 * r = 2 ^ e \<and> odd q then q + 1 else q) * 2 ^ e)"

definition float_of_int64 :: "int64 \<Rightarrow> rat" where
  "float_of_int64 i =
     of_int (if sint i < 0 then - round53 (- sint i) else round53 (sint i))"

section \<open>Values\<close>

text \<open>The decoder stores the members of an object one after the other, so a later one wins when
  two keys have become equal; the encoder writes them in the order of the original keys.\<close>

definition rekey :: "(string, 'v) fmap \<Rightarrow> (string, 'v) fmap" where
  "rekey m = fold (\<lambda>(k, v) m. fmupd (to_valid_utf8 k) v m) (sorted_list_of_fmap m) fmempty"

primrec json_roundtrip :: "gval \<Rightarrow> gval" where
  "json_roundtrip GNil = GNil"
| "json_roundtrip (GBool b) = GBool b"
| "json_roundtrip (GInt i) = GFloat (float_of_int64 i)"
| "json_roundtrip (GFloat r) = GFloat r"
| "json_roundtrip (GString s) = GString (to_valid_utf8 s)"
| "json_roundtrip (GList vs) = GList (map json_roundtrip vs)"
| "json_roundtrip (GMap m) = GMap (rekey (fmmap json_roundtrip m))"
| "json_roundtrip (GStringMap m) = GMap (rekey (fmmap (\<lambda>s. GString (to_valid_utf8 s)) m))"

text \<open>
  \<open>marshal\<close> gives the JSON value of the spec, or \<open>None\<close> when it cannot be marshalled; then the spec
  itself is the result.
\<close>

definition canonicalizeSpec :: "('s \<Rightarrow> gval option) \<Rightarrow> 's \<Rightarrow> 's + gval" where
  "canonicalizeSpec marshal spec =
     (case marshal spec of None \<Rightarrow> Inl spec | Some v \<Rightarrow> Inr (json_roundtrip v))"

definition specMatchesDesired :: "('s \<Rightarrow> gval option) \<Rightarrow> 's \<Rightarrow> 's \<Rightarrow> bool" where
  "specMatchesDesired marshal existingSpec desiredSpec =
     (canonicalizeSpec marshal existingSpec = canonicalizeSpec marshal desiredSpec)"

lemma specMatchesDesired_refl [simp]: "specMatchesDesired marshal s s"
  by (simp add: specMatchesDesired_def)

lemma specMatchesDesired_Some:
  "specMatchesDesired Some a b \<longleftrightarrow> json_roundtrip a = json_roundtrip b"
  by (simp add: specMatchesDesired_def canonicalizeSpec_def)

section \<open>Laws\<close>

lemma rune_length_le: "rune_length s \<le> length s"
  by (cases s) (auto simp: Let_def split: list.splits)

text \<open>A sequence is decided by its own bytes.\<close>

lemma rune_length_append:
  assumes "rune_length s = n" "n \<noteq> 0"
  shows "rune_length (take n s @ r) = n"
proof (cases s)
  case (Cons a u)
  consider "u = []" | b where "u = [b]" | b c where "u = [b, c]"
    | b c d v where "u = b # c # d # v"
    by (metis list.exhaust)
  then show ?thesis
    using assms unfolding Cons by cases (auto split: if_splits)
qed (use assms in simp)

lemma rune_length_replacement [simp]: "rune_length (replacement @ r) = 3"
  by (simp add: replacement_def in_range_def second_of_three_def)

lemma to_valid_utf8_idem [simp]: "to_valid_utf8 (to_valid_utf8 s) = to_valid_utf8 s"
proof (induction s rule: to_valid_utf8.induct)
  case (1 s)
  have repl: "replacement \<noteq> []" "length replacement = 3" by (simp_all add: replacement_def)
  consider "s = []" | (bad) "s \<noteq> []" "rune_length s = 0" | (good) "s \<noteq> []" "rune_length s \<noteq> 0" by blast
  then show ?case
  proof cases
    case bad
    then have s: "to_valid_utf8 s = replacement @ to_valid_utf8 (tl s)"
      by (subst to_valid_utf8.simps) simp
    show ?thesis
      unfolding s using 1(1) [OF bad] repl
      by (subst to_valid_utf8.simps) simp
  next
    case good
    let ?n = "rune_length s"
    let ?r = "to_valid_utf8 (drop ?n s)"
    from good have s: "to_valid_utf8 s = take ?n s @ ?r"
      by (subst to_valid_utf8.simps) simp
    have len: "length (take ?n s) = ?n" using rune_length_le [of s] by simp
    then have "take ?n (take ?n s @ ?r) = take ?n s" "drop ?n (take ?n s @ ?r) = ?r" by simp_all
    moreover have "to_valid_utf8 (take ?n s @ ?r) =
        take ?n (take ?n s @ ?r) @ to_valid_utf8 (drop ?n (take ?n s @ ?r))"
      using good rune_length_append [OF refl good(2)] by (subst to_valid_utf8.simps) simp
    ultimately show ?thesis unfolding s using 1(2) [OF good] by simp
  qed simp
qed

lemma sorted_list_of_fmmap:
  "sorted_list_of_fmap (fmmap f m) = map (\<lambda>(k, v). (k, f v)) (sorted_list_of_fmap m)"
proof -
  have "map (\<lambda>k. (k, the (fmlookup (fmmap f m) k))) (sorted_list_of_fset (fmdom m)) =
      map (\<lambda>k. (k, f (the (fmlookup m k)))) (sorted_list_of_fset (fmdom m))"
    by (rule map_cong) (auto simp: fmlookup_dom_iff)
  then show ?thesis by (simp add: sorted_list_of_fmap_def comp_def)
qed

lemma fmmap_rekey: "fmmap f (rekey m) = rekey (fmmap f m)"
proof -
  have "fmmap f (fold (\<lambda>(k, v) m. fmupd (to_valid_utf8 k) v m) xs acc) =
      fold (\<lambda>(k, v) m. fmupd (to_valid_utf8 k) v m) (map (\<lambda>(k, v). (k, f v)) xs) (fmmap f acc)"
    for xs acc
    by (induction xs arbitrary: acc) (auto simp: fmmap_fmupd)
  then show ?thesis by (simp add: rekey_def sorted_list_of_fmmap)
qed

lemma rekey_valid_keys:
  assumes "k |\<in>| fmdom (rekey m)"
  shows "to_valid_utf8 k = k"
proof -
  have gen: "\<forall>k. k |\<in>| fmdom (fold (\<lambda>(k, v) m. fmupd (g k) v m) xs acc) \<longrightarrow> P k"
    if "\<forall>k. k |\<in>| fmdom acc \<longrightarrow> P k" "\<forall>k. P (g k)"
    for P and g :: "string \<Rightarrow> string" and xs and acc :: "(string, 'a) fmap"
    using that
  proof (induction xs arbitrary: acc)
    case (Cons e xs)
    obtain a b where "e = (a, b)" by (cases e)
    moreover have "\<forall>k. k |\<in>| fmdom (fmupd (g a) b acc) \<longrightarrow> P k"
      using Cons.prems by (metis fmdom_fmupd finsert_iff)
    ultimately show ?case using Cons.IH [OF _ Cons.prems(2)] by (simp del: fmdom_fmupd)
  qed simp
  have "\<forall>k. k |\<in>| fmdom (rekey m) \<longrightarrow> to_valid_utf8 k = k"
    unfolding rekey_def
    by (rule gen [where P = "\<lambda>k. to_valid_utf8 k = k" and g = to_valid_utf8])
      simp_all
  then show ?thesis using assms by blast
qed

lemma rekey_id:
  assumes "\<And>k. k |\<in>| fmdom m \<Longrightarrow> to_valid_utf8 k = k"
  shows "rekey m = m"
proof -
  have "fold (\<lambda>(k, v) m. fmupd (to_valid_utf8 k) v m) xs acc = acc ++\<^sub>f fmap_of_list xs"
    if "distinct (map fst xs)" "\<forall>k \<in> set (map fst xs). to_valid_utf8 k = k"
    for xs and acc :: "(string, 'a) fmap"
    using that
  proof (induction xs arbitrary: acc)
    case (Cons e xs)
    obtain k v where e: "e = (k, v)" by (cases e)
    with Cons.prems have "k |\<notin>| fmdom (fmap_of_list xs)"
      by (simp add: fset_of_list.rep_eq)
    then have "fmupd k v acc ++\<^sub>f fmap_of_list xs = acc ++\<^sub>f fmupd k v (fmap_of_list xs)"
      by (intro fmap_ext) auto
    with Cons e show ?case by simp
  qed simp
  moreover have "\<forall>k \<in> set (map fst (sorted_list_of_fmap m)). to_valid_utf8 k = k"
    using assms by (auto simp: set_sorted_list_of_fmap fmlookup_dom_iff)
  ultimately show ?thesis by (simp add: rekey_def)
qed

lemma rekey_idem [simp]: "rekey (rekey m) = rekey m"
  by (rule rekey_id) (rule rekey_valid_keys)

lemma fmmap_cong_lookup: "(\<And>k v. fmlookup m k = Some v \<Longrightarrow> f v = g v) \<Longrightarrow> fmmap f m = fmmap g m"
  by (rule fmap_ext) (auto simp: map_option_case split: option.splits)

lemma fmmap_fmmap: "fmmap f (fmmap g m) = fmmap (\<lambda>v. f (g v)) m"
  by (rule fmap_ext) (simp add: option.map_comp comp_def)

text \<open>C22. Canonicalizing is idempotent, so a spec always matches its own canonical form: what the API
  server returns as decoded JSON for the object the operator sent is not seen as drift.\<close>

theorem json_roundtrip_idempotent:
  "json_roundtrip (json_roundtrip v) = json_roundtrip v \<and> specMatchesDesired Some (json_roundtrip v) v"
proof -
  have "json_roundtrip (json_roundtrip v) = json_roundtrip v"
  proof (induction v)
    case (GMap m)
    then have "fmmap (\<lambda>v. json_roundtrip (json_roundtrip v)) m = fmmap json_roundtrip m"
      by (intro fmmap_cong_lookup) (auto intro: fmran'I)
    then show ?case by (simp add: fmmap_rekey fmmap_fmmap)
  qed (simp_all add: fmmap_rekey fmmap_fmmap)
  then show ?thesis by (simp add: specMatchesDesired_Some)
qed

section \<open>Integers as floating point numbers\<close>

lemma bit_length_le: "n < 2 ^ k \<Longrightarrow> bit_length n \<le> k"
proof (induction k arbitrary: n)
  case 0
  then show ?case by (simp add: bit_length.simps)
next
  case (Suc k)
  then have "n div 2 < 2 ^ k" by auto
  with Suc.IH show ?case by (subst bit_length.simps) simp
qed

lemma round53_exact:
  assumes "n \<le> 2 ^ 53"
  shows "round53 n = n"
proof (cases "n = 2 ^ 53")
  case True
  have "round53 9007199254740992 = 9007199254740992" by code_simp
  with True show ?thesis by simp
next
  case False
  with assms have "bit_length n \<le> 53" by (intro bit_length_le) simp
  then show ?thesis by (simp add: round53_def Let_def)
qed

text \<open>C27. Up to \<open>2 ^ 53\<close> in absolute value an integer of a spec is compared exactly: it matches the
  floating point number of the same value and no other integer of that range.\<close>

theorem specMatches_small_ints:
  assumes "\<bar>sint i\<bar> \<le> 2 ^ 53" "\<bar>sint j\<bar> \<le> 2 ^ 53"
  shows "specMatchesDesired Some (GInt i) (GFloat (of_int (sint i))) \<and>
    (specMatchesDesired Some (GInt i) (GInt j) \<longleftrightarrow> i = j)"
proof -
  have exact: "float_of_int64 k = of_int (sint k)" if "\<bar>sint k\<bar> \<le> 2 ^ 53" for k
    using that by (simp add: float_of_int64_def round53_exact)
  show ?thesis
    using exact [OF assms(1)] exact [OF assms(2)]
    by (auto simp: specMatchesDesired_Some signed_word_eqI)
qed

theorem specMatches_small_ints_witness:
  "specMatchesDesired Some (GInt 80) (GFloat (of_int (sint (80 :: int64)))) \<and>
    (specMatchesDesired Some (GInt 80) (GInt 443) \<longleftrightarrow> (80 :: int64) = 443)"
  by (rule specMatches_small_ints) simp_all

text \<open>Beyond that range the comparison is blind: \<open>2 ^ 53\<close> and \<open>2 ^ 53 + 1\<close> are the same
  \<open>float64\<close>, so a change of a spec from one to the other is not detected.\<close>

theorem specMatches_large_ints_collide:
  "specMatchesDesired Some (GMap (fmap_of_list [(''n'', GInt 9007199254740992)]))
      (GMap (fmap_of_list [(''n'', GInt 9007199254740993)])) \<and>
    (9007199254740992 :: int64) \<noteq> 9007199254740993"
proof -
  have "float_of_int64 9007199254740992 = float_of_int64 9007199254740993" by code_simp
  then show ?thesis by (simp add: specMatchesDesired_Some fmmap_fmupd)
qed

end
