(* ===== verification/Map_Utils.thy ===== *)
theory Map_Utils
  imports Go_Prelude
begin

text \<open>
  The helpers on maps of strings of controllers/map_utils.go. Each loop runs over its map with
  \<open>range_map\<close>, and \<open>store_loop\<close> (Go_Prelude) shows that the order does not matter.
\<close>

definition mergeStringMaps :: "gomap \<Rightarrow> gomap \<Rightarrow> gomap" where
  "mergeStringMaps base overlay =
     (let merged = fmempty;
          merged = range_map store_entry base merged;
          merged = range_map store_entry overlay merged
      in Some merged)"

definition copyStringMapPreserveNil :: "gomap \<Rightarrow> gomap" where
  "copyStringMapPreserveNil m =
     (if m = None then None
      else if gm_len m = 0 then Some fmempty
      else Some (range_map store_entry m fmempty))"

text \<open>\<open>reflect.DeepEqual\<close> on two maps is equality of the model's maps: nil equals nil only.\<close>

definition stringMapsEqualNilEmpty :: "gomap \<Rightarrow> gomap \<Rightarrow> bool" where
  "stringMapsEqualNilEmpty a b = (if gm_len a = 0 \<and> gm_len b = 0 then True else a = b)"

lemma copyStringMapPreserveNil_id [simp]: "copyStringMapPreserveNil m = m"
  by (cases m) (simp_all add: copyStringMapPreserveNil_def go_map)

lemma stringMapsEqualNilEmpty_iff: "stringMapsEqualNilEmpty a b \<longleftrightarrow> gm_map a = gm_map b"
  by (cases a; cases b) (auto simp: stringMapsEqualNilEmpty_def)

lemma stringMapsEqualNilEmpty_refl [simp]: "stringMapsEqualNilEmpty m m"
  by (simp add: stringMapsEqualNilEmpty_iff)

lemma mergeStringMaps_add: "mergeStringMaps a b = Some (gm_map a ++\<^sub>f gm_map b)"
  by (simp add: mergeStringMaps_def Let_def go_map)

lemma mergeStringMaps_get:
  "gm_get (mergeStringMaps a b) k =
     (case gm_get b k of None \<Rightarrow> gm_get a k | Some v \<Rightarrow> Some v)"
  by (auto simp: mergeStringMaps_add gm_get_def fmlookup_dom_iff split: option.splits)

end
