(* ===== verification/Workload_Merge.thy ===== *)
theory Workload_Merge
  imports Api_Types
begin

text \<open>
  Merging the containers and volumes of an existing pod template with the desired ones
  (controllers/workload_merge.go). The two loops of the code are translated as they are, with
  their accumulators; \<open>keyed_merge\<close> is what both compute, stated over a key, a rule for
  unknown elements and a way to combine an existing element with the desired one of the same
  key. The locale \<open>keyed_merge_laws\<close> says what such a combination must satisfy for the merge
  to be stable under repetition, and both merges of the operator interpret it.
\<close>

section \<open>The code\<close>

text \<open>\<open>m := make(map[string]T); for _, x := range xs { m[key(x)] = x }\<close>: the last one wins.\<close>

definition index_by :: "('a \<Rightarrow> string) \<Rightarrow> 'a list \<Rightarrow> string \<rightharpoonup> 'a" where
  "index_by key xs = fold (\<lambda>x m. m(key x \<mapsto> x)) xs Map.empty"

definition mergeContainerPreservingMutations :: "'o container \<Rightarrow> 'o container \<Rightarrow> 'o container" where
  "mergeContainerPreservingMutations existing desired =
     existing\<lparr>c_name := c_name desired,
       c_image := c_image desired,
       c_command := c_command desired,
       c_args := c_args desired,
       c_resources := c_resources desired,
       c_livenessProbe := c_livenessProbe desired,
       c_readinessProbe := c_readinessProbe desired,
       c_startupProbe := c_startupProbe desired,
       c_env := c_env desired,
       c_envFrom := c_envFrom desired,
       c_volumeMounts := c_volumeMounts desired,
       c_ports := c_ports desired\<rparr>"

text \<open>The loop over the existing containers, with \<open>merged\<close> and \<open>seen\<close>.\<close>

fun merge_existing_containers ::
  "(string \<rightharpoonup> 'o container) \<Rightarrow> 'o container list \<Rightarrow> 'o container list \<Rightarrow> string set \<Rightarrow>
   'o container list \<times> string set" where
  "merge_existing_containers desiredByName [] merged seen = (merged, seen)"
| "merge_existing_containers desiredByName (current # rest) merged seen =
     (case desiredByName (c_name current) of
        None \<Rightarrow> merge_existing_containers desiredByName rest (merged @ [current]) seen
      | Some want \<Rightarrow>
          merge_existing_containers desiredByName rest
            (merged @ [mergeContainerPreservingMutations current want])
            (insert (c_name current) seen))"

text \<open>The loop that appends the desired elements that were not seen.\<close>

fun append_unseen :: "('a \<Rightarrow> string) \<Rightarrow> string set \<Rightarrow> 'a list \<Rightarrow> 'a list \<Rightarrow> 'a list" where
  "append_unseen key seen [] merged = merged"
| "append_unseen key seen (want # rest) merged =
     (if key want \<in> seen then append_unseen key seen rest merged
      else append_unseen key seen rest (merged @ [want]))"

definition mergeContainersPreservingUnknown ::
  "'o container slice \<Rightarrow> 'o container slice \<Rightarrow> 'o container slice" where
  "mergeContainersPreservingUnknown existing desired =
     (let desiredByName = index_by c_name (elems desired);
          (merged, seen) = merge_existing_containers desiredByName (elems existing) [] {}
      in Some (append_unseen c_name seen (elems desired) merged))"

text \<open>The closure \<open>add\<close> and \<open>mountedVolumeNames\<close>.\<close>

definition add_mounted_names :: "'o container slice \<Rightarrow> string set \<Rightarrow> string set" where
  "add_mounted_names items names =
     fold (\<lambda>c names.
        fold (\<lambda>d names. insert (vd_name d) names) (elems (c_volumeDevices c))
          (fold (\<lambda>m names. insert (vm_name m) names) (elems (c_volumeMounts c)) names))
       (elems items) names"

definition mountedVolumeNames :: "'o container slice \<Rightarrow> 'o container slice \<Rightarrow> string set" where
  "mountedVolumeNames containers initContainers =
     add_mounted_names initContainers (add_mounted_names containers {})"

fun merge_existing_volumes ::
  "(string \<rightharpoonup> 'o volume) \<Rightarrow> string set \<Rightarrow> 'o volume list \<Rightarrow> 'o volume list \<Rightarrow> string set \<Rightarrow>
   'o volume list \<times> string set" where
  "merge_existing_volumes desiredByName mounted [] out seen = (out, seen)"
| "merge_existing_volumes desiredByName mounted (v # rest) out seen =
     (case desiredByName (v_name v) of
        Some want \<Rightarrow>
          merge_existing_volumes desiredByName mounted rest (out @ [want]) (insert (v_name v) seen)
      | None \<Rightarrow>
          if v_name v \<in> mounted
          then merge_existing_volumes desiredByName mounted rest (out @ [v]) seen
          else merge_existing_volumes desiredByName mounted rest out seen)"

definition mergeVolumesRespectingMountedNames ::
  "'o volume slice \<Rightarrow> 'o volume slice \<Rightarrow> 'o container slice \<Rightarrow> 'o container slice \<Rightarrow>
   'o volume slice" where
  "mergeVolumesRespectingMountedNames existing desired containers initContainers =
     (let desiredByName = index_by v_name (elems desired);
          mounted = mountedVolumeNames containers initContainers;
          (out, seen) = merge_existing_volumes desiredByName mounted (elems existing) [] {}
      in Some (append_unseen v_name seen (elems desired) out))"

section \<open>What both merges compute\<close>

definition keyed_merge ::
  "('a \<Rightarrow> string) \<Rightarrow> ('a \<Rightarrow> bool) \<Rightarrow> ('a \<Rightarrow> 'a \<Rightarrow> 'a) \<Rightarrow> 'a list \<Rightarrow> 'a list \<Rightarrow> 'a list" where
  "keyed_merge key keep combine existing desired =
     (let byKey = index_by key desired in
      map (\<lambda>e. case byKey (key e) of None \<Rightarrow> e | Some d \<Rightarrow> combine e d)
        (filter (\<lambda>e. byKey (key e) \<noteq> None \<or> keep e) existing) @
      filter (\<lambda>d. key d \<notin> key ` set existing) desired)"

lemma index_by_fold:
  "fold (\<lambda>x m. m(key x \<mapsto> x)) xs m0 k =
     (case find (\<lambda>x. key x = k) (rev xs) of None \<Rightarrow> m0 k | Some x \<Rightarrow> Some x)"
proof (induction xs arbitrary: m0)
  case Nil
  then show ?case by simp
next
  case (Cons x xs)
  have *: "find P (ys @ [y]) = (case find P ys of None \<Rightarrow> if P y then Some y else None | Some z \<Rightarrow> Some z)"
    for P and y :: 'a and ys
    by (induction ys) auto
  show ?case
    by (simp only: fold_simps comp_apply Cons.IH [of "m0(key x \<mapsto> x)"] rev.simps *)
      (simp split: option.splits)
qed

lemma index_by_find: "index_by key xs k = find (\<lambda>x. key x = k) (rev xs)"
  by (simp add: index_by_def index_by_fold split: option.splits)

lemma index_by_SomeD: "index_by key xs k = Some x \<Longrightarrow> x \<in> set xs \<and> key x = k"
  by (auto simp: index_by_find find_Some_iff) (metis nth_mem length_rev set_rev)

lemma index_by_None: "index_by key xs k = None \<longleftrightarrow> k \<notin> key ` set xs"
  by (auto simp: index_by_find find_None_iff)

lemma index_by_distinct:
  assumes "distinct (map key xs)" "x \<in> set xs"
  shows "index_by key xs (key x) = Some x"
proof -
  have "index_by key xs (key x) \<noteq> None" using assms(2) by (simp add: index_by_None)
  then obtain y where y: "index_by key xs (key x) = Some y" by blast
  then have "y \<in> set xs" "key y = key x" by (auto dest: index_by_SomeD)
  with assms have "y = x" by (metis distinct_map inj_onD)
  with y show ?thesis by simp
qed

lemma seen_filter:
  "filter (\<lambda>d. key d \<notin> key ` {e \<in> set es. index_by key ds (key e) \<noteq> None}) ds =
   filter (\<lambda>d. key d \<notin> key ` set es) ds"
proof (rule filter_cong [OF refl])
  fix d assume "d \<in> set ds"
  then have "index_by key ds (key d) \<noteq> None" by (simp add: index_by_None)
  then show "(key d \<notin> key ` {e \<in> set es. index_by key ds (key e) \<noteq> None}) =
             (key d \<notin> key ` set es)"
    by (auto simp: image_iff simp del: not_None_eq)
qed

lemma append_unseen_filter:
  "append_unseen key seen xs merged = merged @ filter (\<lambda>x. key x \<notin> seen) xs"
  by (induction xs arbitrary: merged) auto

lemma merge_existing_containers_eq:
  "merge_existing_containers m es merged seen =
     (merged @ map (\<lambda>e. case m (c_name e) of None \<Rightarrow> e
        | Some d \<Rightarrow> mergeContainerPreservingMutations e d) es,
      seen \<union> c_name ` {e \<in> set es. m (c_name e) \<noteq> None})"
  by (induction es arbitrary: merged seen) (auto split: option.splits)

lemma merge_existing_volumes_eq:
  "merge_existing_volumes m mounted vs out seen =
     (out @ map (\<lambda>e. case m (v_name e) of None \<Rightarrow> e | Some d \<Rightarrow> d)
        (filter (\<lambda>e. m (v_name e) \<noteq> None \<or> v_name e \<in> mounted) vs),
      seen \<union> v_name ` {e \<in> set vs. m (v_name e) \<noteq> None})"
  by (induction vs arbitrary: out seen) (auto split: option.splits)

lemma mergeContainers_keyed:
  "mergeContainersPreservingUnknown existing desired =
   Some (keyed_merge c_name (\<lambda>_. True) mergeContainerPreservingMutations
     (elems existing) (elems desired))"
  by (simp add: mergeContainersPreservingUnknown_def keyed_merge_def Let_def
      merge_existing_containers_eq append_unseen_filter seen_filter del: not_None_eq)

lemma mergeVolumes_keyed:
  "mergeVolumesRespectingMountedNames existing desired containers initContainers =
   Some (keyed_merge v_name (\<lambda>v. v_name v \<in> mountedVolumeNames containers initContainers)
     (\<lambda>e d. d) (elems existing) (elems desired))"
  by (simp add: mergeVolumesRespectingMountedNames_def keyed_merge_def Let_def
      merge_existing_volumes_eq append_unseen_filter seen_filter del: not_None_eq)

lemma add_mounted_names_eq:
  "add_mounted_names items names =
     names \<union> {vm_name m | m c. c \<in> set (elems items) \<and> m \<in> set (elems (c_volumeMounts c))}
       \<union> {vd_name d | d c. c \<in> set (elems items) \<and> d \<in> set (elems (c_volumeDevices c))}"
proof -
  have ins: "fold (\<lambda>x names. insert (f x) names) xs names = names \<union> f ` set xs"
    for f :: "'z \<Rightarrow> string" and xs names
    by (induction xs arbitrary: names) auto
  have "fold (\<lambda>c names. fold (\<lambda>d names. insert (vd_name d) names) (elems (c_volumeDevices c))
          (fold (\<lambda>m names. insert (vm_name m) names) (elems (c_volumeMounts c)) names)) cs names =
        names \<union> {vm_name m | m c. c \<in> set cs \<and> m \<in> set (elems (c_volumeMounts c))}
          \<union> {vd_name d | d c. c \<in> set cs \<and> d \<in> set (elems (c_volumeDevices c))}"
    for cs :: "'o container list" and names
    by (induction cs arbitrary: names) (auto simp: ins)
  then show ?thesis by (simp add: add_mounted_names_def)
qed

lemma mountedVolumeNames_iff:
  "n \<in> mountedVolumeNames cs ics \<longleftrightarrow>
     (\<exists>c \<in> set (elems cs) \<union> set (elems ics).
        n \<in> vm_name ` set (elems (c_volumeMounts c)) \<union> vd_name ` set (elems (c_volumeDevices c)))"
  by (auto simp: mountedVolumeNames_def add_mounted_names_eq)

section \<open>The contract of a merge by key\<close>

locale keyed_merge_laws =
  fixes key :: "'a \<Rightarrow> string" and keep :: "'a \<Rightarrow> bool" and combine :: "'a \<Rightarrow> 'a \<Rightarrow> 'a"
  assumes key_combine: "key e = key d \<Longrightarrow> key (combine e d) = key d"
    and combine_again: "combine (combine e d) d = combine e d"
    and combine_self: "combine d d = d"
begin

lemma known_key:
  "index_by key desired (key e) = Some d \<Longrightarrow> key (combine e d) = key e"
  using key_combine [of e d] by (auto dest: index_by_SomeD)

lemma keys_merged:
  "key ` set (keyed_merge key keep combine existing desired) =
     key ` {e \<in> set existing. keep e} \<union> key ` set desired"
proof -
  let ?m = "index_by key desired"
  let ?f = "\<lambda>e. case ?m (key e) of None \<Rightarrow> e | Some d \<Rightarrow> combine e d"
  have "key (?f e) = key e" for e
    by (cases "?m (key e)") (simp_all add: known_key)
  then have "key ` set (keyed_merge key keep combine existing desired) =
      key ` {e \<in> set existing. ?m (key e) \<noteq> None \<or> keep e} \<union>
      key ` {d \<in> set desired. key d \<notin> key ` set existing}"
    by (simp add: keyed_merge_def Let_def image_Un image_image del: not_None_eq)
  also have "\<dots> = key ` {e \<in> set existing. key e \<in> key ` set desired \<or> keep e} \<union>
      key ` {d \<in> set desired. key d \<notin> key ` set existing}"
    by (simp add: index_by_None del: not_None_eq)
  also have "\<dots> = (key ` set existing \<inter> key ` set desired \<union> key ` {e \<in> set existing. keep e}) \<union>
      (key ` set desired - key ` set existing)"
    by (intro arg_cong2 [of _ _ _ _ "(\<union>)"]) auto
  also have "\<dots> = key ` {e \<in> set existing. keep e} \<union> key ` set desired"
    by auto
  finally show ?thesis .
qed

lemma unknown_preserved:
  assumes "e \<in> set existing" "key e \<notin> key ` set desired" "keep e"
  shows "e \<in> set (keyed_merge key keep combine existing desired)"
proof -
  have "index_by key desired (key e) = None" using assms by (simp add: index_by_None)
  with assms have "e \<in> set (filter (\<lambda>e. index_by key desired (key e) \<noteq> None \<or> keep e) existing)"
    and "(case index_by key desired (key e) of None \<Rightarrow> e | Some d \<Rightarrow> combine e d) = e"
    by auto
  then show ?thesis by (force simp: keyed_merge_def Let_def)
qed

lemma unknown_dropped:
  assumes "x \<in> set (keyed_merge key keep combine existing desired)"
    and "key x \<notin> key ` set desired"
  shows "x \<in> set existing \<and> keep x"
proof -
  from assms consider (kept) "x \<in> set existing" "keep x"
    | (known) e d where "index_by key desired (key e) = Some d" "x = combine e d"
    | (added) "x \<in> set desired"
    by (auto simp: keyed_merge_def Let_def split: option.splits)
  then show ?thesis
  proof cases
    case known
    from index_by_SomeD [OF known(1)] have "key x = key d" "d \<in> set desired"
      by (simp_all add: known(2) key_combine)
    with assms(2) show ?thesis by simp
  qed (use assms(2) in auto)
qed

lemma merged_known:
  assumes "distinct (map key desired)" "x \<in> set (keyed_merge key keep combine existing desired)"
    and "d \<in> set desired" "key x = key d"
  shows "combine x d = x"
proof -
  have d: "index_by key desired (key x) = Some d"
    using index_by_distinct [OF assms(1,3)] assms(4) by simp
  from assms(2) consider (kept) "index_by key desired (key x) = None"
    | (known) e d' where "index_by key desired (key e) = Some d'" "x = combine e d'"
    | (added) "x \<in> set desired"
    by (auto simp: keyed_merge_def Let_def split: option.splits)
  then show ?thesis
  proof cases
    case known
    with d known_key have "d' = d" by (metis option.inject)
    with known show ?thesis by (simp add: combine_again)
  next
    case added
    with d index_by_distinct [OF assms(1) added] show ?thesis by (simp add: combine_self)
  qed (use d in simp)
qed

lemma idempotent:
  assumes distinct: "distinct (map key desired)"
  shows "keyed_merge key keep combine (keyed_merge key keep combine existing desired) desired =
    keyed_merge key keep combine existing desired"
proof -
  let ?m = "index_by key desired"
  let ?f = "\<lambda>e. case ?m (key e) of None \<Rightarrow> e | Some d \<Rightarrow> combine e d"
  let ?r = "keyed_merge key keep combine existing desired"
  have stable: "(?m (key x) \<noteq> None \<or> keep x) \<and> ?f x = x" if x: "x \<in> set ?r" for x
  proof -
    consider (kept) "x \<in> set existing" "?m (key x) = None" "keep x"
      | (known) e d where "?m (key e) = Some d" "x = combine e d"
      | (added) "x \<in> set desired"
      using x by (auto simp: keyed_merge_def Let_def split: option.splits)
    then show ?thesis
    proof cases
      case kept
      then show ?thesis by simp
    next
      case known
      then show ?thesis by (simp add: known_key combine_again)
    next
      case added
      then show ?thesis by (simp add: index_by_distinct [OF distinct] combine_self)
    qed
  qed
  have "filter (\<lambda>e. ?m (key e) \<noteq> None \<or> keep e) ?r = ?r"
    using stable by (intro filter_True) blast
  moreover have "map ?f ?r = ?r" using stable by (intro map_idI) blast
  moreover have "filter (\<lambda>d. key d \<notin> key ` set ?r) desired = []"
    unfolding keys_merged by (auto simp: filter_empty_conv)
  ultimately show ?thesis
    unfolding keyed_merge_def [of key keep combine ?r] by (simp add: Let_def)
qed

end

lemma combine_containers_key [simp]:
  "c_name (mergeContainerPreservingMutations e d) = c_name d"
  by (simp add: mergeContainerPreservingMutations_def)

interpretation container_merge:
  keyed_merge_laws c_name "\<lambda>_. True" mergeContainerPreservingMutations
  by unfold_locales (simp_all add: mergeContainerPreservingMutations_def)

interpretation volume_merge:
  keyed_merge_laws v_name "\<lambda>v. v_name v \<in> mounted" "\<lambda>e d. d" for mounted
  by unfold_locales simp_all

end
