(* ===== verification/Effects.thy ===== *)
theory Effects
  imports Api_Types
begin

text \<open>
  How the operator acts on the world: Go errors as values, the events it records and the
  requests it sends to the API server.

  The API server and the controller-runtime client are not part of the repository. They are
  a parameter: the record \<open>('w, 'o) client\<close> gives, for each kind of object, functions from
  the state \<open>'w\<close> of the cluster to the response and the next state. Nothing is assumed of
  them here, so a response may contradict an earlier one (another client may act between two
  requests). The state of a run is the cluster, the events recorded and the requests issued;
  the last two only grow and are what an observer of the operator can see.
\<close>

section \<open>Errors\<close>

datatype api_reason = NotFound | NoMatch | OtherReason

datatype api_error = ApiError api_reason string

text \<open>\<open>Errorf s\<close> is \<open>fmt.Errorf\<close> without \<open>%w\<close>; \<open>Wrapf s e\<close> is \<open>fmt.Errorf(s + ": %w", e)\<close>.\<close>

datatype go_error = Api api_error | Errorf string | Wrapf string go_error

fun error_string :: "go_error \<Rightarrow> string" where
  "error_string (Api (ApiError r m)) = m"
| "error_string (Errorf m) = m"
| "error_string (Wrapf m e) = m @ '': '' @ error_string e"

fun is_not_found :: "api_error \<Rightarrow> bool" where
  "is_not_found (ApiError r m) = (r = NotFound)"

fun is_no_match :: "api_error \<Rightarrow> bool" where
  "is_no_match (ApiError r m) = (r = NoMatch)"

section \<open>Requests, events and the state of a run\<close>

datatype kind = KPhare | KDeployment | KStatefulSet | KService | KConfigMap | KHTTPRoute
  | KGCPBackendPolicy | KHealthCheckPolicy

datatype verb = Get | Create | Update | Patch | Delete | StatusUpdate

text \<open>A \<open>client.ObjectKey\<close>: namespace and name.\<close>

type_synonym obj_key = "string \<times> string"

datatype call = Call verb kind obj_key

primrec call_verb :: "call \<Rightarrow> verb" where "call_verb (Call v k n) = v"
primrec call_kind :: "call \<Rightarrow> kind" where "call_kind (Call v k n) = k"
primrec call_key :: "call \<Rightarrow> obj_key" where "call_key (Call v k n) = n"

definition is_write :: "call \<Rightarrow> bool" where
  "is_write c \<longleftrightarrow> call_verb c \<noteq> Get"

record event =
  ev_type :: string
  ev_reason :: string
  ev_message :: string

record 'w st =
  world :: 'w
  events :: "event list"
  calls :: "call list"

type_synonym ('w, 'a) step = "'w st \<Rightarrow> (go_error + 'a) \<times> 'w st"

definition eventf :: "string \<Rightarrow> string \<Rightarrow> string \<Rightarrow> 'w st \<Rightarrow> 'w st" where
  "eventf ty reason msg s =
     s\<lparr>events := events s @ [\<lparr>ev_type = ty, ev_reason = reason, ev_message = msg\<rparr>]\<rparr>"

section \<open>The client of the API server\<close>

record ('w, 'a) resource_client =
  rc_get :: "obj_key \<Rightarrow> 'w \<Rightarrow> (api_error + 'a) \<times> 'w"
  rc_create :: "'a \<Rightarrow> 'w \<Rightarrow> (api_error + unit) \<times> 'w"
  rc_update :: "'a \<Rightarrow> 'w \<Rightarrow> (api_error + unit) \<times> 'w"
  rc_patch :: "string option \<Rightarrow> 'a \<Rightarrow> 'a \<Rightarrow> 'w \<Rightarrow> (api_error + unit) \<times> 'w"
  rc_delete :: "'a \<Rightarrow> 'w \<Rightarrow> (api_error + unit) \<times> 'w"
  rc_status_update :: "'a \<Rightarrow> 'w \<Rightarrow> (api_error + unit) \<times> 'w"

text \<open>
  \<open>rc_patch owner original modified\<close> is \<open>Patch(ctx, modified, client.MergeFrom(original))\<close>
  with the given field owner, if any.
\<close>

definition send :: "verb \<Rightarrow> kind \<Rightarrow> obj_key \<Rightarrow> ('w \<Rightarrow> 'r \<times> 'w) \<Rightarrow> 'w st \<Rightarrow> 'r \<times> 'w st" where
  "send v k n f s =
     (case f (world s) of
        (r, w) \<Rightarrow> (r, s\<lparr>world := w, calls := calls s @ [Call v k n]\<rparr>))"

definition meta_key :: "'o meta \<Rightarrow> obj_key" where
  "meta_key m = (m_namespace m, m_name m)"

record ('w, 'o) client =
  cl_phare :: "('w, 'o phare) resource_client"
  cl_deployment :: "('w, 'o deployment) resource_client"
  cl_statefulSet :: "('w, 'o stateful_set) resource_client"
  cl_service :: "('w, 'o service) resource_client"
  cl_configMap :: "('w, 'o config_map) resource_client"
  cl_httpRoute :: "('w, 'o http_route) resource_client"
  cl_gcpBackendPolicy :: "('w, 'o unstructured) resource_client"
  cl_healthCheckPolicy :: "('w, 'o unstructured) resource_client"

section \<open>What a run adds to its trace\<close>

text \<open>\<open>issues C s t\<close>: the run from \<open>s\<close> to \<open>t\<close> sent requests from \<open>C\<close> only.\<close>

definition issues :: "call set \<Rightarrow> 'w st \<Rightarrow> 'w st \<Rightarrow> bool" where
  "issues C s t \<longleftrightarrow> (\<exists>cs. calls t = calls s @ cs \<and> set cs \<subseteq> C)"

named_theorems issues_intro "the requests an operation may send"

lemma issues_refl [simp, intro!]: "issues C s s"
  by (simp add: issues_def)

lemma issues_trans: "issues C s t \<Longrightarrow> issues C t u \<Longrightarrow> issues C s u"
  by (fastforce simp: issues_def)

lemma issues_mono: "issues C s t \<Longrightarrow> C \<subseteq> D \<Longrightarrow> issues D s t"
  by (fastforce simp: issues_def)

lemma issues_eventf [simp]: "issues C s (eventf ty r m t) = issues C s t"
  by (simp add: issues_def eventf_def)

lemma calls_eventf [simp]: "calls (eventf ty r m s) = calls s"
  by (simp add: eventf_def)

lemma world_eventf [simp]: "world (eventf ty r m s) = world s"
  by (simp add: eventf_def)

lemma calls_send: "calls (snd (send v k n f s)) = calls s @ [Call v k n]"
  by (simp add: send_def split: prod.splits)

lemma events_send: "events (snd (send v k n f s)) = events s"
  by (simp add: send_def split: prod.splits)

lemma send_calls: "send v k n f s = (r, t) \<Longrightarrow> calls t = calls s @ [Call v k n]"
  using calls_send [of v k n f s] by simp

lemma send_events: "send v k n f s = (r, t) \<Longrightarrow> events t = events s"
  using events_send [of v k n f s] by simp

lemma run_ok: "fst p = r \<Longrightarrow> p = (r, snd p)"
  by (cases p) simp

lemma send_trace:
  "send v k n f s = (r, t) \<Longrightarrow> calls t = calls s @ [Call v k n] \<and> events t = events s"
  by (simp add: send_calls send_events)

lemma send_world: "send v k n f s = (r, t) \<Longrightarrow> f (world s) = (r, world t)"
  by (auto simp: send_def split: prod.splits)

lemma issues_send: "send v k n f s = (r, t) \<Longrightarrow> Call v k n \<in> C \<Longrightarrow> issues C s t"
  by (simp add: issues_def send_calls)

text \<open>
  Relations between the state before and after a run compose along the code: a case distinction
  on the outcome of a step is related when the step is and each branch is, from the state the
  step left. The rules follow the shapes of the operator's definitions, so that a statement about
  a whole handler reduces to its requests with \<open>intro\<close>.
\<close>

locale run_relation =
  fixes R :: "'w st \<Rightarrow> 'w st \<Rightarrow> bool"
  assumes refl: "R s s"
    and trans: "R s t \<Longrightarrow> R t u \<Longrightarrow> R s u"
begin

lemma case_step:
  assumes "R s (snd p)"
    and "\<And>e t. p = (Inl e, t) \<Longrightarrow> R t (snd (L e t))"
    and "\<And>x t. p = (Inr x, t) \<Longrightarrow> R t (snd (K x t))"
  shows "R s (snd (case p of (Inl e, t) \<Rightarrow> L e t | (Inr x, t) \<Rightarrow> K x t))"
  using assms by (cases p; cases "fst p") (auto intro: trans)

lemma case_pair:
  assumes "R s (snd p)" and "\<And>r t. p = (r, t) \<Longrightarrow> R t (snd (B r t))"
  shows "R s (snd (case p of (r, t) \<Rightarrow> B r t))"
  using assms by (cases p) (auto intro: trans)

lemma case_result:
  "(\<And>e. r = Inl e \<Longrightarrow> R s (snd (L e))) \<Longrightarrow> (\<And>x. r = Inr x \<Longrightarrow> R s (snd (K x))) \<Longrightarrow>
   R s (snd (case r of Inl e \<Rightarrow> L e | Inr x \<Rightarrow> K x))"
  by (cases r) simp_all

lemma let_value: "R s (snd (f v)) \<Longrightarrow> R s (snd (let x = v in f x))"
  by (simp add: Let_def)

lemma if_branch:
  "(b \<Longrightarrow> R s (snd p)) \<Longrightarrow> (\<not> b \<Longrightarrow> R s (snd q)) \<Longrightarrow> R s (snd (if b then p else q))"
  by simp

lemma case_opt:
  "(z = None \<Longrightarrow> R s (snd p)) \<Longrightarrow> (\<And>a. z = Some a \<Longrightarrow> R s (snd (q a))) \<Longrightarrow>
   R s (snd (case z of None \<Rightarrow> p | Some a \<Rightarrow> q a))"
  by (cases z) simp_all

lemma returned: "R s t \<Longrightarrow> R s (snd (r, t))"
  by simp

lemmas along = case_step case_pair case_result let_value if_branch case_opt returned refl

end

interpretation issued: run_relation "issues C" for C :: "call set"
  by unfold_locales (auto intro: issues_trans)

lemma issues_snd_send: "Call v k n \<in> C \<Longrightarrow> issues C s (snd (send v k n f s))"
  by (simp add: issues_def calls_send)

lemmas issues_along = issued.along issues_snd_send

declare issues_along [issues_intro]

end
