(* ===== verification/Externals.thy ===== *)
theory Externals
  imports Effects
begin

text \<open>
  The libraries the operator calls that are not part of the repository, as one record of
  functions passed to every definition that uses them. Nothing is assumed of them here; a
  theorem that relies on documented behaviour of one of them names it as a hypothesis.

  \<^item> \<open>x_setControllerReference phare namespace owners\<close>: controller-runtime's
    \<open>SetControllerReference\<close> on an object of the namespace with these owner references, the
    new owner references or \<open>None\<close> for an error;
  \<^item> \<open>x_isControlledBy owners uid\<close>: \<open>metav1.IsControlledBy\<close> for an owner with this uid;
  \<^item> \<open>x_templateParse text\<close>: \<open>template.New(..).Parse\<close>; a parsed template is the function its
    \<open>Execute\<close> computes from the object metadata (the template language itself is not modelled);
  \<^item> \<open>x_cmpDiffDeployment opts a b\<close>, \<open>x_cmpDiffStatefulSet opts a b\<close>: \<open>cmp.Diff\<close> with ignored
    fields;
  \<^item> \<open>x_marshalServiceSpec\<close>, \<open>x_marshalHTTPRouteSpec\<close>: the JSON value \<open>json.Marshal\<close> writes for
    these Kubernetes structs, which depends on their struct tags, or \<open>None\<close> for an error;
  \<^item> \<open>x_gcpToUnstructured\<close>, \<open>x_hcpToUnstructured\<close>: \<open>DefaultUnstructuredConverter.ToUnstructured\<close>;
  \<^item> \<open>x_getLabels labels\<close>: \<open>Unstructured.GetLabels\<close> when \<open>metadata.labels\<close> is the given value,
    \<open>x_setLabels\<close>: the value of \<open>metadata.labels\<close> after \<open>SetLabels\<close> (\<open>GNil\<close> when removed).
\<close>

record 'o ext =
  x_setControllerReference :: "'o phare \<Rightarrow> string \<Rightarrow> owner_ref slice \<Rightarrow> owner_ref slice option"
  x_isControlledBy :: "owner_ref slice \<Rightarrow> string \<Rightarrow> bool"
  x_templateParse :: "string \<Rightarrow> go_error + ('o meta \<Rightarrow> go_error + string)"
  x_cmpDiffDeployment :: "(string \<times> string list) list \<Rightarrow> 'o deployment \<Rightarrow> 'o deployment \<Rightarrow> string"
  x_cmpDiffStatefulSet :: "(string \<times> string list) list \<Rightarrow> 'o stateful_set \<Rightarrow> 'o stateful_set \<Rightarrow> string"
  x_marshalServiceSpec :: "'o service_spec \<Rightarrow> gval option"
  x_marshalHTTPRouteSpec :: "'o http_route_spec \<Rightarrow> gval option"
  x_gcpToUnstructured :: "gcp_backend_policy_spec \<Rightarrow> gval option"
  x_hcpToUnstructured :: "health_check_policy_spec \<Rightarrow> gval option"
  x_getLabels :: "gval \<Rightarrow> gomap"
  x_setLabels :: "gomap \<Rightarrow> gval"

text \<open>\<open>ctrl.SetControllerReference(phare, obj, r.Scheme)\<close> on the metadata of a typed object.\<close>

definition set_controller_reference :: "'o ext \<Rightarrow> 'o phare \<Rightarrow> 'o meta \<Rightarrow> 'o meta option" where
  "set_controller_reference x phare m =
     map_option (\<lambda>refs. m\<lparr>m_owners := refs\<rparr>)
       (x_setControllerReference x phare (m_namespace m) (m_owners m))"

lemma set_controller_reference_Some:
  "set_controller_reference x phare m = Some m' \<Longrightarrow>
   \<exists>refs. x_setControllerReference x phare (m_namespace m) (m_owners m) = Some refs \<and>
     m' = m\<lparr>m_owners := refs\<rparr>"
  by (auto simp: set_controller_reference_def)

section \<open>Literals the builders share\<close>

text \<open>\<open>metav1.ObjectMeta{Name: .., Namespace: .., Labels: .., Annotations: ..}\<close>\<close>

definition object_meta :: "string \<Rightarrow> string \<Rightarrow> gomap \<Rightarrow> gomap \<Rightarrow> 'o meta" where
  "object_meta name namespace labels annotations =
     \<lparr>m_name = name, m_namespace = namespace, m_uid = [], m_generation = 0,
      m_labels = labels, m_annotations = annotations, m_owners = None, m_rest = None\<rparr>"

text \<open>The literal \<open>metadataLabels\<close> of every builder.\<close>

definition metadata_labels :: "string \<Rightarrow> (string, string) fmap" where
  "metadata_labels name =
     fmap_of_list [(''app'', name), (''app.kubernetes.io/created-by'', ''phare-controller'')]"

lemma object_meta_simps [simp]:
  "m_name (object_meta n ns l a) = n"
  "m_namespace (object_meta n ns l a) = ns"
  "m_labels (object_meta n ns l a) = l"
  "m_annotations (object_meta n ns l a) = a"
  "m_owners (object_meta n ns l a) = None"
  by (simp_all add: object_meta_def)

end
