(* ===== verification/Compare_Options.thy ===== *)
theory Compare_Options
  imports Api_Types
begin

text \<open>
  The fields that the comparison of an original with a merged workload leaves out
  (controllers/compare_options.go). \<open>cmp.Diff\<close> is a library function; what its option
  \<open>cmpopts.IgnoreFields\<close> documents is stated here on the model's records: \<open>without_ignored opts\<close>
  clears the listed fields wherever the records show a struct of the listed type. Structs of
  these types may also occur in the parts of a pod that the model keeps opaque (ephemeral
  containers, life cycle hooks), so \<open>visible\<close> drops those parts as well: workloads that agree
  without the ignored fields have an empty diff, and an empty diff means that they agree on what
  is visible.
\<close>

definition podTemplateCompareOptions :: "(string \<times> string list) list" where
  "podTemplateCompareOptions =
     [(''Container'', [''TerminationMessagePath'', ''TerminationMessagePolicy'', ''ImagePullPolicy'']),
      (''Probe'', [''TimeoutSeconds'', ''SuccessThreshold'', ''FailureThreshold'', ''PeriodSeconds'']),
      (''HTTPGetAction'', [''Scheme''])]"

definition ignored :: "(string \<times> string list) list \<Rightarrow> string \<Rightarrow> string \<Rightarrow> bool" where
  "ignored opts ty field = (\<exists>(t, fs) \<in> set opts. t = ty \<and> field \<in> set fs)"

definition clear_http_get :: "(string \<times> string list) list \<Rightarrow> 'o http_get \<Rightarrow> 'o http_get" where
  "clear_http_get opts h =
     h\<lparr>hg_scheme := if ignored opts ''HTTPGetAction'' ''Scheme'' then [] else hg_scheme h\<rparr>"

definition clear_probe :: "(string \<times> string list) list \<Rightarrow> 'o probe \<Rightarrow> 'o probe" where
  "clear_probe opts p =
     p\<lparr>pr_httpGet := map_option (clear_http_get opts) (pr_httpGet p),
       pr_timeoutSeconds := if ignored opts ''Probe'' ''TimeoutSeconds'' then 0 else pr_timeoutSeconds p,
       pr_periodSeconds := if ignored opts ''Probe'' ''PeriodSeconds'' then 0 else pr_periodSeconds p,
       pr_successThreshold :=
         if ignored opts ''Probe'' ''SuccessThreshold'' then 0 else pr_successThreshold p,
       pr_failureThreshold :=
         if ignored opts ''Probe'' ''FailureThreshold'' then 0 else pr_failureThreshold p\<rparr>"

definition clear_container :: "(string \<times> string list) list \<Rightarrow> 'o container \<Rightarrow> 'o container" where
  "clear_container opts c =
     c\<lparr>c_livenessProbe := map_option (clear_probe opts) (c_livenessProbe c),
       c_readinessProbe := map_option (clear_probe opts) (c_readinessProbe c),
       c_startupProbe := map_option (clear_probe opts) (c_startupProbe c),
       c_terminationMessagePath :=
         if ignored opts ''Container'' ''TerminationMessagePath'' then [] else c_terminationMessagePath c,
       c_terminationMessagePolicy :=
         if ignored opts ''Container'' ''TerminationMessagePolicy'' then []
         else c_terminationMessagePolicy c,
       c_imagePullPolicy :=
         if ignored opts ''Container'' ''ImagePullPolicy'' then [] else c_imagePullPolicy c\<rparr>"

definition without_ignored ::
  "(string \<times> string list) list \<Rightarrow> ('o, 'z) workload_scheme \<Rightarrow> ('o, 'z) workload_scheme" where
  "without_ignored opts w =
     w\<lparr>w_pod := (w_pod w)
       \<lparr>pod_initContainers := map_slice (clear_container opts) (pod_initContainers (w_pod w)),
        pod_containers := map_slice (clear_container opts) (pod_containers (w_pod w))\<rparr>\<rparr>"

definition visible ::
  "(string \<times> string list) list \<Rightarrow> ('o, 'z) workload_scheme \<Rightarrow> ('o, 'z) workload_scheme" where
  "visible opts w =
     (let w = without_ignored opts w; opaque = map_slice (\<lambda>c. c\<lparr>c_rest := None\<rparr>) in
      w\<lparr>w_pod := (w_pod w)
        \<lparr>pod_initContainers := opaque (pod_initContainers (w_pod w)),
         pod_containers := opaque (pod_containers (w_pod w)),
         pod_rest := None\<rparr>\<rparr>)"

lemma visible_cong: "without_ignored opts a = without_ignored opts b \<Longrightarrow> visible opts a = visible opts b"
  unfolding visible_def by (simp only:)

lemma map_slice_None [simp]: "map_slice f s = None \<longleftrightarrow> s = None"
  by (simp add: map_slice_def)

lemma visible_fields:
  "w_tmplAnnotations (visible opts w) = w_tmplAnnotations w"
  "w_tmplLabels (visible opts w) = w_tmplLabels w"
  "w_replicas (visible opts w) = w_replicas w"
  "pod_volumes (w_pod (visible opts w)) = pod_volumes (w_pod w)"
  "pod_initContainers (w_pod (visible opts w)) = None \<longleftrightarrow> pod_initContainers (w_pod w) = None"
  by (simp_all add: visible_def without_ignored_def Let_def)

text \<open>The contract of \<open>cmp.Diff\<close> with these options.\<close>

locale diff_contract =
  fixes diff :: "(string \<times> string list) list \<Rightarrow> ('o, 'z) workload_scheme \<Rightarrow> ('o, 'z) workload_scheme \<Rightarrow> string"
  assumes same_no_diff: "without_ignored opts a = without_ignored opts b \<Longrightarrow> diff opts a b = []"
    and no_diff_visible: "diff opts a b = [] \<Longrightarrow> visible opts a = visible opts b"
begin

lemma refl_no_diff: "diff opts a a = []"
  by (rule same_no_diff [OF refl])

end

text \<open>A comparison that keeps the contract.\<close>

definition sample_diff ::
  "(string \<times> string list) list \<Rightarrow> ('o, 'z) workload_scheme \<Rightarrow> ('o, 'z) workload_scheme \<Rightarrow> string" where
  "sample_diff opts a b = (if without_ignored opts a = without_ignored opts b then [] else ''diff'')"

lemma sample_diff_Nil: "sample_diff opts a b = [] \<longleftrightarrow> without_ignored opts a = without_ignored opts b"
  unfolding sample_diff_def by simp

interpretation sample_diff: diff_contract sample_diff
proof
  fix opts and a b :: "('o, 'z) workload_scheme"
  show "sample_diff opts a b = []" if "without_ignored opts a = without_ignored opts b"
    using that by (rule sample_diff_Nil [THEN iffD2])
  show "visible opts a = visible opts b" if "sample_diff opts a b = []"
    using that by (intro visible_cong) (rule sample_diff_Nil [THEN iffD1])
qed

end
