(* ===== verification/Api_Laws.thy ===== *)
theory Api_Laws
  imports Externals Compare_Options
begin

text \<open>
  What the API server promises, as far as the operator relies on it. The locale
  \<open>store_client\<close> is the contract of the client for one kind of object on a cluster where
  nobody else writes to that object between two requests of the operator: \<open>look\<close> reads the
  stored objects, \<open>key\<close> is an object's namespace and name, \<open>kept\<close> is the part of an object
  that the server stores as it was sent (the rest may be defaulted), and \<open>frame\<close> says what the
  request leaves alone. Requests may fail at any time; a request that fails changes nothing.

  The second half is a concrete cluster that satisfies the contract, one map per kind. It
  shows that the contract can be met and is what the witnesses run on; no property is about it.
\<close>

section \<open>The contract\<close>

locale store_client =
  fixes rc :: "('w, 'a) resource_client"
    and look :: "'w \<Rightarrow> obj_key \<Rightarrow> 'a option"
    and key :: "'a \<Rightarrow> obj_key"
    and kept :: "'a \<Rightarrow> 'c"
    and frame :: "'w \<Rightarrow> 'w \<Rightarrow> bool"
  assumes get_found: "rc_get rc k w = (Inr x, w') \<Longrightarrow>
      look w k = Some x \<and> key x = k \<and> look w' = look w \<and> frame w w'"
    and get_failed: "rc_get rc k w = (Inl e, w') \<Longrightarrow>
      (is_not_found e \<longrightarrow> look w k = None) \<and> look w' = look w \<and> frame w w'"
    and create_ok: "rc_create rc x w = (Inr u, w') \<Longrightarrow>
      (\<exists>y. kept y = kept x \<and> key y = key x \<and> look w' = (look w)(key x \<mapsto> y)) \<and> frame w w'"
    and create_failed: "rc_create rc x w = (Inl e, w') \<Longrightarrow> look w' = look w \<and> frame w w'"
    and update_ok: "rc_update rc x w = (Inr u, w') \<Longrightarrow>
      (\<exists>y. kept y = kept x \<and> key y = key x \<and> look w' = (look w)(key x \<mapsto> y)) \<and> frame w w'"
    and update_failed: "rc_update rc x w = (Inl e, w') \<Longrightarrow> look w' = look w \<and> frame w w'"
    and patch_ok: "rc_patch rc ow orig x w = (Inr u, w') \<Longrightarrow> look w (key x) = Some orig \<Longrightarrow>
      (\<exists>y. kept y = kept x \<and> key y = key x \<and> look w' = (look w)(key x \<mapsto> y)) \<and> frame w w'"
    and patch_failed: "rc_patch rc ow orig x w = (Inl e, w') \<Longrightarrow> look w' = look w \<and> frame w w'"
    and delete_ok: "rc_delete rc x w = (Inr u, w') \<Longrightarrow>
      look w' = (look w)(key x := None) \<and> frame w w'"
    and delete_failed: "rc_delete rc x w = (Inl e, w') \<Longrightarrow>
      (is_not_found e \<longrightarrow> look w (key x) = None) \<and> look w' = look w \<and> frame w w'"
    and frame_refl: "frame w w"
    and frame_trans: "frame w w' \<Longrightarrow> frame w' w'' \<Longrightarrow> frame w w''"
begin

text \<open>The same laws for the requests as the operator sends them.\<close>

lemma sent_get_found:
  "send v kd k (rc_get rc k') s = (Inr x, t) \<Longrightarrow>
   look (world s) k' = Some x \<and> key x = k' \<and> look (world t) = look (world s) \<and>
   frame (world s) (world t)"
  by (rule get_found [OF send_world])

lemma sent_get_failed:
  "send v kd k (rc_get rc k') s = (Inl e, t) \<Longrightarrow>
   (is_not_found e \<longrightarrow> look (world s) k' = None) \<and> look (world t) = look (world s) \<and>
   frame (world s) (world t)"
  by (rule get_failed [OF send_world])

lemma sent_create_ok:
  "send v kd k (rc_create rc x) s = (Inr u, t) \<Longrightarrow>
   (\<exists>y. kept y = kept x \<and> key y = key x \<and> look (world t) = (look (world s))(key x \<mapsto> y)) \<and>
   frame (world s) (world t)"
  by (rule create_ok [OF send_world])

lemma sent_update_ok:
  "send v kd k (rc_update rc x) s = (Inr u, t) \<Longrightarrow>
   (\<exists>y. kept y = kept x \<and> key y = key x \<and> look (world t) = (look (world s))(key x \<mapsto> y)) \<and>
   frame (world s) (world t)"
  by (rule update_ok [OF send_world])

lemma sent_patch_ok:
  "send v kd k (rc_patch rc ow orig x) s = (Inr u, t) \<Longrightarrow> look (world s) (key x) = Some orig \<Longrightarrow>
   (\<exists>y. kept y = kept x \<and> key y = key x \<and> look (world t) = (look (world s))(key x \<mapsto> y)) \<and>
   frame (world s) (world t)"
  by (rule patch_ok [OF send_world])

lemma sent_delete_ok:
  "send v kd k (rc_delete rc x) s = (Inr u, t) \<Longrightarrow>
   look (world t) = (look (world s))(key x := None) \<and> frame (world s) (world t)"
  by (rule delete_ok [OF send_world])

lemma sent_delete_failed:
  "send v kd k (rc_delete rc x) s = (Inl e, t) \<Longrightarrow>
   (is_not_found e \<longrightarrow> look (world s) (key x) = None) \<and> look (world t) = look (world s) \<and>
   frame (world s) (world t)"
  by (rule delete_failed [OF send_world])

lemma sent_create_failed:
  "send v kd k (rc_create rc x) s = (Inl e, t) \<Longrightarrow>
   look (world t) = look (world s) \<and> frame (world s) (world t)"
  by (rule create_failed [OF send_world])

lemma sent_update_failed:
  "send v kd k (rc_update rc x) s = (Inl e, t) \<Longrightarrow>
   look (world t) = look (world s) \<and> frame (world s) (world t)"
  by (rule update_failed [OF send_world])

lemma sent_patch_failed:
  "send v kd k (rc_patch rc ow orig x) s = (Inl e, t) \<Longrightarrow>
   look (world t) = look (world s) \<and> frame (world s) (world t)"
  by (rule patch_failed [OF send_world])

lemmas sent = sent_get_found sent_get_failed sent_create_ok sent_update_ok sent_patch_ok
  sent_delete_ok sent_delete_failed sent_create_failed sent_update_failed sent_patch_failed

text \<open>A run that touches the object \<open>n\<close> only, and leaves alone what \<open>frame\<close> says.\<close>

definition run_on :: "obj_key \<Rightarrow> 'w st \<Rightarrow> 'w st \<Rightarrow> bool" where
  "run_on n s t \<longleftrightarrow>
     (\<forall>k. k \<noteq> n \<longrightarrow> look (world t) k = look (world s) k) \<and> frame (world s) (world t)"

lemma run_on_get: "run_on n s (snd (send v kd k (rc_get rc k') s))"
  by (cases "send v kd k (rc_get rc k') s"; cases "fst (send v kd k (rc_get rc k') s)")
    (auto simp: run_on_def dest!: sent)

lemma run_on_create: "key x = n \<Longrightarrow> run_on n s (snd (send v kd k (rc_create rc x) s))"
  by (cases "send v kd k (rc_create rc x) s"; cases "fst (send v kd k (rc_create rc x) s)")
    (auto simp: run_on_def dest!: sent)

lemma run_on_update: "key x = n \<Longrightarrow> run_on n s (snd (send v kd k (rc_update rc x) s))"
  by (cases "send v kd k (rc_update rc x) s"; cases "fst (send v kd k (rc_update rc x) s)")
    (auto simp: run_on_def dest!: sent)

lemma run_on_patch:
  "key x = n \<Longrightarrow> look (world s) n = Some orig \<Longrightarrow>
   run_on n s (snd (send v kd k (rc_patch rc ow orig x) s))"
  by (cases "send v kd k (rc_patch rc ow orig x) s"; cases "fst (send v kd k (rc_patch rc ow orig x) s)")
    (auto simp: run_on_def dest!: sent)

lemma run_on_delete: "key x = n \<Longrightarrow> run_on n s (snd (send v kd k (rc_delete rc x) s))"
  by (cases "send v kd k (rc_delete rc x) s"; cases "fst (send v kd k (rc_delete rc x) s)")
    (auto simp: run_on_def dest!: sent)

lemmas run_on_send = run_on_get run_on_create run_on_update run_on_patch run_on_delete

lemma run_on_eventf [simp]: "run_on n s (eventf ty r m t) = run_on n s t"
  by (simp add: run_on_def)

lemma run_on_refl [simp]: "run_on n s s"
  by (simp add: run_on_def frame_refl)

end

sublocale store_client \<subseteq> on_object: run_relation "run_on n" for n
  by unfold_locales (auto simp: run_on_def frame_refl intro: frame_trans)

section \<open>What every client does\<close>

text \<open>
  A weaker law that holds whoever else writes to the cluster: an object returned by \<open>Get\<close> is the
  one asked for. The requests a sub-reconciler sends are bounded under this law alone.
\<close>

definition get_by_key :: "('w, 'a) resource_client \<Rightarrow> ('a \<Rightarrow> obj_key) \<Rightarrow> bool" where
  "get_by_key rc key \<longleftrightarrow> (\<forall>k w x w'. rc_get rc k w = (Inr x, w') \<longrightarrow> key x = k)"

abbreviation unstructured_key :: "'o unstructured \<Rightarrow> obj_key" where
  "unstructured_key u \<equiv> (u_namespace u, u_name u)"

definition client_by_key :: "('w, 'o) client \<Rightarrow> bool" where
  "client_by_key cl \<longleftrightarrow>
     get_by_key (cl_phare cl) (\<lambda>x. meta_key (ph_meta x)) \<and>
     get_by_key (cl_deployment cl) (\<lambda>x. meta_key (w_meta x)) \<and>
     get_by_key (cl_statefulSet cl) (\<lambda>x. meta_key (w_meta x)) \<and>
     get_by_key (cl_service cl) (\<lambda>x. meta_key (s_meta x)) \<and>
     get_by_key (cl_configMap cl) (\<lambda>x. meta_key (cm_meta x)) \<and>
     get_by_key (cl_httpRoute cl) (\<lambda>x. meta_key (hr_meta x)) \<and>
     get_by_key (cl_gcpBackendPolicy cl) unstructured_key \<and>
     get_by_key (cl_healthCheckPolicy cl) unstructured_key"

lemma sent_get_key:
  "send v kd k (rc_get rc k') s = (Inr x, t) \<Longrightarrow> get_by_key rc key \<Longrightarrow> key x = k'"
  by (metis get_by_key_def send_world)

lemma store_client_by_key:
  "store_client rc look key kept frame \<Longrightarrow> get_by_key rc key"
  unfolding get_by_key_def by (metis store_client.get_found)

text \<open>The requests a sub-reconciler may send about one object; it never writes a status.\<close>

definition requests_on :: "kind \<Rightarrow> obj_key \<Rightarrow> call set" where
  "requests_on k n = {c. call_kind c = k \<and> call_key c = n \<and> call_verb c \<noteq> StatusUpdate}"

lemma in_requests_on [simp]: "Call v k n \<in> requests_on k' n' \<longleftrightarrow> k = k' \<and> n = n' \<and> v \<noteq> StatusUpdate"
  by (auto simp: requests_on_def)

definition reads_on :: "kind \<Rightarrow> obj_key \<Rightarrow> call set" where
  "reads_on k n = {Call Get k n}"

lemma in_reads_on [simp]: "c \<in> reads_on k n \<longleftrightarrow> c = Call Get k n"
  by (simp add: reads_on_def)

section \<open>A concrete cluster\<close>

record 'o cluster =
  d_phares :: "obj_key \<Rightarrow> 'o phare option"
  d_deployments :: "obj_key \<Rightarrow> 'o deployment option"
  d_statefulSets :: "obj_key \<Rightarrow> 'o stateful_set option"
  d_services :: "obj_key \<Rightarrow> 'o service option"
  d_configMaps :: "obj_key \<Rightarrow> 'o config_map option"
  d_httpRoutes :: "obj_key \<Rightarrow> 'o http_route option"
  d_gcps :: "obj_key \<Rightarrow> 'o unstructured option"
  d_hcps :: "obj_key \<Rightarrow> 'o unstructured option"

definition err_not_found :: api_error where
  "err_not_found = ApiError NotFound ''not found''"

definition err_exists :: api_error where
  "err_exists = ApiError OtherReason ''already exists''"

text \<open>The client of one kind over the map that \<open>g\<close> reads and \<open>p\<close> replaces; \<open>st\<close> merges a status.\<close>

definition map_client ::
  "('w \<Rightarrow> obj_key \<Rightarrow> 'a option) \<Rightarrow> ((obj_key \<Rightarrow> 'a option) \<Rightarrow> 'w \<Rightarrow> 'w) \<Rightarrow> ('a \<Rightarrow> obj_key) \<Rightarrow>
   ('a \<Rightarrow> 'a \<Rightarrow> 'a) \<Rightarrow> ('w, 'a) resource_client" where
  "map_client g p key st =
     (let put = \<lambda>x w. (case g w (key x) of
            None \<Rightarrow> (Inl err_not_found, w)
          | Some y \<Rightarrow> (Inr (), p ((g w)(key x \<mapsto> x)) w)) in
      \<lparr>rc_get = \<lambda>k w. (case g w k of None \<Rightarrow> Inl err_not_found
         | Some x \<Rightarrow> if key x = k then Inr x else Inl err_exists, w),
       rc_create = \<lambda>x w. (case g w (key x) of
            Some y \<Rightarrow> (Inl err_exists, w)
          | None \<Rightarrow> (Inr (), p ((g w)(key x \<mapsto> x)) w)),
       rc_update = put,
       rc_patch = \<lambda>ow orig. put,
       rc_delete = \<lambda>x w. (case g w (key x) of
            None \<Rightarrow> (Inl err_not_found, w)
          | Some y \<Rightarrow> (Inr (), p ((g w)(key x := None)) w)),
       rc_status_update = \<lambda>x w. (case g w (key x) of
            None \<Rightarrow> (Inl err_not_found, w)
          | Some y \<Rightarrow> (Inr (), p ((g w)(key x \<mapsto> st x y)) w))\<rparr>)"

lemma map_client_laws:
  assumes "\<And>m w. g (p m w) = m" and "\<And>m w. fr w (p m w)" and "\<And>w. fr w w"
    and "\<And>w w' w''. fr w w' \<Longrightarrow> fr w' w'' \<Longrightarrow> fr w w''"
  shows "store_client (map_client g p key st) g key kept fr"
  by unfold_locales
    (auto simp: map_client_def Let_def err_not_found_def err_exists_def assms
      split: option.splits if_splits intro: assms(4))

definition cluster_client :: "('o cluster, 'o) client" where
  "cluster_client =
     \<lparr>cl_phare = map_client d_phares (\<lambda>m. d_phares_update (\<lambda>_. m)) (\<lambda>x. meta_key (ph_meta x))
        (\<lambda>x y. y\<lparr>ph_status := ph_status x\<rparr>),
      cl_deployment = map_client d_deployments (\<lambda>m. d_deployments_update (\<lambda>_. m))
        (\<lambda>x. meta_key (w_meta x)) (\<lambda>x y. y),
      cl_statefulSet = map_client d_statefulSets (\<lambda>m. d_statefulSets_update (\<lambda>_. m))
        (\<lambda>x. meta_key (w_meta x)) (\<lambda>x y. y),
      cl_service = map_client d_services (\<lambda>m. d_services_update (\<lambda>_. m))
        (\<lambda>x. meta_key (s_meta x)) (\<lambda>x y. y),
      cl_configMap = map_client d_configMaps (\<lambda>m. d_configMaps_update (\<lambda>_. m))
        (\<lambda>x. meta_key (cm_meta x)) (\<lambda>x y. y),
      cl_httpRoute = map_client d_httpRoutes (\<lambda>m. d_httpRoutes_update (\<lambda>_. m))
        (\<lambda>x. meta_key (hr_meta x)) (\<lambda>x y. y),
      cl_gcpBackendPolicy = map_client d_gcps (\<lambda>m. d_gcps_update (\<lambda>_. m))
        unstructured_key (\<lambda>x y. y),
      cl_healthCheckPolicy = map_client d_hcps (\<lambda>m. d_hcps_update (\<lambda>_. m))
        unstructured_key (\<lambda>x y. y)\<rparr>"

text \<open>All maps but the one of the given kind are unchanged.\<close>

definition only_kind :: "kind \<Rightarrow> 'o cluster \<Rightarrow> 'o cluster \<Rightarrow> bool" where
  "only_kind k w w' \<longleftrightarrow>
     (k \<noteq> KPhare \<longrightarrow> d_phares w' = d_phares w) \<and>
     (k \<noteq> KDeployment \<longrightarrow> d_deployments w' = d_deployments w) \<and>
     (k \<noteq> KStatefulSet \<longrightarrow> d_statefulSets w' = d_statefulSets w) \<and>
     (k \<noteq> KService \<longrightarrow> d_services w' = d_services w) \<and>
     (k \<noteq> KConfigMap \<longrightarrow> d_configMaps w' = d_configMaps w) \<and>
     (k \<noteq> KHTTPRoute \<longrightarrow> d_httpRoutes w' = d_httpRoutes w) \<and>
     (k \<noteq> KGCPBackendPolicy \<longrightarrow> d_gcps w' = d_gcps w) \<and>
     (k \<noteq> KHealthCheckPolicy \<longrightarrow> d_hcps w' = d_hcps w)"

text \<open>
  Sample libraries for the witnesses: an owner in the same namespace that is not yet replaced by
  another controller may be set; the only template action is \<open>{{ .Name }}\<close>; a Service spec is
  marshalled field by field, empty ones left out (the opaque fields are not written).
\<close>

definition sample_owner_ref :: "'o phare \<Rightarrow> owner_ref" where
  "sample_owner_ref p = \<lparr>or_apiVersion = ''phare.localcorp.internal/v1beta1'', or_kind = ''Phare'',
     or_name = ph_name p, or_uid = m_uid (ph_meta p), or_controller = Some True\<rparr>"

definition sample_marshal_service :: "'o service_spec \<Rightarrow> gval option" where
  "sample_marshal_service spec =
     (let str = \<lambda>n s. if s = [] then [] else [(n, GString s)];
          int = \<lambda>n (i :: int32). if i = 0 then [] else [(n, GInt (word_of_int (sint i)))];
          strs = \<lambda>n xs. if elems xs = [] then [] else [(n, GList (map GString (elems xs)))];
          opt = \<lambda>n z. (case z of None \<Rightarrow> [] | Some v \<Rightarrow> [(n, v)]);
          port = \<lambda>p. GMap (fmap_of_list (str ''name'' (sp_name p) @ str ''protocol'' (sp_protocol p) @
            [(''port'', GInt (word_of_int (sint (sp_port p))))] @ int ''nodePort'' (sp_nodePort p)))
      in Some (GMap (fmap_of_list (
        (if elems (svc_ports spec) = [] then [] else [(''ports'', GList (map port (elems (svc_ports spec))))]) @
        (if gm_len (svc_selector spec) = 0 then [] else [(''selector'', GStringMap (gm_map (svc_selector spec)))]) @
        str ''clusterIP'' (svc_clusterIP spec) @ strs ''clusterIPs'' (svc_clusterIPs spec) @
        str ''type'' (svc_type spec) @ strs ''externalIPs'' (svc_externalIPs spec) @
        str ''sessionAffinity'' (svc_sessionAffinity spec) @
        str ''loadBalancerIP'' (svc_loadBalancerIP spec) @
        strs ''loadBalancerSourceRanges'' (svc_loadBalancerSourceRanges spec) @
        str ''externalName'' (svc_externalName spec) @
        str ''externalTrafficPolicy'' (svc_externalTrafficPolicy spec) @
        int ''healthCheckNodePort'' (svc_healthCheckNodePort spec) @
        strs ''ipFamilies'' (svc_ipFamilies spec) @
        opt ''ipFamilyPolicy'' (map_option GString (svc_ipFamilyPolicy spec)) @
        opt ''allocateLoadBalancerNodePorts'' (map_option GBool (svc_allocateLoadBalancerNodePorts spec)) @
        opt ''loadBalancerClass'' (map_option GString (svc_loadBalancerClass spec)) @
        opt ''internalTrafficPolicy'' (map_option GString (svc_internalTrafficPolicy spec))))))"

definition sample_ext :: "'o ext" where
  "sample_ext =
     \<lparr>x_setControllerReference = \<lambda>p ns owners.
        (if ns = ph_namespace p \<and>
            (\<forall>r \<in> set (elems owners). or_controller r = Some True \<longrightarrow> or_uid r = m_uid (ph_meta p))
         then Some (Some (filter (\<lambda>r. or_uid r \<noteq> m_uid (ph_meta p)) (elems owners) @ [sample_owner_ref p]))
         else None),
      x_isControlledBy = \<lambda>owners uid.
        (case find (\<lambda>r. or_controller r = Some True) (elems owners) of
           None \<Rightarrow> False | Some r \<Rightarrow> or_uid r = uid),
      x_templateParse = \<lambda>t. (if t = ''{{ .Name }}'' then Inr (\<lambda>m. Inr (m_name m))
        else if take 2 t = ''{{'' then Inl (Errorf ''unclosed action'') else Inr (\<lambda>m. Inr t)),
      x_cmpDiffDeployment = sample_diff,
      x_cmpDiffStatefulSet = sample_diff,
      x_marshalServiceSpec = sample_marshal_service,
      x_marshalHTTPRouteSpec = \<lambda>_. None,
      x_gcpToUnstructured = \<lambda>_. Some GNil,
      x_hcpToUnstructured = \<lambda>_. Some GNil,
      x_getLabels = \<lambda>v. (case v of GMap m \<Rightarrow>
         Some (fmmap (\<lambda>u. case u of GString t \<Rightarrow> t | _ \<Rightarrow> []) m) | _ \<Rightarrow> None),
      x_setLabels = \<lambda>m. (case m of None \<Rightarrow> GNil | Some f \<Rightarrow> GMap (fmmap GString f))\<rparr>"

definition empty_cluster :: "'o cluster" where
  "empty_cluster = \<lparr>d_phares = \<lambda>_. None, d_deployments = \<lambda>_. None, d_statefulSets = \<lambda>_. None,
     d_services = \<lambda>_. None, d_configMaps = \<lambda>_. None, d_httpRoutes = \<lambda>_. None,
     d_gcps = \<lambda>_. None, d_hcps = \<lambda>_. None\<rparr>"

definition initial :: "'w \<Rightarrow> 'w st" where
  "initial w = \<lparr>world = w, events = [], calls = []\<rparr>"

lemma initial_simps [simp]:
  "world (initial w) = w" "events (initial w) = []" "calls (initial w) = []"
  by (simp_all add: initial_def)

text \<open>A Phare like the one the repository's tests use, to be varied.\<close>

definition sample_phare :: "'o phare" where
  "sample_phare =
     \<lparr>ph_type = \<lparr>tm_apiVersion = ''phare.localcorp.internal/v1beta1'', tm_kind = ''Phare''\<rparr>,
      ph_meta = \<lparr>m_name = ''demo'', m_namespace = ''default'', m_uid = ''phare-demo'', m_generation = 1,
        m_labels = None, m_annotations = None, m_owners = None, m_rest = None\<rparr>,
      ph_spec = \<lparr>ps_microService =
          \<lparr>ms_kind = ''Deployment'', ms_replicaCount = 1,
           ms_image = \<lparr>img_repository = ''nginx'', img_tag = ''latest''\<rparr>, ms_ports = None,
           ms_imagePullPolicy = [], ms_env = None, ms_envFrom = None, ms_affinity = None,
           ms_tolerations = None, ms_volumes = None, ms_volumeMounts = None,
           ms_volumeClaimTemplates = None, ms_initContainers = None, ms_extraContainers = None,
           ms_resourceRequirements = None, ms_command = None, ms_args = None, ms_podLabels = None,
           ms_podAnnotations = None, ms_livenessProbe = None, ms_readinessProbe = None,
           ms_startupProbe = None\<rparr>,
        ps_service = None, ps_toolChain = None\<rparr>,
      ph_status = \<lparr>st_phase = [], st_message = []\<rparr>\<rparr>"

definition with_config :: "config_spec \<Rightarrow> 'o phare \<Rightarrow> 'o phare" where
  "with_config cfg p = p\<lparr>ph_spec := (ph_spec p)\<lparr>ps_toolChain := Some
     \<lparr>tc_config = cfg, tc_httpRoute = None, tc_healthCheckPolicy = None,
      tc_gcpBackendPolicy = None\<rparr>\<rparr>\<rparr>"

interpretation phare_store: store_client
  "cl_phare cluster_client" d_phares "\<lambda>x. meta_key (ph_meta x)" kept "only_kind KPhare" for kept
  unfolding cluster_client_def by (simp, rule map_client_laws) (simp_all add: only_kind_def)

interpretation deployment_store: store_client
  "cl_deployment cluster_client" d_deployments "\<lambda>x. meta_key (w_meta x)" kept "only_kind KDeployment" for kept
  unfolding cluster_client_def by (simp, rule map_client_laws) (simp_all add: only_kind_def)

interpretation statefulSet_store: store_client
  "cl_statefulSet cluster_client" d_statefulSets "\<lambda>x. meta_key (w_meta x)" kept "only_kind KStatefulSet" for kept
  unfolding cluster_client_def by (simp, rule map_client_laws) (simp_all add: only_kind_def)

interpretation service_store: store_client
  "cl_service cluster_client" d_services "\<lambda>x. meta_key (s_meta x)" kept "only_kind KService" for kept
  unfolding cluster_client_def by (simp, rule map_client_laws) (simp_all add: only_kind_def)

interpretation configMap_store: store_client
  "cl_configMap cluster_client" d_configMaps "\<lambda>x. meta_key (cm_meta x)" kept "only_kind KConfigMap" for kept
  unfolding cluster_client_def by (simp, rule map_client_laws) (simp_all add: only_kind_def)

interpretation httpRoute_store: store_client
  "cl_httpRoute cluster_client" d_httpRoutes "\<lambda>x. meta_key (hr_meta x)" kept "only_kind KHTTPRoute" for kept
  unfolding cluster_client_def by (simp, rule map_client_laws) (simp_all add: only_kind_def)

interpretation gcp_store: store_client
  "cl_gcpBackendPolicy cluster_client" d_gcps unstructured_key kept "only_kind KGCPBackendPolicy" for kept
  unfolding cluster_client_def by (simp, rule map_client_laws) (simp_all add: only_kind_def)

interpretation hcp_store: store_client
  "cl_healthCheckPolicy cluster_client" d_hcps unstructured_key kept "only_kind KHealthCheckPolicy" for kept
  unfolding cluster_client_def by (simp, rule map_client_laws) (simp_all add: only_kind_def)

lemma cluster_client_by_key: "client_by_key cluster_client"
  unfolding client_by_key_def
  using phare_store.store_client_axioms deployment_store.store_client_axioms
    statefulSet_store.store_client_axioms service_store.store_client_axioms
    configMap_store.store_client_axioms httpRoute_store.store_client_axioms
    gcp_store.store_client_axioms hcp_store.store_client_axioms
  by (auto intro!: store_client_by_key)

end
