(* ===== verification/Service.thy ===== *)
theory Service
  imports Canonical_Json Map_Utils Workload_Merge Api_Laws
begin

text \<open>
  The Service (controllers/reconcile_service.go): building it from the Phare, merging it with the
  existing one so that immutable fields and NodePorts survive, deciding whether they differ, and
  bringing the cluster's copy in line.

  \<open>desiredService\<close> takes the dereferenced pointer \<open>phare.Spec.Service\<close>, which its caller has checked
  not to be nil, as the argument \<open>svc\<close>.
\<close>

section \<open>The code\<close>

definition reallocateNodePortAnnotation :: string where
  "reallocateNodePortAnnotation = ''phare.localcorp.internal/reallocate-nodeport''"

definition serviceAnnotationsFromPhare :: "gomap \<Rightarrow> gomap" where
  "serviceAnnotationsFromPhare m =
     (case copyStringMapPreserveNil m of
        None \<Rightarrow> None
      | Some out \<Rightarrow>
          (let out = fmdrop reallocateNodePortAnnotation out in
           if gm_len (Some out) = 0 then None else Some out))"

definition shouldReallocateNodePorts :: "'o phare option \<Rightarrow> bool" where
  "shouldReallocateNodePorts phare =
     (case phare of
        None \<Rightarrow> False
      | Some p \<Rightarrow>
          (case gm_get (m_annotations (ph_meta p)) reallocateNodePortAnnotation of
             None \<Rightarrow> False
           | Some v \<Rightarrow> to_lower (trim_space v) \<in> {''1'', ''true'', ''yes'', ''on''}))"

definition desiredService :: "'o ext \<Rightarrow> 'o phare \<Rightarrow> 'o service_spec \<Rightarrow> 'o service option" where
  "desiredService x phare svc =
     (let service =
            \<lparr>s_type = \<lparr>tm_apiVersion = ''v1'', tm_kind = ''Service''\<rparr>,
             s_meta = object_meta (ph_name phare) (ph_namespace phare)
               (mergeStringMaps (Some (metadata_labels (ph_name phare))) (m_labels (ph_meta phare)))
               (serviceAnnotationsFromPhare (m_annotations (ph_meta phare))),
             s_spec = svc,
             s_rest = None\<rparr>;
          service = (if svc_type (s_spec service) = []
            then service\<lparr>s_spec := (s_spec service)\<lparr>svc_type := ''ClusterIP''\<rparr>\<rparr> else service);
          service = service\<lparr>s_spec := (s_spec service)
            \<lparr>svc_selector := Some (fmap_of_list [(''app'', ph_name phare)])\<rparr>\<rparr>
      in (case set_controller_reference x phare (s_meta service) of
            None \<Rightarrow> None
          | Some m \<Rightarrow> Some (service\<lparr>s_meta := m\<rparr>)))"

text \<open>The identity of a port in the loops that carry NodePorts over.\<close>

definition port_key :: "'o service_port \<Rightarrow> string" where
  "port_key p =
     (let key = sp_name p in
      if key = [] then sp_protocol p @ ''/'' @ go_itoa (sint (sp_port p)) else key)"

definition keep_node_port :: "(string \<rightharpoonup> 'o service_port) \<Rightarrow> 'o service_port \<Rightarrow> 'o service_port" where
  "keep_node_port existingByKey p =
     (case existingByKey (port_key p) of
        None \<Rightarrow> p
      | Some current \<Rightarrow> if sp_nodePort p = 0 then p\<lparr>sp_nodePort := sp_nodePort current\<rparr> else p)"

definition mergeServiceSpecPreservingImmutable ::
  "'o service_spec \<Rightarrow> 'o service_spec \<Rightarrow> bool \<Rightarrow> 'o service_spec" where
  "mergeServiceSpecPreservingImmutable existing desired preserveNodePort =
     (let merged = desired\<lparr>
            svc_clusterIP := svc_clusterIP existing,
            svc_clusterIPs := append_nil (svc_clusterIPs existing),
            svc_ipFamilies := append_nil (svc_ipFamilies existing),
            svc_ipFamilyPolicy := svc_ipFamilyPolicy existing,
            svc_healthCheckNodePort := svc_healthCheckNodePort existing,
            svc_loadBalancerClass := svc_loadBalancerClass existing\<rparr>
      in if preserveNodePort \<and> 0 < length (elems (svc_ports existing))
         then (let existingByKey = index_by port_key (elems (svc_ports existing))
               in merged\<lparr>svc_ports := map_slice (keep_node_port existingByKey) (svc_ports merged)\<rparr>)
         else merged)"

definition normalizeServiceSpecForDiff :: "'o service_spec \<Rightarrow> 'o service_spec \<Rightarrow> 'o service_spec" where
  "normalizeServiceSpecForDiff existing desired =
     desired\<lparr>
       svc_externalIPs :=
         (if svc_externalIPs desired = None then append_nil (svc_externalIPs existing) else svc_externalIPs desired),
       svc_loadBalancerSourceRanges :=
         (if svc_loadBalancerSourceRanges desired = None then append_nil (svc_loadBalancerSourceRanges existing) else svc_loadBalancerSourceRanges desired),
       svc_sessionAffinityConfig :=
         (if svc_sessionAffinityConfig desired = None then svc_sessionAffinityConfig existing else svc_sessionAffinityConfig desired),
       svc_internalTrafficPolicy :=
         (if svc_internalTrafficPolicy desired = None then svc_internalTrafficPolicy existing else svc_internalTrafficPolicy desired),
       svc_allocateLoadBalancerNodePorts :=
         (if svc_allocateLoadBalancerNodePorts desired = None then svc_allocateLoadBalancerNodePorts existing else svc_allocateLoadBalancerNodePorts desired),
       svc_sessionAffinity :=
         (if svc_sessionAffinity desired = [] then svc_sessionAffinity existing else svc_sessionAffinity desired),
       svc_externalTrafficPolicy :=
         (if svc_externalTrafficPolicy desired = [] then svc_externalTrafficPolicy existing else svc_externalTrafficPolicy desired),
       svc_loadBalancerIP :=
         (if svc_loadBalancerIP desired = [] then svc_loadBalancerIP existing else svc_loadBalancerIP desired),
       svc_externalName :=
         (if svc_externalName desired = [] then svc_externalName existing else svc_externalName desired)\<rparr>"

definition canonicalizeServiceSpec :: "'o ext \<Rightarrow> 'o service_spec \<Rightarrow> 'o service_spec + gval" where
  "canonicalizeServiceSpec x spec = canonicalizeSpec (x_marshalServiceSpec x) spec"

definition serviceSpecsDiffer :: "'o ext \<Rightarrow> 'o service_spec \<Rightarrow> 'o service_spec \<Rightarrow> bool \<Rightarrow> bool" where
  "serviceSpecsDiffer x existing desired preserveNodePort =
     (let normalizedDesired = mergeServiceSpecPreservingImmutable existing desired preserveNodePort;
          normalizedDesired = normalizeServiceSpecForDiff existing normalizedDesired
      in canonicalizeServiceSpec x existing \<noteq> canonicalizeServiceSpec x normalizedDesired)"

abbreviation service_key :: "'o service \<Rightarrow> obj_key" where
  "service_key sv \<equiv> meta_key (s_meta sv)"

definition createService :: "('w, 'o) client \<Rightarrow> 'o service \<Rightarrow> ('w, unit) step" where
  "createService cl service s =
     (case send Create KService (service_key service) (rc_create (cl_service cl) service) s of
        (Inl err, s) \<Rightarrow> (Inl (Api err), s)
      | (Inr _, s) \<Rightarrow> (Inr (), s))"

definition updateService :: "('w, 'o) client \<Rightarrow> 'o service \<Rightarrow> ('w, unit) step" where
  "updateService cl service s =
     (case send Update KService (service_key service) (rc_update (cl_service cl) service) s of
        (Inl err, s) \<Rightarrow> (Inl (Api err), s)
      | (Inr _, s) \<Rightarrow> (Inr (), s))"

text \<open>The existing Service with the merged spec and the desired labels and annotations.\<close>

definition updated_service :: "'o service \<Rightarrow> 'o service \<Rightarrow> bool \<Rightarrow> 'o service" where
  "updated_service existing desired preserveNodePort =
     existing\<lparr>
       s_spec := mergeServiceSpecPreservingImmutable (s_spec existing) (s_spec desired)
         preserveNodePort,
       s_meta := (s_meta existing)\<lparr>
         m_labels := copyStringMapPreserveNil (m_labels (s_meta desired)),
         m_annotations := copyStringMapPreserveNil (m_annotations (s_meta desired))\<rparr>\<rparr>"

definition service_differs :: "'o ext \<Rightarrow> 'o service \<Rightarrow> 'o service \<Rightarrow> bool \<Rightarrow> bool" where
  "service_differs x existing desired preserveNodePort =
     (serviceSpecsDiffer x (s_spec existing) (s_spec desired) preserveNodePort \<or>
      \<not> stringMapsEqualNilEmpty (m_labels (s_meta existing)) (m_labels (s_meta desired)) \<or>
      \<not> stringMapsEqualNilEmpty (m_annotations (s_meta existing))
          (m_annotations (s_meta desired)))"

definition reconcileService ::
  "'o ext \<Rightarrow> ('w, 'o) client \<Rightarrow> obj_key \<Rightarrow> 'o phare \<Rightarrow> ('w, unit) step" where
  "reconcileService x cl req phare s =
     (case send Get KService req (rc_get (cl_service cl) req) s of
        (got, s) \<Rightarrow>
          (case ps_service (ph_spec phare) of
             None \<Rightarrow>
               (case got of
                  Inl err \<Rightarrow> if is_not_found err then (Inr (), s) else (Inl (Api err), s)
                | Inr existingService \<Rightarrow>
                    (case send Delete KService (service_key existingService)
                        (rc_delete (cl_service cl) existingService) s of
                       (Inl err, s) \<Rightarrow> (Inl (Api err), s)
                     | (Inr _, s) \<Rightarrow> (Inr (), s)))
           | Some svc \<Rightarrow>
               (case desiredService x phare svc of
                  None \<Rightarrow>
                    (Inl (Errorf (''failed to build desired Service for '' @ ph_namespace phare @ ''/'' @
                       ph_name phare)), s)
                | Some desired \<Rightarrow>
                    (case got of
                       Inl err \<Rightarrow>
                         if is_not_found err then createService cl desired s
                         else (Inl (Api err), s)
                     | Inr existingService \<Rightarrow>
                         (let preserveNodePort = \<not> shouldReallocateNodePorts (Some phare) in
                          if service_differs x existingService desired preserveNodePort
                          then updateService cl
                            (updated_service existingService desired preserveNodePort) s
                          else (Inr (), s))))))"

section \<open>The merge\<close>

lemma port_key_keep [simp]: "port_key (keep_node_port m p) = port_key p"
  by (simp add: keep_node_port_def port_key_def Let_def split: option.splits)

lemma desiredService_Some:
  assumes "desiredService x phare svc = Some sv"
  shows "service_key sv = meta_key (ph_meta phare)"
    and "m_labels (s_meta sv) =
      mergeStringMaps (Some (metadata_labels (ph_name phare))) (m_labels (ph_meta phare))"
    and "m_annotations (s_meta sv) = serviceAnnotationsFromPhare (m_annotations (ph_meta phare))"
    and "svc_selector (s_spec sv) = Some (fmap_of_list [(''app'', ph_name phare)])"
    and "svc_ports (s_spec sv) = svc_ports svc"
  using assms
  by (auto simp: desiredService_def Let_def meta_key_def split: option.splits if_splits
      dest!: set_controller_reference_Some)

lemma normalize_self [simp]: "normalizeServiceSpecForDiff m m = m"
  by (simp add: normalizeServiceSpecForDiff_def)

lemma merge_ports:
  "svc_ports (mergeServiceSpecPreservingImmutable e d preserve) =
     (if preserve then map_slice (keep_node_port (index_by port_key (elems (svc_ports e)))) (svc_ports d)
      else svc_ports d)"
proof -
  have "map_slice (keep_node_port (index_by port_key [])) (svc_ports d) = svc_ports d"
    by (cases "svc_ports d") (auto simp: keep_node_port_def index_by_def intro!: map_idI)
  then show ?thesis
    by (cases "elems (svc_ports e)") (simp_all add: mergeServiceSpecPreservingImmutable_def Let_def)
qed

lemma keep_node_port_again:
  assumes "distinct (map port_key ps)" "p \<in> set ps"
  shows "keep_node_port (index_by port_key (map (keep_node_port m) ps)) p = keep_node_port m p"
proof -
  have "distinct (map port_key (map (keep_node_port m) ps))" using assms(1) by (simp add: comp_def)
  then have "index_by port_key (map (keep_node_port m) ps) (port_key (keep_node_port m p)) =
      Some (keep_node_port m p)"
    by (rule index_by_distinct) (simp add: assms(2))
  then have "index_by port_key (map (keep_node_port m) ps) (port_key p) = Some (keep_node_port m p)"
    by simp
  then show ?thesis unfolding keep_node_port_def [of "index_by _ _"]
    by (auto simp: keep_node_port_def split: option.splits)
qed

lemma merge_again:
  assumes "distinct (map port_key (elems (svc_ports d)))"
  shows "mergeServiceSpecPreservingImmutable (mergeServiceSpecPreservingImmutable e d preserve) d preserve =
    mergeServiceSpecPreservingImmutable e d preserve"
proof -
  let ?m = "mergeServiceSpecPreservingImmutable e d preserve"
  have "svc_ports (mergeServiceSpecPreservingImmutable ?m d preserve) = svc_ports ?m"
  proof (cases preserve)
    case True
    then show ?thesis
      using assms by (cases "svc_ports d") (simp_all add: merge_ports keep_node_port_again cong: map_cong)
  qed (simp add: merge_ports)
  then show ?thesis
    by (auto simp: mergeServiceSpecPreservingImmutable_def Let_def)
qed

lemma index_by_find_distinct:
  assumes "distinct (map key xs)"
  shows "index_by key xs k = find (\<lambda>x. key x = k) xs"
proof (cases "find (\<lambda>x. key x = k) xs")
  case None
  then have "index_by key xs k = None" by (auto simp: index_by_None find_None_iff)
  with None show ?thesis by simp
next
  case (Some x)
  then have "x \<in> set xs" "key x = k" by (auto simp: find_Some_iff)
  with Some index_by_distinct [OF assms] show ?thesis by auto
qed

lemma serviceAnnotations_get:
  "gm_get (serviceAnnotationsFromPhare m) k =
     (if k = reallocateNodePortAnnotation then None else gm_get m k)"
proof (cases m)
  case (Some f)
  have "fmlookup f k = None" if "fmdrop r f = fmempty" "k \<noteq> r" for r
    using that by (metis fmempty_lookup fmlookup_drop)
  with Some show ?thesis by (auto simp: serviceAnnotationsFromPhare_def Let_def)
qed (simp add: serviceAnnotationsFromPhare_def)

lemma updated_service_key [simp]: "service_key (updated_service e d p) = service_key e"
  by (simp add: updated_service_def meta_key_def)

lemma updated_service_fields:
  "m_labels (s_meta (updated_service e d p)) = m_labels (s_meta d)"
  "m_annotations (s_meta (updated_service e d p)) = m_annotations (s_meta d)"
  "s_spec (updated_service e d p) = mergeServiceSpecPreservingImmutable (s_spec e) (s_spec d) p"
  by (simp_all add: updated_service_def)

section \<open>Reconciling\<close>

lemma reconcileService_requests [issues_intro]:
  assumes "get_by_key (cl_service cl) (\<lambda>sv. service_key sv)"
    and "req = meta_key (ph_meta phare)"
  shows "issues (requests_on KService req) s (snd (reconcileService x cl req phare s))"
  unfolding reconcileService_def createService_def updateService_def
  by (intro issues_intro)
    (auto dest: sent_get_key [OF _ assms(1)]
      simp: desiredService_Some assms(2))

locale service_store =
  store_client "cl_service cl" look "\<lambda>sv. service_key sv"
    "\<lambda>sv. (gm_map (m_labels (s_meta sv)), gm_map (m_annotations (s_meta sv)), kept_spec (s_spec sv))"
    frame
  for cl :: "('w, 'o) client"
    and look :: "'w \<Rightarrow> obj_key \<Rightarrow> 'o service option"
    and kept_spec :: "'o service_spec \<Rightarrow> 'c"
    and frame :: "'w \<Rightarrow> 'w \<Rightarrow> bool"
begin

lemma runs_on:
  assumes "req = meta_key (ph_meta phare)"
  shows "run_on req s (snd (reconcileService x cl req phare s))"
  unfolding reconcileService_def createService_def updateService_def
  by (intro on_object.along run_on_send)
    (auto simp: desiredService_Some assms dest: sent_get_found)

lemma removed:
  assumes "reconcileService x cl req phare s = (Inr (), t)" "ps_service (ph_spec phare) = None"
  shows "look (world t) req = None"
  using assms
  by (auto simp: reconcileService_def split: prod.splits sum.splits if_splits dest!: sent)

lemma stored:
  assumes "reconcileService x cl req phare s = (Inr (), t)" "req = meta_key (ph_meta phare)"
    and "ps_service (ph_spec phare) = Some svc"
  shows "\<exists>d sv. desiredService x phare svc = Some d \<and> look (world t) req = Some sv \<and>
    gm_map (m_labels (s_meta sv)) = gm_map (m_labels (s_meta d)) \<and>
    gm_map (m_annotations (s_meta sv)) = gm_map (m_annotations (s_meta d)) \<and>
    (let preserve = \<not> shouldReallocateNodePorts (Some phare) in
     case look (world s) req of
       None \<Rightarrow> kept_spec (s_spec sv) = kept_spec (s_spec d)
     | Some old \<Rightarrow>
         kept_spec (s_spec sv) =
           kept_spec (mergeServiceSpecPreservingImmutable (s_spec old) (s_spec d) preserve) \<or>
         sv = old \<and> \<not> serviceSpecsDiffer x (s_spec old) (s_spec d) preserve)"
  using assms
  by (auto simp: reconcileService_def createService_def updateService_def Let_def
      desiredService_Some updated_service_fields service_differs_def stringMapsEqualNilEmpty_iff
      split: option.splits prod.splits sum.splits if_splits dest!: sent)

end

interpretation cluster_service:
  service_store cluster_client d_services "\<lambda>spec. spec" "only_kind KService"
  by unfold_locales

section \<open>Properties\<close>

text \<open>C19. An update settles: the spec that the merge produces does not differ from the desired one
  when it is compared again, whatever the existing spec was, so the operator does not update a
  Service for ever. The ports of the desired spec must have distinct identities.\<close>

theorem service_update_settles:
  assumes "distinct (map port_key (elems (svc_ports desired)))"
  shows "\<not> serviceSpecsDiffer x (mergeServiceSpecPreservingImmutable existing desired preserve)
    desired preserve"
  by (simp add: serviceSpecsDiffer_def merge_again [OF assms] canonicalizeServiceSpec_def)

definition sample_port :: "string \<Rightarrow> int32 \<Rightarrow> int32 \<Rightarrow> unit service_port" where
  "sample_port name port nodePort = \<lparr>sp_name = name, sp_protocol = ''TCP'', sp_port = port,
     sp_nodePort = nodePort, sp_rest = None\<rparr>"

definition sample_service_spec :: "unit service_port list \<Rightarrow> unit service_spec" where
  "sample_service_spec ports = \<lparr>svc_ports = Some ports, svc_selector = None, svc_clusterIP = [],
     svc_clusterIPs = None, svc_type = ''NodePort'', svc_externalIPs = None, svc_sessionAffinity = [],
     svc_loadBalancerIP = [], svc_loadBalancerSourceRanges = None, svc_externalName = [],
     svc_externalTrafficPolicy = [], svc_healthCheckNodePort = 0, svc_sessionAffinityConfig = None,
     svc_ipFamilies = None, svc_ipFamilyPolicy = None, svc_allocateLoadBalancerNodePorts = None,
     svc_loadBalancerClass = None, svc_internalTrafficPolicy = None, svc_rest = None\<rparr>"

definition with_service :: "'o service_spec \<Rightarrow> 'o phare \<Rightarrow> 'o phare" where
  "with_service svc p = p\<lparr>ph_spec := (ph_spec p)\<lparr>ps_service := Some svc\<rparr>\<rparr>"

theorem service_update_settles_witness:
  "\<not> serviceSpecsDiffer sample_ext
      (mergeServiceSpecPreservingImmutable (sample_service_spec [sample_port ''web'' 80 30080])
        (sample_service_spec [sample_port ''web'' 80 0, sample_port [] 443 0]) True)
      (sample_service_spec [sample_port ''web'' 80 0, sample_port [] 443 0]) True"
  by (rule service_update_settles) code_simp

text \<open>C18. NodePorts survive an update: the merged ports are the desired ones in their order, and a port
  that asks for no NodePort gets the one of the existing port of the same identity, if there is
  one and the Phare does not ask to reallocate. The cluster IP, IP family, health check port and
  load balancer class are those of the existing Service.\<close>

theorem service_merge_preserves:
  assumes "distinct (map port_key (elems (svc_ports existing)))"
  shows "let merged = mergeServiceSpecPreservingImmutable existing desired preserve in
    elems (svc_ports merged) =
      map (\<lambda>p. case find (\<lambda>q. port_key q = port_key p) (elems (svc_ports existing)) of
          None \<Rightarrow> p
        | Some q \<Rightarrow> if preserve \<and> sp_nodePort p = 0 then p\<lparr>sp_nodePort := sp_nodePort q\<rparr> else p)
        (elems (svc_ports desired)) \<and>
    (svc_clusterIP merged, elems (svc_clusterIPs merged), elems (svc_ipFamilies merged),
     svc_ipFamilyPolicy merged, svc_healthCheckNodePort merged, svc_loadBalancerClass merged) =
    (svc_clusterIP existing, elems (svc_clusterIPs existing), elems (svc_ipFamilies existing),
     svc_ipFamilyPolicy existing, svc_healthCheckNodePort existing, svc_loadBalancerClass existing)"
proof -
  have "elems (svc_ports (mergeServiceSpecPreservingImmutable existing desired preserve)) =
      map (\<lambda>p. case find (\<lambda>q. port_key q = port_key p) (elems (svc_ports existing)) of
          None \<Rightarrow> p
        | Some q \<Rightarrow> if preserve \<and> sp_nodePort p = 0 then p\<lparr>sp_nodePort := sp_nodePort q\<rparr> else p)
        (elems (svc_ports desired))"
    by (auto simp: merge_ports keep_node_port_def index_by_find_distinct [OF assms] split: option.splits
        intro!: map_idI [symmetric])
  then show ?thesis
    by (simp add: Let_def mergeServiceSpecPreservingImmutable_def)
qed

theorem service_merge_preserves_witness:
  "let merged = mergeServiceSpecPreservingImmutable
      (sample_service_spec [sample_port ''web'' 80 30080, sample_port [] 443 30443])
      (sample_service_spec [sample_port [] 443 0, sample_port ''web'' 8080 0]) True in
   map sp_nodePort (elems (svc_ports merged)) = [30443, 30080]"
proof -
  have "distinct (map port_key (elems (svc_ports
      (sample_service_spec [sample_port ''web'' 80 30080, sample_port [] 443 30443]))))"
    by code_simp
  from service_merge_preserves [OF this, of "sample_service_spec [sample_port [] 443 0, sample_port ''web'' 8080 0]" True]
  have "elems (svc_ports (mergeServiceSpecPreservingImmutable
      (sample_service_spec [sample_port ''web'' 80 30080, sample_port [] 443 30443])
      (sample_service_spec [sample_port [] 443 0, sample_port ''web'' 8080 0]) True)) =
    [sample_port [] 443 30443, sample_port ''web'' 8080 30080]"
    unfolding Let_def by (elim conjE, simp only:, code_simp)
  then show ?thesis by (simp add: sample_port_def)
qed

text \<open>The identity of an unnamed port contains its protocol as written: a desired port without
  protocol does not match the existing one, which the API server has defaulted to TCP, and its
  NodePort is not carried over.\<close>

theorem node_port_lost_without_protocol:
  "let existing = sample_service_spec [sample_port [] 80 30080];
       desired = sample_service_spec [(sample_port [] 80 0)\<lparr>sp_protocol := []\<rparr>]
   in map sp_nodePort (elems (svc_ports (mergeServiceSpecPreservingImmutable existing desired True))) = [0] \<and>
      serviceSpecsDiffer sample_ext existing desired True"
  by code_simp

text \<open>C11. A Service step that succeeds leaves the cluster as the Phare asks. Without a Service in the spec
  there is none; otherwise the stored Service carries the desired labels and annotations, and its
  spec is the desired one (created), the merge of the old one with the desired one (updated), or the
  old one, which then does not differ from the desired one. Nothing else changes.\<close>

theorem service_converges:
  assumes store: "service_store cl look kept_spec frame"
    and req: "req = meta_key (ph_meta phare)"
    and run: "reconcileService x cl req phare s = (Inr (), t)"
  shows "(case ps_service (ph_spec phare) of
      None \<Rightarrow> look (world t) req = None
    | Some svc \<Rightarrow>
        (\<exists>d sv. desiredService x phare svc = Some d \<and> look (world t) req = Some sv \<and>
          gm_map (m_labels (s_meta sv)) = gm_map (m_labels (s_meta d)) \<and>
          gm_map (m_annotations (s_meta sv)) = gm_map (m_annotations (s_meta d)) \<and>
          (let preserve = \<not> shouldReallocateNodePorts (Some phare) in
           case look (world s) req of
             None \<Rightarrow> kept_spec (s_spec sv) = kept_spec (s_spec d)
           | Some old \<Rightarrow>
               kept_spec (s_spec sv) =
                 kept_spec (mergeServiceSpecPreservingImmutable (s_spec old) (s_spec d) preserve) \<or>
               sv = old \<and> \<not> serviceSpecsDiffer x (s_spec old) (s_spec d) preserve))) \<and>
    (\<forall>k. k \<noteq> req \<longrightarrow> look (world t) k = look (world s) k) \<and> frame (world s) (world t)"
proof -
  have "(\<forall>k. k \<noteq> req \<longrightarrow> look (world t) k = look (world s) k) \<and> frame (world s) (world t)"
    using service_store.runs_on [OF store req, of s x] run
    by (simp add: store_client.run_on_def [OF service_store.axioms [OF store]])
  then show ?thesis
    using service_store.removed [OF store run] service_store.stored [OF store run req]
    by (cases "ps_service (ph_spec phare)") simp_all
qed

definition service_sample :: "unit phare" where
  "service_sample = with_service (sample_service_spec [sample_port ''web'' 80 0]) sample_phare"

definition service_sample_old :: "unit service" where
  "service_sample_old =
     \<lparr>s_type = \<lparr>tm_apiVersion = ''v1'', tm_kind = ''Service''\<rparr>,
      s_meta = object_meta ''demo'' ''default'' None None,
      s_spec = (sample_service_spec [sample_port ''web'' 80 30080])
        \<lparr>svc_clusterIP := ''10.0.0.1'', svc_externalIPs := Some [''192.0.2.7'']\<rparr>,
      s_rest = None\<rparr>"

definition service_sample_run :: "(go_error + unit) \<times> unit cluster st" where
  "service_sample_run = reconcileService sample_ext cluster_client (''default'', ''demo'') service_sample
     (initial (empty_cluster\<lparr>d_services := [(''default'', ''demo'') \<mapsto> service_sample_old]\<rparr>))"

lemma service_sample_outcome:
  "case service_sample_run of (r, t) \<Rightarrow> r = Inr () \<and>
   (case d_services (world t) (''default'', ''demo'') of
      None \<Rightarrow> False
    | Some sv \<Rightarrow> svc_externalIPs (s_spec sv) = None \<and> svc_clusterIP (s_spec sv) = ''10.0.0.1'')"
  by code_simp

theorem service_converges_witness:
  "fst service_sample_run = Inr () \<and>
   (\<exists>sv. d_services (world (snd service_sample_run)) (''default'', ''demo'') = Some sv \<and>
     gm_get (m_labels (s_meta sv)) ''app'' = Some ''demo'')"
proof -
  have ok: "fst service_sample_run = Inr ()" using service_sample_outcome by (simp add: case_prod_beta)
  then have run: "reconcileService sample_ext cluster_client (''default'', ''demo'') service_sample
     (initial (empty_cluster\<lparr>d_services := [(''default'', ''demo'') \<mapsto> service_sample_old]\<rparr>)) =
     (Inr (), snd service_sample_run)"
    unfolding service_sample_run_def by (metis prod.collapse)
  have req: "(''default'', ''demo'') = meta_key (ph_meta service_sample)" by code_simp
  have svc: "ps_service (ph_spec service_sample) = Some (sample_service_spec [sample_port ''web'' 80 0])"
    and labels: "m_labels (ph_meta service_sample) = None" and name: "ph_name service_sample = ''demo''"
    by (simp_all add: service_sample_def with_service_def sample_phare_def)
  from service_converges [OF cluster_service.service_store_axioms req run] obtain d sv
    where d: "desiredService sample_ext service_sample (sample_service_spec [sample_port ''web'' 80 0]) = Some d"
      and sv: "d_services (world (snd service_sample_run)) (''default'', ''demo'') = Some sv"
      and l: "gm_map (m_labels (s_meta sv)) = gm_map (m_labels (s_meta d))"
    unfolding svc by auto
  have "gm_get (m_labels (s_meta d)) ''app'' = Some ''demo''"
    unfolding desiredService_Some(2) [OF d] labels name by code_simp
  with ok sv l show ?thesis by (simp add: gm_get_def)
qed

text \<open>An omitted optional field does not count as a difference, but it is not kept either: once
  another change (here the missing labels) makes the operator update the Service, the update drops
  the external IPs that the comparison treats as \<open>keep existing\<close>.\<close>

theorem service_update_drops_omitted_fields:
  "\<not> serviceSpecsDiffer sample_ext
      ((s_spec service_sample_old)\<lparr>svc_selector := Some (fmap_of_list [(''app'', ''demo'')])\<rparr>)
      ((sample_service_spec [sample_port ''web'' 80 0])\<lparr>svc_selector := Some (fmap_of_list [(''app'', ''demo'')])\<rparr>)
      True \<and>
   svc_externalIPs (s_spec service_sample_old) = Some [''192.0.2.7''] \<and>
   (case d_services (world (snd service_sample_run)) (''default'', ''demo'') of
      None \<Rightarrow> False
    | Some sv \<Rightarrow> svc_externalIPs (s_spec sv) = None \<and> svc_clusterIP (s_spec sv) = ''10.0.0.1'')"
proof (intro conjI)
  show "case d_services (world (snd service_sample_run)) (''default'', ''demo'') of
      None \<Rightarrow> False
    | Some sv \<Rightarrow> svc_externalIPs (s_spec sv) = None \<and> svc_clusterIP (s_spec sv) = ''10.0.0.1''"
    using service_sample_outcome by (simp add: case_prod_beta)
qed code_simp+

text \<open>The labels and annotations of the Service: the Phare's own labels override the operator's, so
  a Phare with its own \<open>app.kubernetes.io/created-by\<close> label takes the Service out of the watch
  filter; the annotations are the Phare's without the reallocation flag, and nil when none is left.\<close>

theorem service_metadata:
  assumes "desiredService x phare svc = Some sv"
  shows "gm_get (m_labels (s_meta sv)) k =
      (case gm_get (m_labels (ph_meta phare)) k of
         None \<Rightarrow> fmlookup (metadata_labels (ph_name phare)) k | Some v \<Rightarrow> Some v) \<and>
    gm_get (m_annotations (s_meta sv)) k =
      (if k = reallocateNodePortAnnotation then None else gm_get (m_annotations (ph_meta phare)) k) \<and>
    m_annotations (s_meta sv) \<noteq> Some fmempty"
proof -
  have "serviceAnnotationsFromPhare m \<noteq> Some fmempty" for m
    by (auto simp: serviceAnnotationsFromPhare_def Let_def split: option.splits)
  then show ?thesis
    by (auto simp: desiredService_Some [OF assms] mergeStringMaps_get serviceAnnotations_get
        split: option.splits)
qed

theorem service_metadata_witness:
  "\<exists>sv. desiredService sample_ext
      (service_sample\<lparr>ph_meta := (ph_meta service_sample)\<lparr>m_labels :=
        Some (fmap_of_list [(''app.kubernetes.io/created-by'', ''operator'')])\<rparr>\<rparr>)
      (sample_service_spec []) = Some sv \<and>
    gm_get (m_labels (s_meta sv)) ''app.kubernetes.io/created-by'' = Some ''operator''"
proof -
  let ?p = "service_sample\<lparr>ph_meta := (ph_meta service_sample)\<lparr>m_labels :=
        Some (fmap_of_list [(''app.kubernetes.io/created-by'', ''operator'')])\<rparr>\<rparr>"
  have "desiredService sample_ext ?p (sample_service_spec []) \<noteq> None" by code_simp
  then obtain sv where sv: "desiredService sample_ext ?p (sample_service_spec []) = Some sv" by blast
  have "gm_get (m_labels (s_meta sv)) ''app.kubernetes.io/created-by'' = Some ''operator''"
    using conjunct1 [OF service_metadata [OF sv]] by simp
  with sv show ?thesis by blast
qed

end
