(* ===== verification/Create_Or_Patch.thy ===== *)
theory Create_Or_Patch
  imports Api_Laws
begin

text \<open>
  The shape that five of the operator's reconcilers share: get the object; create it when it is
  missing; otherwise compute the wanted object from the existing one and patch when something
  changed. The reconcilers themselves are translated where they belong, each followed by a lemma
  that it is an instance of \<open>create_or_patch\<close>; what the instances have in common is proved here,
  once, against the contract of the API server.
\<close>

definition create_or_patch ::
  "kind \<Rightarrow> ('w, 'a) resource_client \<Rightarrow> ('a \<Rightarrow> obj_key) \<Rightarrow> obj_key \<Rightarrow> 'a \<Rightarrow> ('a \<Rightarrow> 'w st \<Rightarrow> 'w st) \<Rightarrow>
   ('w st \<Rightarrow> 'w st) \<Rightarrow> ('a \<Rightarrow> bool) \<Rightarrow> ('a \<Rightarrow> 'a) \<Rightarrow> string option \<Rightarrow> ('w, unit) step" where
  "create_or_patch kd rc key k desired found created changed merge owner s =
     (case send Get kd k (rc_get rc k) s of
        (Inl err, s) \<Rightarrow>
          if is_not_found err then
            (case send Create kd (key desired) (rc_create rc desired) s of
               (Inl createErr, s) \<Rightarrow> (Inl (Api createErr), s)
             | (Inr _, s) \<Rightarrow> (Inr (), created s))
          else (Inl (Api err), s)
      | (Inr existing, s) \<Rightarrow>
          if changed existing then
            (case send Patch kd (key (merge existing))
                (rc_patch rc owner existing (merge existing)) (found existing s) of
               (Inl patchErr, s) \<Rightarrow> (Inl (Api patchErr), s)
             | (Inr _, s) \<Rightarrow> (Inr (), s))
          else (Inr (), found existing s))"

text \<open>What the two hooks may do: record events.\<close>

definition silent :: "('w st \<Rightarrow> 'w st) \<Rightarrow> bool" where
  "silent f \<longleftrightarrow> (\<forall>s. world (f s) = world s \<and> calls (f s) = calls s)"

lemma silent_id [simp]: "silent (\<lambda>s. s)"
  by (simp add: silent_def)

lemma silent_eventf [simp]: "silent (eventf ty r m)"
  by (simp add: silent_def)

lemma silent_if [simp]: "silent f \<Longrightarrow> silent g \<Longrightarrow> silent (\<lambda>s. if b then f s else g s)"
  by (simp add: silent_def)

lemma issues_silent: "silent f \<Longrightarrow> issues C (f s) t = issues C s t"
  "silent f \<Longrightarrow> issues C s (f t) = issues C s t"
  by (simp_all add: silent_def issues_def)

lemma create_or_patch_requests:
  assumes "get_by_key rc key" "key desired = k" "\<And>e. key e = k \<Longrightarrow> key (merge e) = k"
    and "\<And>e. silent (found e)" "silent created"
  shows "issues (requests_on kd k) s
    (snd (create_or_patch kd rc key k desired found created changed merge owner s))"
proof -
  have sent: "issues C t (snd (send v kd n f (found e t)))" if "Call v kd n \<in> C" for C v n f e t
    using assms(4) [of e] that by (simp add: issues_def calls_send silent_def)
  show ?thesis
    unfolding create_or_patch_def
    by (intro issued.along issues_snd_send sent)
      (auto simp: issues_silent assms dest: sent_get_key [OF _ assms(1)])
qed

context store_client begin

lemma run_on_silent: "silent f \<Longrightarrow> run_on n (f s) t = run_on n s t"
  "silent f \<Longrightarrow> run_on n s (f t) = run_on n s t"
  by (simp_all add: silent_def run_on_def)

lemma create_or_patch_outcome:
  assumes "create_or_patch kd rc key k desired found created changed merge owner s = (Inr (), t)"
    and "key desired = k" "\<And>e. key e = k \<Longrightarrow> key (merge e) = k"
    and "\<And>e. silent (found e)" "silent created"
  shows "\<exists>x. look (world t) k = Some x \<and>
    (case look (world s) k of
       None \<Rightarrow> kept x = kept desired
     | Some old \<Rightarrow> if changed old then kept x = kept (merge old) else x = old)"
  using assms
  by (auto simp: create_or_patch_def silent_def split: prod.splits sum.splits if_splits dest!: sent)

lemma create_or_patch_runs_on:
  assumes "key desired = k" "\<And>e. key e = k \<Longrightarrow> key (merge e) = k"
    and "\<And>e. silent (found e)" "silent created"
  shows "run_on k s (snd (create_or_patch kd rc key k desired found created changed merge owner s))"
proof -
  obtain r t where run: "create_or_patch kd rc key k desired found created changed merge owner s = (r, t)"
    by (cases "create_or_patch kd rc key k desired found created changed merge owner s")
  have "run_on k s t"
    using run assms
    by (auto simp: create_or_patch_def silent_def run_on_def
        split: prod.splits sum.splits if_splits dest!: sent intro: frame_trans)
  with run show ?thesis by simp
qed

lemma create_or_patch_found:
  assumes run: "create_or_patch kd rc key k desired found created changed merge owner s = (Inr (), t)"
    and old: "look (world s) k = Some old" and silent: "silent (found old)"
    and hook: "\<And>u. events u = events s \<Longrightarrow> events (found old u) = events (found old s)"
  shows "events t = events (found old s) \<and>
    calls t = calls s @ Call Get kd k # (if changed old then [Call Patch kd (key (merge old))] else [])"
proof -
  obtain g u where get: "send Get kd k (rc_get rc k) s = (g, u)" by fastforce
  note u = send_calls [OF get] hook [OF send_events [OF get]]
  have found: "calls (found old u) = calls u" using silent by (simp add: silent_def)
  have g: "g = Inr old"
  proof (cases g)
    case (Inl e)
    with run get sent_get_failed [of Get kd k k s e u] old show ?thesis
      by (simp add: create_or_patch_def split: if_splits)
  qed (use sent_get_found get old in auto)
  show ?thesis
  proof (cases "changed old")
    case True
    obtain r v where sent: "send Patch kd (key (merge old)) (rc_patch rc owner old (merge old))
        (found old u) = (r, v)" by fastforce
    with run get g True have "t = v"
      by (cases r) (simp_all add: create_or_patch_def)
    with send_calls [OF sent] send_events [OF sent] u found True show ?thesis by simp
  next
    case False
    with run get g have "t = found old u" by (simp add: create_or_patch_def)
    with u found False show ?thesis by simp
  qed
qed

text \<open>An object that is as wanted is only read.\<close>

lemma create_or_patch_settled:
  assumes "look (world s) k = Some x" "\<not> changed x" "\<And>e. silent (found e)"
  shows "calls (snd (create_or_patch kd rc key k desired found created changed merge owner s)) =
    calls s @ [Call Get kd k]"
  using assms
  by (auto simp: create_or_patch_def silent_def
      split: prod.splits sum.splits dest: sent_get_found sent_get_failed send_calls)

end

end
