(* ===== verification/Expose.thy ===== *)
theory Expose
  imports Canonical_Json Map_Utils Create_Or_Patch
begin

text \<open>
  The HTTPRoute and the two GKE policies (controllers/expose_controller.go): building them from the
  ToolChain, and creating or patching them when the spec, compared as JSON, or the labels differ.

  \<open>reconcileHttpRoute\<close> and \<open>desiredHttpRoute\<close> take the dereferenced pointer
  \<open>phare.Spec.ToolChain.HTTPRoute\<close>, which \<open>handleHTTPRoute\<close> has checked, as the argument \<open>hr\<close>. The
  policies are unstructured objects, whose labels are an untyped value: \<open>x_getLabels\<close> and
  \<open>x_setLabels\<close> are the library's accessors.
\<close>

section \<open>The code\<close>

definition desiredHttpRoute :: "'o ext \<Rightarrow> 'o phare \<Rightarrow> 'o phare_http_route_spec \<Rightarrow> 'o http_route option" where
  "desiredHttpRoute x phare hr =
     (let httpRoute =
            \<lparr>hr_type = \<lparr>tm_apiVersion = ''gateway.networking.k8s.io/v1beta1'', tm_kind = ''HTTPRoute''\<rparr>,
             hr_meta = object_meta (ph_name phare) (ph_namespace phare)
               (Some (metadata_labels (ph_name phare))) None,
             hr_spec = \<lparr>hrs_parentRefs = phr_parentRefs hr, hrs_hostnames = phr_hostnames hr,
               hrs_rules = phr_rules hr\<rparr>,
             hr_rest = None\<rparr>
      in (case set_controller_reference x phare (hr_meta httpRoute) of
            None \<Rightarrow> None
          | Some m \<Rightarrow> Some (httpRoute\<lparr>hr_meta := m\<rparr>)))"

abbreviation route_key :: "'o http_route \<Rightarrow> obj_key" where
  "route_key r \<equiv> meta_key (hr_meta r)"

definition patched_route :: "'o http_route \<Rightarrow> 'o http_route \<Rightarrow> 'o http_route" where
  "patched_route desired existing =
     existing\<lparr>hr_spec := hr_spec desired,
       hr_meta := (hr_meta existing)\<lparr>m_labels := copyStringMapPreserveNil (m_labels (hr_meta desired))\<rparr>\<rparr>"

definition reconcileHttpRoute ::
  "'o ext \<Rightarrow> ('w, 'o) client \<Rightarrow> obj_key \<Rightarrow> 'o phare \<Rightarrow> 'o phare_http_route_spec \<Rightarrow> ('w, unit) step" where
  "reconcileHttpRoute x cl req phare hr s =
     (case desiredHttpRoute x phare hr of
        None \<Rightarrow>
          (Inl (Errorf (''failed to build HTTPRoute for '' @ ph_namespace phare @ ''/'' @ ph_name phare)), s)
      | Some desired \<Rightarrow>
          (case send Get KHTTPRoute req (rc_get (cl_httpRoute cl) req) s of
             (Inl err, s) \<Rightarrow>
               if is_not_found err then
                 (case send Create KHTTPRoute (route_key desired) (rc_create (cl_httpRoute cl) desired) s of
                    (Inl err, s) \<Rightarrow> (Inl (Api err), s)
                  | (Inr _, s) \<Rightarrow>
                      (Inr (), eventf ''Normal'' ''CreatedResource''
                        (''Created HTTPRoute '' @ m_name (hr_meta desired)) s))
               else (Inl (Api err), s)
           | (Inr existing, s) \<Rightarrow>
               if \<not> specMatchesDesired (x_marshalHTTPRouteSpec x) (hr_spec existing) (hr_spec desired) \<or>
                  \<not> stringMapsEqualNilEmpty (m_labels (hr_meta existing)) (m_labels (hr_meta desired))
               then
                 (case send Patch KHTTPRoute (route_key (patched_route desired existing))
                     (rc_patch (cl_httpRoute cl) (Some ''phare-controller'') existing
                       (patched_route desired existing)) s of
                    (Inl err, s) \<Rightarrow> (Inl (Api err), s)
                  | (Inr _, s) \<Rightarrow> (Inr (), s))
               else (Inr (), s)))"

text \<open>The two policies differ in their group, kind and spec only.\<close>

definition desired_policy ::
  "'o ext \<Rightarrow> 'o phare \<Rightarrow> string \<Rightarrow> gval option \<Rightarrow> 'o unstructured option" where
  "desired_policy x phare policyKind converted =
     (case converted of
        None \<Rightarrow> None
      | Some spec \<Rightarrow>
          (case x_setControllerReference x phare (ph_namespace phare) None of
             None \<Rightarrow> None
           | Some owners \<Rightarrow> Some
               \<lparr>u_type = \<lparr>tm_apiVersion = ''networking.gke.io/v1'', tm_kind = policyKind\<rparr>,
                u_name = ph_name phare, u_namespace = ph_namespace phare,
                u_labels = GStringMap (metadata_labels (ph_name phare)),
                u_owners = owners, u_spec = spec, u_rest = None\<rparr>))"

definition desiredGCPBackendPolicy :: "'o ext \<Rightarrow> 'o phare \<Rightarrow> 'o unstructured option" where
  "desiredGCPBackendPolicy x phare =
     (case ps_toolChain (ph_spec phare) of
        None \<Rightarrow> None
      | Some tc \<Rightarrow>
          (case tc_gcpBackendPolicy tc of
             None \<Rightarrow> None
           | Some policy \<Rightarrow>
               desired_policy x phare ''GCPBackendPolicy'' (x_gcpToUnstructured x policy)))"

definition desiredHealthCheckPolicy :: "'o ext \<Rightarrow> 'o phare \<Rightarrow> 'o unstructured option" where
  "desiredHealthCheckPolicy x phare =
     (case ps_toolChain (ph_spec phare) of
        None \<Rightarrow> None
      | Some tc \<Rightarrow>
          (case tc_healthCheckPolicy tc of
             None \<Rightarrow> None
           | Some policy \<Rightarrow>
               desired_policy x phare ''HealthCheckPolicy'' (x_hcpToUnstructured x policy)))"

definition patched_policy :: "'o ext \<Rightarrow> 'o unstructured \<Rightarrow> 'o unstructured \<Rightarrow> 'o unstructured" where
  "patched_policy x desired existing =
     existing\<lparr>u_spec := u_spec desired,
       u_labels := x_setLabels x (copyStringMapPreserveNil (x_getLabels x (u_labels desired)))\<rparr>"

definition reconcileGCPBackendPolicy ::
  "'o ext \<Rightarrow> ('w, 'o) client \<Rightarrow> obj_key \<Rightarrow> 'o phare \<Rightarrow> ('w, unit) step" where
  "reconcileGCPBackendPolicy x cl req phare s =
     (case desiredGCPBackendPolicy x phare of
        None \<Rightarrow>
          (Inl (Errorf (''failed to build GCPBackendPolicy for '' @ ph_namespace phare @ ''/'' @
             ph_name phare)), s)
      | Some desired \<Rightarrow>
          (case send Get KGCPBackendPolicy req (rc_get (cl_gcpBackendPolicy cl) req) s of
             (Inl err, s) \<Rightarrow>
               if is_not_found err then
                 (case send Create KGCPBackendPolicy (unstructured_key desired)
                     (rc_create (cl_gcpBackendPolicy cl) desired) s of
                    (Inl err, s) \<Rightarrow> (Inl (Api err), s)
                  | (Inr _, s) \<Rightarrow>
                      (Inr (), eventf ''Normal'' ''CreatedResource''
                        (''Created GCPBackendPolicy '' @ u_name desired) s))
               else (Inl (Api err), s)
           | (Inr existing, s) \<Rightarrow>
               if \<not> specMatchesDesired Some (u_spec existing) (u_spec desired) \<or>
                  \<not> stringMapsEqualNilEmpty (x_getLabels x (u_labels existing)) (x_getLabels x (u_labels desired))
               then
                 (case send Patch KGCPBackendPolicy (unstructured_key (patched_policy x desired existing))
                     (rc_patch (cl_gcpBackendPolicy cl) (Some ''phare-controller'') existing
                       (patched_policy x desired existing)) s of
                    (Inl err, s) \<Rightarrow> (Inl (Api err), s)
                  | (Inr _, s) \<Rightarrow> (Inr (), s))
               else (Inr (), s)))"

definition reconcileHealthCheckPolicy ::
  "'o ext \<Rightarrow> ('w, 'o) client \<Rightarrow> obj_key \<Rightarrow> 'o phare \<Rightarrow> ('w, unit) step" where
  "reconcileHealthCheckPolicy x cl req phare s =
     (case desiredHealthCheckPolicy x phare of
        None \<Rightarrow>
          (Inl (Errorf (''failed to build HealthCheckPolicy for '' @ ph_namespace phare @ ''/'' @
             ph_name phare)), s)
      | Some desired \<Rightarrow>
          (case send Get KHealthCheckPolicy req (rc_get (cl_healthCheckPolicy cl) req) s of
             (Inl err, s) \<Rightarrow>
               if is_not_found err then
                 (case send Create KHealthCheckPolicy (unstructured_key desired)
                     (rc_create (cl_healthCheckPolicy cl) desired) s of
                    (Inl err, s) \<Rightarrow> (Inl (Api err), s)
                  | (Inr _, s) \<Rightarrow>
                      (Inr (), eventf ''Normal'' ''CreatedResource''
                        (''Created HealthCheckPolicy '' @ u_name desired) s))
               else (Inl (Api err), s)
           | (Inr existing, s) \<Rightarrow>
               if \<not> specMatchesDesired Some (u_spec existing) (u_spec desired) \<or>
                  \<not> stringMapsEqualNilEmpty (x_getLabels x (u_labels existing)) (x_getLabels x (u_labels desired))
               then
                 (case send Patch KHealthCheckPolicy (unstructured_key (patched_policy x desired existing))
                     (rc_patch (cl_healthCheckPolicy cl) (Some ''phare-controller'') existing
                       (patched_policy x desired existing)) s of
                    (Inl err, s) \<Rightarrow> (Inl (Api err), s)
                  | (Inr _, s) \<Rightarrow> (Inr (), s))
               else (Inr (), s)))"

section \<open>Instances of the common shape\<close>

abbreviation route_changed :: "'o ext \<Rightarrow> 'o http_route \<Rightarrow> 'o http_route \<Rightarrow> bool" where
  "route_changed x desired existing \<equiv>
     \<not> specMatchesDesired (x_marshalHTTPRouteSpec x) (hr_spec existing) (hr_spec desired) \<or>
     \<not> stringMapsEqualNilEmpty (m_labels (hr_meta existing)) (m_labels (hr_meta desired))"

abbreviation policy_changed :: "'o ext \<Rightarrow> 'o unstructured \<Rightarrow> 'o unstructured \<Rightarrow> bool" where
  "policy_changed x desired existing \<equiv>
     \<not> specMatchesDesired Some (u_spec existing) (u_spec desired) \<or>
     \<not> stringMapsEqualNilEmpty (x_getLabels x (u_labels existing)) (x_getLabels x (u_labels desired))"

lemma reconcileHttpRoute_built:
  "desiredHttpRoute x phare hr = Some d \<Longrightarrow> reconcileHttpRoute x cl req phare hr s =
     create_or_patch KHTTPRoute (cl_httpRoute cl) route_key req d (\<lambda>e s. s)
       (eventf ''Normal'' ''CreatedResource'' (''Created HTTPRoute '' @ m_name (hr_meta d)))
       (route_changed x d) (patched_route d) (Some ''phare-controller'') s"
  unfolding reconcileHttpRoute_def create_or_patch_def by simp

lemma reconcileGCPBackendPolicy_built:
  "desiredGCPBackendPolicy x phare = Some d \<Longrightarrow> reconcileGCPBackendPolicy x cl req phare s =
     create_or_patch KGCPBackendPolicy (cl_gcpBackendPolicy cl) unstructured_key req d (\<lambda>e s. s)
       (eventf ''Normal'' ''CreatedResource'' (''Created GCPBackendPolicy '' @ u_name d))
       (policy_changed x d) (patched_policy x d) (Some ''phare-controller'') s"
  unfolding reconcileGCPBackendPolicy_def create_or_patch_def by simp

lemma reconcileHealthCheckPolicy_built:
  "desiredHealthCheckPolicy x phare = Some d \<Longrightarrow> reconcileHealthCheckPolicy x cl req phare s =
     create_or_patch KHealthCheckPolicy (cl_healthCheckPolicy cl) unstructured_key req d (\<lambda>e s. s)
       (eventf ''Normal'' ''CreatedResource'' (''Created HealthCheckPolicy '' @ u_name d))
       (policy_changed x d) (patched_policy x d) (Some ''phare-controller'') s"
  unfolding reconcileHealthCheckPolicy_def create_or_patch_def by simp

lemma desiredHttpRoute_Some:
  assumes "desiredHttpRoute x phare hr = Some d"
  shows "route_key d = meta_key (ph_meta phare)"
    and "m_labels (hr_meta d) = Some (metadata_labels (ph_name phare))"
    and "hr_spec d = \<lparr>hrs_parentRefs = phr_parentRefs hr, hrs_hostnames = phr_hostnames hr, hrs_rules = phr_rules hr\<rparr>"
  using assms
  by (auto simp: desiredHttpRoute_def Let_def meta_key_def split: option.splits
      dest!: set_controller_reference_Some)

lemma desired_policy_Some:
  "desired_policy x phare k c = Some d \<Longrightarrow> unstructured_key d = meta_key (ph_meta phare) \<and>
     u_labels d = GStringMap (metadata_labels (ph_name phare)) \<and> c = Some (u_spec d)"
  by (auto simp: desired_policy_def meta_key_def split: option.splits)

lemma desiredGCP_Some:
  "desiredGCPBackendPolicy x phare = Some d \<Longrightarrow> unstructured_key d = meta_key (ph_meta phare) \<and>
     u_labels d = GStringMap (metadata_labels (ph_name phare)) \<and>
     (\<exists>tc policy. ps_toolChain (ph_spec phare) = Some tc \<and> tc_gcpBackendPolicy tc = Some policy \<and>
       x_gcpToUnstructured x policy = Some (u_spec d))"
  by (auto simp: desiredGCPBackendPolicy_def split: option.splits dest!: desired_policy_Some)

lemma desiredHCP_Some:
  "desiredHealthCheckPolicy x phare = Some d \<Longrightarrow> unstructured_key d = meta_key (ph_meta phare) \<and>
     u_labels d = GStringMap (metadata_labels (ph_name phare)) \<and>
     (\<exists>tc policy. ps_toolChain (ph_spec phare) = Some tc \<and> tc_healthCheckPolicy tc = Some policy \<and>
       x_hcpToUnstructured x policy = Some (u_spec d))"
  by (auto simp: desiredHealthCheckPolicy_def split: option.splits dest!: desired_policy_Some)

lemma patched_route_key [simp]: "route_key (patched_route d e) = route_key e"
  by (simp add: patched_route_def meta_key_def)

lemma patched_policy_key [simp]: "unstructured_key (patched_policy x d e) = unstructured_key e"
  by (simp add: patched_policy_def)

lemma reconcileHttpRoute_requests:
  assumes "get_by_key (cl_httpRoute cl) route_key" and "req = meta_key (ph_meta phare)"
  shows "issues (requests_on KHTTPRoute req) s (snd (reconcileHttpRoute x cl req phare hr s))"
proof (cases "desiredHttpRoute x phare hr")
  case None
  then show ?thesis by (simp add: reconcileHttpRoute_def)
next
  case (Some d)
  show ?thesis
    unfolding reconcileHttpRoute_built [OF Some]
    by (rule create_or_patch_requests [OF assms(1)]) (simp_all add: desiredHttpRoute_Some [OF Some] assms(2))
qed

lemma reconcileGCPBackendPolicy_requests:
  assumes "get_by_key (cl_gcpBackendPolicy cl) unstructured_key" and "req = meta_key (ph_meta phare)"
  shows "issues (requests_on KGCPBackendPolicy req) s (snd (reconcileGCPBackendPolicy x cl req phare s))"
proof (cases "desiredGCPBackendPolicy x phare")
  case None
  then show ?thesis by (simp add: reconcileGCPBackendPolicy_def)
next
  case (Some d)
  show ?thesis
    unfolding reconcileGCPBackendPolicy_built [OF Some]
    by (rule create_or_patch_requests [OF assms(1)])
      (use desiredGCP_Some [OF Some] patched_policy_key assms(2) in auto)
qed

lemma reconcileHealthCheckPolicy_requests:
  assumes "get_by_key (cl_healthCheckPolicy cl) unstructured_key" and "req = meta_key (ph_meta phare)"
  shows "issues (requests_on KHealthCheckPolicy req) s (snd (reconcileHealthCheckPolicy x cl req phare s))"
proof (cases "desiredHealthCheckPolicy x phare")
  case None
  then show ?thesis by (simp add: reconcileHealthCheckPolicy_def)
next
  case (Some d)
  show ?thesis
    unfolding reconcileHealthCheckPolicy_built [OF Some]
    by (rule create_or_patch_requests [OF assms(1)])
      (use desiredHCP_Some [OF Some] patched_policy_key assms(2) in auto)
qed

section \<open>What a reconcile of the optional objects achieves\<close>

context store_client begin

lemma create_or_patch_read:
  "create_or_patch kd rc key k desired found created changed merge owner s = (Inr (), t) \<Longrightarrow>
   look (world s) k = Some old \<Longrightarrow> key old = k"
  by (auto simp: create_or_patch_def split: prod.splits sum.splits if_splits
      dest: sent_get_found sent_get_failed)

end

lemma patched_route_settled [simp]:
  "hr_spec (patched_route d e) = hr_spec d"
  "gm_map (m_labels (hr_meta (patched_route d e))) = gm_map (m_labels (hr_meta d))"
  by (simp_all add: patched_route_def)


definition route_run :: "(go_error + unit) \<times> unit cluster st" where
  "route_run = reconcileHttpRoute sample_ext cluster_client (''default'', ''demo'') sample_phare
     \<lparr>phr_hostnames = None, phr_parentRefs = None, phr_rules = Some ()\<rparr> (initial empty_cluster)"


text \<open>The labels of a policy do not last: the builders store them as a \<open>map[string]string\<close>, which
  the accessors of an unstructured object do not read, so a policy found with labels always looks
  changed and the patch replaces its labels, the managed-by label of the watch among them, by
  none.\<close>

theorem policy_labels_stripped:
  assumes store: "store_client (cl_gcpBackendPolicy cl) look unstructured_key u_labels frame"
    and run: "reconcileGCPBackendPolicy x cl req phare s = (Inr (), t)"
    and req: "req = meta_key (ph_meta phare)"
    and typed: "\<And>m. x_getLabels x (GStringMap m) = None"
    and old: "look (world s) req = Some old" "x_getLabels x (u_labels old) = Some m" "m \<noteq> fmempty"
  shows "\<exists>new. look (world t) req = Some new \<and> u_labels new = x_setLabels x None \<and>
    calls t = calls s @ [Call Get KGCPBackendPolicy req, Call Patch KGCPBackendPolicy req]"
proof -
  from run obtain d where d: "desiredGCPBackendPolicy x phare = Some d"
    by (cases "desiredGCPBackendPolicy x phare") (simp_all add: reconcileGCPBackendPolicy_def)
  note built = reconcileGCPBackendPolicy_built [OF d]
  have none: "x_getLabels x (u_labels d) = None" using desiredGCP_Some [OF d] typed by simp
  then have changed: "policy_changed x d old" using old by (simp add: stringMapsEqualNilEmpty_iff)
  have "\<exists>new. look (world t) req = Some new \<and> u_labels new = u_labels (patched_policy x d old)"
    using store_client.create_or_patch_outcome [OF store run [unfolded built]]
      desiredGCP_Some [OF d] req old(1) changed by auto
  moreover have "unstructured_key old = req"
    by (rule store_client.create_or_patch_read [OF store run [unfolded built] old(1)])
  ultimately show ?thesis
    using store_client.create_or_patch_found [OF store run [unfolded built] old(1)] changed none
    by (simp add: patched_policy_def copyStringMapPreserveNil_def)
qed

definition policy_phare :: "unit phare" where
  "policy_phare = sample_phare\<lparr>ph_spec := (ph_spec sample_phare)\<lparr>ps_toolChain := Some
     \<lparr>tc_config = None, tc_httpRoute = None, tc_healthCheckPolicy = None, tc_gcpBackendPolicy = Some
       \<lparr>gbp_default = \<lparr>gd_logging = \<lparr>gl_enabled = True, gl_sampleRate = 0\<rparr>, gd_timeoutSec = 30\<rparr>,
        gbp_targetRef = \<lparr>gt_group = [], gt_kind = ''Service'', gt_name = ''demo''\<rparr>\<rparr>\<rparr>\<rparr>\<rparr>"

definition labelled_policy :: "unit unstructured" where
  "labelled_policy =
     \<lparr>u_type = \<lparr>tm_apiVersion = ''networking.gke.io/v1'', tm_kind = ''GCPBackendPolicy''\<rparr>,
      u_name = ''demo'', u_namespace = ''default'',
      u_labels = GMap (fmap_of_list [(''app'', GString ''demo''),
        (''app.kubernetes.io/created-by'', GString ''phare-controller'')]),
      u_owners = None, u_spec = GNil, u_rest = None\<rparr>"

definition policy_run :: "(go_error + unit) \<times> unit cluster st" where
  "policy_run = reconcileGCPBackendPolicy sample_ext cluster_client (''default'', ''demo'') policy_phare
     (initial (empty_cluster\<lparr>d_gcps := [(''default'', ''demo'') \<mapsto> labelled_policy]\<rparr>))"

theorem policy_labels_stripped_witness:
  "\<exists>new. d_gcps (world (snd policy_run)) (''default'', ''demo'') = Some new \<and> u_labels new = GNil"
proof -
  let ?m = "fmmap (\<lambda>u. case u of GString t \<Rightarrow> t | _ \<Rightarrow> [])
    (fmap_of_list [(''app'', GString ''demo''), (''app.kubernetes.io/created-by'', GString ''phare-controller'')])"
  have ok: "fst policy_run = Inr ()" by code_simp
  have key: "(''default'', ''demo'') = meta_key (ph_meta policy_phare)" by code_simp
  have typed: "x_getLabels sample_ext (GStringMap n) = None" for n by (simp add: sample_ext_def)
  have old: "d_gcps (world (initial (empty_cluster\<lparr>d_gcps := [(''default'', ''demo'') \<mapsto> labelled_policy]\<rparr>)))
      (''default'', ''demo'') = Some labelled_policy" by simp
  have read: "x_getLabels sample_ext (u_labels labelled_policy) = Some ?m"
    by (simp add: sample_ext_def labelled_policy_def)
  have "fmlookup ?m ''app'' \<noteq> None" by code_simp
  then have "?m \<noteq> fmempty" by (metis fmempty_lookup)
  from policy_labels_stripped [OF gcp_store.store_client_axioms run_ok [OF ok, unfolded policy_run_def] key
      typed old read this]
  show ?thesis unfolding policy_run_def by (auto simp: sample_ext_def)
qed

end
