(* ===== verification/Go_Templates.thy ===== *)
theory Go_Templates
  imports Externals
begin

text \<open>
  Rendering template strings with the metadata of the Phare (pkg/go-templates/go-templates.go).
  Parsing and executing a template are the parameters \<open>x_templateParse\<close> and the function it
  returns; the order of the two and what becomes of their errors is the code's.
\<close>

definition ProcessTemplate :: "'o ext \<Rightarrow> string \<Rightarrow> 'o meta \<Rightarrow> go_error + string" where
  "ProcessTemplate x tmplStr meta =
     (case x_templateParse x tmplStr of
        Inl err \<Rightarrow> Inl err
      | Inr tmpl \<Rightarrow>
          (case tmpl meta of Inl err \<Rightarrow> Inl err | Inr out \<Rightarrow> Inr out))"

text \<open>
  The probe is written through its pointer, so the result is the probe after the call; on an
  error it has not been written.
\<close>

definition ProcessLivenessProbeTemplate ::
  "'o ext \<Rightarrow> 'o probe option \<Rightarrow> 'o meta \<Rightarrow> go_error + 'o probe option" where
  "ProcessLivenessProbeTemplate x probe meta =
     (case probe of
        None \<Rightarrow> Inr None
      | Some p \<Rightarrow>
          (case pr_httpGet p of
             None \<Rightarrow> Inr (Some p)
           | Some h \<Rightarrow>
               (case ProcessTemplate x (hg_path h) meta of
                  Inl err \<Rightarrow>
                    Inl (Errorf (''error processing template for livenessProbe path: '' @ error_string err))
                | Inr processedPath \<Rightarrow>
                    Inr (Some (p\<lparr>pr_httpGet := Some (h\<lparr>hg_path := processedPath\<rparr>)\<rparr>)))))"

lemma ProcessTemplate_Inr:
  "ProcessTemplate x t m = Inr out \<longleftrightarrow>
     (\<exists>tmpl. x_templateParse x t = Inr tmpl \<and> tmpl m = Inr out)"
  by (auto simp: ProcessTemplate_def split: sum.splits)

text \<open>Nothing of the probe but the path of its HTTP handler changes.\<close>

lemma ProcessLivenessProbeTemplate_None [simp]:
  "ProcessLivenessProbeTemplate x None meta = Inr None"
  by (simp add: ProcessLivenessProbeTemplate_def)

end
