(* ===== verification/Workload_Build.thy ===== *)
theory Workload_Build
  imports Go_Templates Map_Utils
begin

text \<open>
  Building the desired Deployment and StatefulSet from the Phare (controllers/reconcile_deployment.go,
  controllers/reconcile_statefulset.go).

  The volumes and the liveness probe of the new object are reached through pointers that the Phare's
  spec holds too, so writing the default mode of a volume or the rendered path of the probe changes
  the caller's Phare as well. The builders therefore return two values: the object, \<open>None\<close> for nil, and
  the Phare after the call.
\<close>

definition configVolumeMountPath :: string where
  "configVolumeMountPath = ''/etc/phare/config''"

definition file_mode :: int32 where
  "file_mode = 420"

section \<open>The code\<close>

definition UpdateVolume :: "int32 \<Rightarrow> 'o volume \<Rightarrow> 'o volume" where
  "UpdateVolume defaultMode volume =
     (case v_secret volume of
        Some sec \<Rightarrow> volume\<lparr>v_secret := Some (sec\<lparr>sec_defaultMode := Some defaultMode\<rparr>)\<rparr>
      | None \<Rightarrow>
          (case v_configMap volume of
             Some cm \<Rightarrow> volume\<lparr>v_configMap := Some (cm\<lparr>cms_defaultMode := Some defaultMode\<rparr>)\<rparr>
           | None \<Rightarrow> volume))"

text \<open>\<open>s[0] = f(s[0])\<close>, for a slice that is not empty.\<close>

definition update_first :: "('a \<Rightarrow> 'a) \<Rightarrow> 'a slice \<Rightarrow> 'a slice" where
  "update_first f s = (case s of None \<Rightarrow> None | Some [] \<Rightarrow> Some [] | Some (x # xs) \<Rightarrow> Some (f x # xs))"

definition config_volume :: "string \<Rightarrow> 'o volume" where
  "config_volume configMapName =
     \<lparr>v_name = ''config-volume'', v_secret = None,
      v_configMap = Some \<lparr>cms_name = configMapName, cms_defaultMode = Some file_mode,
        cms_optional = Some False, cms_rest = None\<rparr>,
      v_rest = None\<rparr>"

definition config_mount :: "'o volume_mount" where
  "config_mount = \<lparr>vm_name = ''config-volume'', vm_mountPath = configVolumeMountPath, vm_rest = None\<rparr>"

text \<open>Both callers pass a template whose first container is the literal \<open>main_container\<close>.\<close>

definition addConfigVolumeToSpec :: "'o pod_spec \<Rightarrow> string \<Rightarrow> 'o pod_spec" where
  "addConfigVolumeToSpec spec configMapName =
     (let spec = spec\<lparr>pod_volumes := prepend (config_volume configMapName) (pod_volumes spec)\<rparr>
      in spec\<lparr>pod_containers := update_first
           (\<lambda>c. c\<lparr>c_volumeMounts := prepend config_mount (c_volumeMounts c)\<rparr>) (pod_containers spec)\<rparr>)"

definition pod_labels :: "'o phare \<Rightarrow> gomap" where
  "pod_labels phare = Some (range_map store_entry (ms_podLabels (ps_microService (ph_spec phare)))
     (fmap_of_list [(''app'', ph_name phare)]))"

definition pod_annotations :: "'o phare \<Rightarrow> gomap" where
  "pod_annotations phare =
     Some (range_map store_entry (ms_podAnnotations (ps_microService (ph_spec phare))) fmempty)"

definition main_container :: "'o phare \<Rightarrow> 'o container" where
  "main_container phare =
     (let ms = ps_microService (ph_spec phare) in
      \<lparr>c_name = ph_name phare,
       c_image = img_repository (ms_image ms) @ '':'' @ img_tag (ms_image ms),
       c_command = ms_command ms, c_args = ms_args ms, c_ports = ms_ports ms,
       c_envFrom = ms_envFrom ms, c_env = ms_env ms, c_resources = ms_resourceRequirements ms,
       c_volumeMounts = ms_volumeMounts ms, c_volumeDevices = None,
       c_livenessProbe = ms_livenessProbe ms, c_readinessProbe = ms_readinessProbe ms,
       c_startupProbe = ms_startupProbe ms, c_terminationMessagePath = [],
       c_terminationMessagePolicy = [], c_imagePullPolicy = [], c_rest = None\<rparr>)"

definition pod_of :: "'o phare \<Rightarrow> 'o pod_spec" where
  "pod_of phare =
     (let ms = ps_microService (ph_spec phare) in
      \<lparr>pod_volumes = ms_volumes ms,
       pod_initContainers = ms_initContainers ms,
       pod_containers = Some (main_container phare # elems (ms_extraContainers ms)),
       pod_affinity = ms_affinity ms, pod_tolerations = ms_tolerations ms, pod_rest = None\<rparr>)"

text \<open>The writes through the shared pointers, on the Phare's side.\<close>

definition share_volumes :: "'o phare \<Rightarrow> 'o phare" where
  "share_volumes phare =
     phare\<lparr>ph_spec := (ph_spec phare)\<lparr>ps_microService := (ps_microService (ph_spec phare))
       \<lparr>ms_volumes := map_slice (UpdateVolume file_mode)
          (ms_volumes (ps_microService (ph_spec phare)))\<rparr>\<rparr>\<rparr>"

definition share_probe :: "'o probe option \<Rightarrow> 'o phare \<Rightarrow> 'o phare" where
  "share_probe probe phare =
     phare\<lparr>ph_spec := (ph_spec phare)\<lparr>ps_microService := (ps_microService (ph_spec phare))
       \<lparr>ms_livenessProbe := probe\<rparr>\<rparr>\<rparr>"

text \<open>The part of both builders after the owner reference is set: config volume, file modes and
  liveness probe.\<close>

definition complete_pod :: "'o ext \<Rightarrow> 'o phare \<Rightarrow> 'o pod_spec \<Rightarrow> 'o pod_spec option \<times> 'o phare" where
  "complete_pod x phare pod =
     (let pod = (if has_config phare then addConfigVolumeToSpec pod (ph_name phare @ ''-config'') else pod);
          pod = pod\<lparr>pod_volumes := map_slice (UpdateVolume file_mode) (pod_volumes pod)\<rparr>;
          phare = share_volumes phare
      in (case ProcessLivenessProbeTemplate x (ms_livenessProbe (ps_microService (ph_spec phare)))
            (ph_meta phare) of
            Inl err \<Rightarrow> (None, phare)
          | Inr probe \<Rightarrow>
              (Some (pod\<lparr>pod_containers :=
                 update_first (\<lambda>c. c\<lparr>c_livenessProbe := probe\<rparr>) (pod_containers pod)\<rparr>),
               share_probe probe phare)))"

definition newDeployment :: "'o ext \<Rightarrow> 'o phare \<Rightarrow> 'o deployment option \<times> 'o phare" where
  "newDeployment x phare =
     (let deployment =
            \<lparr>w_type = \<lparr>tm_apiVersion = ''apps/v1'', tm_kind = ''Deployment''\<rparr>,
             w_meta = object_meta (ph_name phare) (ph_namespace phare)
               (Some (metadata_labels (ph_name phare))) None,
             w_replicas = Some (ms_replicaCount (ps_microService (ph_spec phare))),
             w_selector = Some (pod_labels phare),
             w_tmplLabels = pod_labels phare,
             w_tmplAnnotations = pod_annotations phare,
             w_pod = pod_of phare,
             w_rest = None\<rparr>
      in (case set_controller_reference x phare (w_meta deployment) of
            None \<Rightarrow> (None, phare)
          | Some m \<Rightarrow>
              (case complete_pod x phare (w_pod deployment) of
                 (None, phare) \<Rightarrow> (None, phare)
               | (Some pod, phare) \<Rightarrow> (Some (deployment\<lparr>w_meta := m, w_pod := pod\<rparr>), phare))))"

definition newStatefulSet :: "'o ext \<Rightarrow> 'o phare \<Rightarrow> 'o stateful_set option \<times> 'o phare" where
  "newStatefulSet x phare =
     (let statefulSet =
            \<lparr>w_type = \<lparr>tm_apiVersion = ''apps/v1'', tm_kind = ''StatefulSet''\<rparr>,
             w_meta = object_meta (ph_name phare) (ph_namespace phare)
               (Some (metadata_labels (ph_name phare))) None,
             w_replicas = Some (ms_replicaCount (ps_microService (ph_spec phare))),
             w_selector = Some (pod_labels phare),
             w_tmplLabels = pod_labels phare,
             w_tmplAnnotations = pod_annotations phare,
             w_pod = pod_of phare,
             w_rest = None,
             ss_volumeClaimTemplates = ms_volumeClaimTemplates (ps_microService (ph_spec phare))\<rparr>
      in (case set_controller_reference x phare (w_meta statefulSet) of
            None \<Rightarrow> (None, phare)
          | Some m \<Rightarrow>
              (case complete_pod x phare (w_pod statefulSet) of
                 (None, phare) \<Rightarrow> (None, phare)
               | (Some pod, phare) \<Rightarrow> (Some (statefulSet\<lparr>w_meta := m, w_pod := pod\<rparr>), phare))))"

section \<open>What is built\<close>

lemma update_first_Some [simp]: "update_first f (Some (a # as)) = Some (f a # as)"
  by (simp add: update_first_def)

lemma pod_labels_get:
  "gm_get (pod_labels phare) k =
     (case gm_get (ms_podLabels (ps_microService (ph_spec phare))) k of
        None \<Rightarrow> if k = ''app'' then Some (ph_name phare) else None | Some v \<Rightarrow> Some v)"
  by (auto simp: pod_labels_def range_store_entry gm_get_def fmlookup_dom_iff split: option.splits)

lemma UpdateVolume_name [simp]: "v_name (UpdateVolume m v) = v_name v"
  by (simp add: UpdateVolume_def split: option.splits)

lemma UpdateVolume_idem [simp]: "UpdateVolume m (UpdateVolume m v) = UpdateVolume m v"
  by (simp add: UpdateVolume_def split: option.splits)

text \<open>The first container: the Phare's, with the config mount and the rendered probe.\<close>

definition built_container :: "'o phare \<Rightarrow> 'o probe option \<Rightarrow> 'o container" where
  "built_container phare probe =
     (main_container phare)\<lparr>c_livenessProbe := probe,
       c_volumeMounts :=
         (if has_config phare then prepend config_mount (c_volumeMounts (main_container phare))
          else c_volumeMounts (main_container phare))\<rparr>"

definition built_pod :: "'o phare \<Rightarrow> 'o probe option \<Rightarrow> 'o pod_spec" where
  "built_pod phare probe =
     (let ms = ps_microService (ph_spec phare) in
      \<lparr>pod_volumes =
         (if has_config phare
          then prepend (config_volume (ph_name phare @ ''-config''))
            (map_slice (UpdateVolume file_mode) (ms_volumes ms))
          else map_slice (UpdateVolume file_mode) (ms_volumes ms)),
       pod_initContainers = ms_initContainers ms,
       pod_containers = Some (built_container phare probe # elems (ms_extraContainers ms)),
       pod_affinity = ms_affinity ms, pod_tolerations = ms_tolerations ms, pod_rest = None\<rparr>)"

lemma config_volume_mode [simp]: "UpdateVolume file_mode (config_volume n) = config_volume n"
  by (simp add: UpdateVolume_def config_volume_def)

lemma complete_pod_Some:
  assumes "complete_pod x phare (pod_of phare) = (Some pod, phare')"
  shows "\<exists>probe. ProcessLivenessProbeTemplate x (ms_livenessProbe (ps_microService (ph_spec phare)))
      (ph_meta phare) = Inr probe \<and> pod = built_pod phare probe \<and>
    phare' = share_probe probe (share_volumes phare)"
  using assms
  by (auto simp: complete_pod_def Let_def share_volumes_def pod_of_def addConfigVolumeToSpec_def
      built_pod_def built_container_def prepend_def split: sum.splits if_splits)

lemma newDeployment_Some:
  assumes "newDeployment x phare = (Some d, phare')"
  shows "\<exists>probe owners. ProcessLivenessProbeTemplate x
        (ms_livenessProbe (ps_microService (ph_spec phare))) (ph_meta phare) = Inr probe \<and>
      x_setControllerReference x phare (ph_namespace phare) None = Some owners \<and>
      phare' = share_probe probe (share_volumes phare) \<and>
      d = \<lparr>w_type = \<lparr>tm_apiVersion = ''apps/v1'', tm_kind = ''Deployment''\<rparr>,
        w_meta = (object_meta (ph_name phare) (ph_namespace phare)
          (Some (metadata_labels (ph_name phare))) None)\<lparr>m_owners := owners\<rparr>,
        w_replicas = Some (ms_replicaCount (ps_microService (ph_spec phare))),
        w_selector = Some (pod_labels phare), w_tmplLabels = pod_labels phare,
        w_tmplAnnotations = pod_annotations phare, w_pod = built_pod phare probe, w_rest = None\<rparr>"
  using assms
  by (auto simp: newDeployment_def Let_def split: option.splits prod.splits
      dest!: complete_pod_Some set_controller_reference_Some)

lemma newStatefulSet_Some:
  assumes "newStatefulSet x phare = (Some d, phare')"
  shows "\<exists>probe owners. ProcessLivenessProbeTemplate x
        (ms_livenessProbe (ps_microService (ph_spec phare))) (ph_meta phare) = Inr probe \<and>
      x_setControllerReference x phare (ph_namespace phare) None = Some owners \<and>
      phare' = share_probe probe (share_volumes phare) \<and>
      d = \<lparr>w_type = \<lparr>tm_apiVersion = ''apps/v1'', tm_kind = ''StatefulSet''\<rparr>,
        w_meta = (object_meta (ph_name phare) (ph_namespace phare)
          (Some (metadata_labels (ph_name phare))) None)\<lparr>m_owners := owners\<rparr>,
        w_replicas = Some (ms_replicaCount (ps_microService (ph_spec phare))),
        w_selector = Some (pod_labels phare), w_tmplLabels = pod_labels phare,
        w_tmplAnnotations = pod_annotations phare, w_pod = built_pod phare probe, w_rest = None,
        ss_volumeClaimTemplates = ms_volumeClaimTemplates (ps_microService (ph_spec phare))\<rparr>"
  using assms
  by (auto simp: newStatefulSet_def Let_def split: option.splits prod.splits
      dest!: complete_pod_Some set_controller_reference_Some)

text \<open>Whatever the outcome, the caller's Phare changes in the shared places only.\<close>

lemma newDeployment_shared:
  "snd (newDeployment x phare) \<in> {phare, share_volumes phare} \<union>
     {share_probe probe (share_volumes phare) |probe. True}"
  by (auto simp: newDeployment_def complete_pod_def Let_def share_volumes_def split: option.splits sum.splits)

lemma newStatefulSet_shared:
  "snd (newStatefulSet x phare) \<in> {phare, share_volumes phare} \<union>
     {share_probe probe (share_volumes phare) |probe. True}"
  by (auto simp: newStatefulSet_def complete_pod_def Let_def share_volumes_def split: option.splits sum.splits)

end
