(* ===== verification/Config_Map.thy ===== *)
theory Config_Map
  imports Go_Templates Map_Utils Sha256 Api_Laws
begin

text \<open>
  The managed ConfigMap (controllers/reconcile_configmap.go): building it from the Phare,
  bringing the cluster's copy in line, and the checksum of its data.

  \<open>generateConfigMap\<close> takes the pointer \<open>phare.Spec.ToolChain\<close> that its caller has checked
  not to be nil as the argument \<open>tc\<close>.
\<close>

abbreviation get_cm :: "('w, 'o) client \<Rightarrow> obj_key \<Rightarrow> 'w st \<Rightarrow> (api_error + 'o config_map) \<times> 'w st" where
  "get_cm cl key \<equiv> send Get KConfigMap key (rc_get (cl_configMap cl) key)"

abbreviation create_cm :: "('w, 'o) client \<Rightarrow> 'o config_map \<Rightarrow> 'w st \<Rightarrow> (api_error + unit) \<times> 'w st" where
  "create_cm cl obj \<equiv> send Create KConfigMap (meta_key (cm_meta obj)) (rc_create (cl_configMap cl) obj)"

abbreviation update_cm :: "('w, 'o) client \<Rightarrow> 'o config_map \<Rightarrow> 'w st \<Rightarrow> (api_error + unit) \<times> 'w st" where
  "update_cm cl obj \<equiv> send Update KConfigMap (meta_key (cm_meta obj)) (rc_update (cl_configMap cl) obj)"

abbreviation delete_cm :: "('w, 'o) client \<Rightarrow> 'o config_map \<Rightarrow> 'w st \<Rightarrow> (api_error + unit) \<times> 'w st" where
  "delete_cm cl obj \<equiv> send Delete KConfigMap (meta_key (cm_meta obj)) (rc_delete (cl_configMap cl) obj)"

section \<open>The code\<close>

definition copyStringMap :: "gomap \<Rightarrow> gomap" where
  "copyStringMap m =
     (if gm_len m = 0 then Some fmempty else Some (range_map store_entry m fmempty))"

text \<open>The body of the loop over the templates: an entry that fails to render keeps its raw text.\<close>

definition render_entry ::
  "'o ext \<Rightarrow> 'o meta \<Rightarrow> string \<Rightarrow> string \<Rightarrow> (string, string) fmap \<Rightarrow> (string, string) fmap" where
  "render_entry x meta key tmplValue data =
     (case ProcessTemplate x tmplValue meta of
        Inl err \<Rightarrow> data
      | Inr processedValue \<Rightarrow> fmupd key processedValue data)"

definition generateConfigMap ::
  "'o ext \<Rightarrow> 'o phare \<Rightarrow> 'o toolchain_spec \<Rightarrow> 'o config_map option" where
  "generateConfigMap x phare tc =
     (let configMap =
            \<lparr>cm_type = \<lparr>tm_apiVersion = ''v1'', tm_kind = ''ConfigMap''\<rparr>,
             cm_meta = object_meta (ph_name phare @ ''-config'') (ph_namespace phare)
               (Some (metadata_labels (ph_name phare))) None,
             cm_data = copyStringMap (tc_config tc),
             cm_rest = None\<rparr>;
          configMap = configMap\<lparr>cm_data :=
            Some (range_map (render_entry x (ph_meta phare)) (tc_config tc)
              (gm_map (cm_data configMap)))\<rparr>
      in (case set_controller_reference x phare (cm_meta configMap) of
            None \<Rightarrow> None
          | Some m \<Rightarrow> Some (configMap\<lparr>cm_meta := m\<rparr>)))"

fun isDataEqual_loop :: "(string \<times> string) list \<Rightarrow> gomap \<Rightarrow> bool" where
  "isDataEqual_loop [] mapB = True"
| "isDataEqual_loop ((k, v1) # rest) mapB =
     (case gm_get mapB k of
        None \<Rightarrow> False
      | Some v2 \<Rightarrow> if v1 \<noteq> v2 then False else isDataEqual_loop rest mapB)"

definition isDataEqual :: "gomap \<Rightarrow> gomap \<Rightarrow> bool" where
  "isDataEqual mapA mapB =
     (if gm_len mapA \<noteq> gm_len mapB then False
      else isDataEqual_loop (sorted_list_of_fmap (gm_map mapA)) mapB)"

text \<open>The ToolChain, when the Phare asks for a ConfigMap: neither it nor its Config is nil.\<close>

definition config_toolchain :: "'o phare \<Rightarrow> 'o toolchain_spec option" where
  "config_toolchain phare =
     (case ps_toolChain (ph_spec phare) of None \<Rightarrow> None
      | Some tc \<Rightarrow> if tc_config tc = None then None else Some tc)"

definition reconcileConfigMap ::
  "'o ext \<Rightarrow> ('w, 'o) client \<Rightarrow> 'o phare \<Rightarrow> ('w, unit) step" where
  "reconcileConfigMap x cl phare s =
     (case config_toolchain phare of
        None \<Rightarrow>
          (case get_cm cl (ph_namespace phare, ph_name phare @ ''-config'') s of
             (Inl err, s) \<Rightarrow> if \<not> is_not_found err then (Inl (Api err), s) else (Inr (), s)
           | (Inr existing, s) \<Rightarrow>
               (case delete_cm cl existing s of
                  (Inl deleteErr, s) \<Rightarrow>
                    if \<not> is_not_found deleteErr then (Inl (Api deleteErr), s)
                    else (Inr (), eventf ''Normal'' ''DeletedResource''
                           (''Deleted ConfigMap '' @ m_name (cm_meta existing)) s)
                | (Inr _, s) \<Rightarrow>
                    (Inr (), eventf ''Normal'' ''DeletedResource''
                      (''Deleted ConfigMap '' @ m_name (cm_meta existing)) s)))
      | Some tc \<Rightarrow>
          (case generateConfigMap x phare tc of
             None \<Rightarrow>
               (Inl (Errorf (''failed to build desired ConfigMap for '' @ ph_namespace phare @ ''/'' @
                  ph_name phare)), s)
           | Some desired \<Rightarrow>
               (case get_cm cl (ph_namespace phare, m_name (cm_meta desired)) s of
                  (Inl err, s) \<Rightarrow>
                    if is_not_found err then
                      (case create_cm cl desired s of
                         (Inl createErr, s) \<Rightarrow> (Inl (Api createErr), s)
                       | (Inr _, s) \<Rightarrow>
                           (Inr (), eventf ''Normal'' ''CreatedResource''
                             (''Created ConfigMap '' @ m_name (cm_meta desired)) s))
                    else (Inl (Api err), s)
                | (Inr existing, s) \<Rightarrow>
                    if \<not> isDataEqual (cm_data existing) (cm_data desired) then
                      (case update_cm cl (existing\<lparr>cm_data := cm_data desired\<rparr>) s of
                         (Inl updateErr, s) \<Rightarrow> (Inl (Api updateErr), s)
                       | (Inr _, s) \<Rightarrow>
                           (Inr (), eventf ''Normal'' ''UpdatedResource''
                             (''Updated ConfigMap '' @ m_name (cm_meta desired)) s))
                    else (Inr (), s))))"

text \<open>The bytes that are hashed: the entries in the order of \<open>sort.Strings\<close> on their keys.\<close>

definition newline :: char where
  "newline = char_of (10 :: nat)"

definition hash_input_of :: "string list \<Rightarrow> gomap \<Rightarrow> string" where
  "hash_input_of keys data =
     foldl (\<lambda>sb k. sb @ k @ ''='' @ gm_index data k @ [newline]) [] (sort keys)"

definition hash_input :: "gomap \<Rightarrow> string" where
  "hash_input data = hash_input_of (map fst (sorted_list_of_fmap (gm_map data))) data"

definition hashConfigMapData ::
  "('w, 'o) client \<Rightarrow> string \<Rightarrow> string \<Rightarrow> 'w st \<Rightarrow> (api_error + string) \<times> 'w st" where
  "hashConfigMapData cl configMapName namespace s =
     (case get_cm cl (namespace, configMapName) s of
        (Inl err, s) \<Rightarrow> (Inl err, s)
      | (Inr cm, s) \<Rightarrow> (Inr (sha256_hex (hash_input (cm_data cm))), s))"

section \<open>Data\<close>

lemma copyStringMap_eq: "copyStringMap m = Some (gm_map m)"
  by (simp add: copyStringMap_def go_map)

interpretation render_loop: range_body "render_entry x meta" for x meta
  by unfold_locales (auto simp: render_entry_def fmupd_reorder_neq split: sum.splits)

text \<open>The value an entry of the Phare's config has in the ConfigMap.\<close>

definition rendered :: "'o ext \<Rightarrow> 'o meta \<Rightarrow> string \<Rightarrow> string" where
  "rendered x meta v = (case ProcessTemplate x v meta of Inl _ \<Rightarrow> v | Inr out \<Rightarrow> out)"

lemma fold_render_entry:
  assumes "distinct (map fst xs)" and "\<forall>(k, v) \<in> set xs. fmlookup m k = Some v"
  shows "fmlookup (fold (\<lambda>(k, v). render_entry x meta k v) xs m) k =
    (case map_of xs k of None \<Rightarrow> fmlookup m k | Some v \<Rightarrow> Some (rendered x meta v))"
  using assms
proof (induction xs arbitrary: m)
  case Nil
  then show ?case by simp
next
  case (Cons e xs)
  obtain k0 v0 where e: "e = (k0, v0)" by (cases e)
  let ?m = "render_entry x meta k0 v0 m"
  from Cons.prems e have "k0 \<notin> fst ` set xs" and m: "fmlookup m k0 = Some v0" by auto
  then have new: "map_of xs k0 = None" by (simp add: map_of_eq_None_iff)
  have "\<forall>(k, v) \<in> set xs. fmlookup ?m k = Some v"
    using Cons.prems e \<open>k0 \<notin> fst ` set xs\<close>
    by (force simp: render_entry_def split: sum.splits)
  with Cons.IH [of ?m] Cons.prems e have eq: "fmlookup (fold (\<lambda>(k, v). render_entry x meta k v) (e # xs) m) k =
    (case map_of xs k of None \<Rightarrow> fmlookup ?m k | Some v \<Rightarrow> Some (rendered x meta v))"
    by simp
  have "fmlookup ?m k = (if k = k0 then Some (rendered x meta v0) else fmlookup m k)"
    using m by (auto simp: render_entry_def rendered_def split: sum.splits)
  then show ?case
    unfolding eq using e new by (auto split: option.splits)
qed

lemma range_render_entry:
  "fmlookup (range_map (render_entry x meta) m (gm_map m)) k =
     map_option (rendered x meta) (gm_get m k)"
  unfolding range_map_def
  by (subst fold_render_entry)
    (auto simp: set_sorted_list_of_fmap gm_get_def split: option.splits)

lemma generateConfigMap_data:
  assumes "generateConfigMap x phare tc = Some cm"
  shows "gm_get (cm_data cm) k = map_option (rendered x (ph_meta phare)) (gm_get (tc_config tc) k)"
  using assms
  by (auto simp: generateConfigMap_def Let_def copyStringMap_eq range_render_entry
      split: option.splits)

lemma generateConfigMap_meta:
  assumes "generateConfigMap x phare tc = Some cm"
  shows "m_name (cm_meta cm) = ph_name phare @ ''-config''"
    and "m_namespace (cm_meta cm) = ph_namespace phare"
  using assms
  by (auto simp: generateConfigMap_def Let_def split: option.splits
      dest!: set_controller_reference_Some)

lemma isDataEqual_loop_iff:
  "isDataEqual_loop xs b \<longleftrightarrow> (\<forall>(k, v) \<in> set xs. gm_get b k = Some v)"
  by (induction xs b rule: isDataEqual_loop.induct) (auto split: option.splits)

lemma isDataEqual_iff: "isDataEqual a b \<longleftrightarrow> gm_map a = gm_map b"
proof
  assume eq: "isDataEqual a b"
  then have len: "fcard (fmdom (gm_map a)) = fcard (fmdom (gm_map b))"
    and sub: "\<And>k v. fmlookup (gm_map a) k = Some v \<Longrightarrow> fmlookup (gm_map b) k = Some v"
    by (auto simp: isDataEqual_def gm_len_def isDataEqual_loop_iff set_sorted_list_of_fmap
        gm_get_def split: if_splits)
  from sub have "fmdom (gm_map a) |\<subseteq>| fmdom (gm_map b)"
    by (auto simp: fmlookup_dom_iff)
  with len have dom: "fmdom (gm_map a) = fmdom (gm_map b)"
    by (metis fcard_seteq order_refl)
  show "gm_map a = gm_map b"
  proof (rule fmap_ext)
    fix k
    show "fmlookup (gm_map a) k = fmlookup (gm_map b) k"
    proof (cases "fmlookup (gm_map a) k")
      case None
      then have "k |\<notin>| fmdom (gm_map b)" by (simp flip: dom add: fmlookup_dom_iff)
      with None show ?thesis by (simp add: fmdom_notD)
    next
      case (Some v)
      with sub show ?thesis by simp
    qed
  qed
next
  assume "gm_map a = gm_map b"
  then show "isDataEqual a b"
    by (auto simp: isDataEqual_def gm_len_def isDataEqual_loop_iff set_sorted_list_of_fmap gm_get_def)
qed


section \<open>The hashed bytes\<close>

lemma sort_keys_sorted [simp]:
  "sort (map fst (sorted_list_of_fmap f)) = map fst (sorted_list_of_fmap f)"
  by (simp add: sorted_list_of_fmap_keys sorted_list_of_fset.rep_eq sorted_sort_id)

lemma foldl_append_concat: "foldl (\<lambda>sb k. sb @ g k) acc ks = acc @ concat (map g ks)"
  by (induction ks arbitrary: acc) auto

definition entry_line :: "string \<times> string \<Rightarrow> string" where
  "entry_line e = fst e @ ''='' @ snd e @ [newline]"

lemma hash_input_lines:
  "hash_input data = concat (map entry_line (sorted_list_of_fmap (gm_map data)))"
proof -
  have "map (\<lambda>k. k @ ''='' @ gm_index data k @ [newline]) (map fst (sorted_list_of_fmap (gm_map data))) =
      map entry_line (sorted_list_of_fmap (gm_map data))"
    by (auto simp: entry_line_def set_sorted_list_of_fmap gm_index_def gm_get_def)
  then show ?thesis
    by (simp only: hash_input_def hash_input_of_def sort_keys_sorted foldl_append_concat append_Nil)
qed

lemma hash_input_cong: "gm_map a = gm_map b \<Longrightarrow> hash_input a = hash_input b"
  by (simp add: hash_input_lines)

lemma entry_line_prefix:
  assumes "CHR ''='' \<notin> set k" "CHR ''='' \<notin> set k'" "newline \<notin> set v" "newline \<notin> set v'"
    and "entry_line (k, v) @ r = entry_line (k', v') @ r'"
  shows "k = k' \<and> v = v' \<and> r = r'"
proof -
  have cut: "takeWhile (\<lambda>c. c \<noteq> z) (a @ z # b) = a \<and> dropWhile (\<lambda>c. c \<noteq> z) (a @ z # b) = z # b"
    if "z \<notin> set a" for z :: char and a b
    using that by (induction a) auto
  have *: "k @ CHR ''='' # (v @ newline # r) = k' @ CHR ''='' # (v' @ newline # r')"
    using assms(5) by (simp add: entry_line_def)
  then have "k = k'" using cut [OF assms(1)] cut [OF assms(2)] by metis
  with * have **: "v @ newline # r = v' @ newline # r'" by simp
  then have "v = v'" using cut [OF assms(3)] cut [OF assms(4)] by metis
  with ** \<open>k = k'\<close> show ?thesis by simp
qed

lemma entry_lines_inj:
  assumes "\<forall>(k, v) \<in> set xs \<union> set ys. CHR ''='' \<notin> set k \<and> newline \<notin> set v"
    and "concat (map entry_line xs) = concat (map entry_line ys)"
  shows "xs = ys"
  using assms
proof (induction xs arbitrary: ys)
  case Nil
  then show ?case by (cases ys) (auto simp: entry_line_def)
next
  case (Cons x xs)
  then obtain y ys' where ys: "ys = y # ys'" by (cases ys) (auto simp: entry_line_def)
  obtain k v k' v' where xy: "x = (k, v)" "y = (k', v')" by (cases x; cases y) auto
  with Cons.prems ys have "x = y \<and> concat (map entry_line xs) = concat (map entry_line ys')"
    using entry_line_prefix [of k k' v v' "concat (map entry_line xs)" "concat (map entry_line ys')"]
    by auto
  with Cons ys show ?case by auto
qed

text \<open>C21. For data whose keys hold no equals sign and whose values hold no newline, the bytes that
  \<open>hashConfigMapData\<close> hashes determine the data: two ConfigMaps with the same hash input have the
  same entries.\<close>

theorem hash_input_injective:
  assumes "\<forall>k v. gm_get a k = Some v \<longrightarrow> CHR ''='' \<notin> set k \<and> newline \<notin> set v"
    and "\<forall>k v. gm_get b k = Some v \<longrightarrow> CHR ''='' \<notin> set k \<and> newline \<notin> set v"
    and "hash_input a = hash_input b"
  shows "gm_map a = gm_map b"
proof -
  have "sorted_list_of_fmap (gm_map a) = sorted_list_of_fmap (gm_map b)"
    using assms by (intro entry_lines_inj) (auto simp: hash_input_lines set_sorted_list_of_fmap gm_get_def)
  then show ?thesis using fmap_of_sorted_list by metis
qed

theorem hash_input_injective_witness:
  "gm_map (Some (fmap_of_list [(''b'', ''2''), (''a'', ''1'')])) =
   gm_map (Some (fmap_of_list [(''a'', ''1''), (''b'', ''2'')]))"
proof (rule hash_input_injective)
  have nl: "newline \<noteq> CHR ''1''" "newline \<noteq> CHR ''2''" by code_simp+
  show "\<forall>k v. gm_get (Some (fmap_of_list [(''b'', ''2''), (''a'', ''1'')])) k = Some v \<longrightarrow>
      CHR ''='' \<notin> set k \<and> newline \<notin> set v"
    using nl by (auto split: if_splits)
  show "\<forall>k v. gm_get (Some (fmap_of_list [(''a'', ''1''), (''b'', ''2'')])) k = Some v \<longrightarrow>
      CHR ''='' \<notin> set k \<and> newline \<notin> set v"
    using nl by (auto split: if_splits)
  show "hash_input (Some (fmap_of_list [(''b'', ''2''), (''a'', ''1'')])) =
      hash_input (Some (fmap_of_list [(''a'', ''1''), (''b'', ''2'')]))"
    by code_simp
qed

text \<open>The encoding is ambiguous once a value holds a newline: two ConfigMaps with different
  data have the same hash input, hence the same checksum, although the code's comment says that
  the encoding avoids ambiguous concatenation.\<close>

theorem hash_input_collision:
  "\<exists>a b. gm_map a \<noteq> gm_map b \<and> hash_input a = hash_input b \<and>
     sha256_hex (hash_input a) = sha256_hex (hash_input b)"
proof -
  let ?a = "Some (fmap_of_list [(''a'', ''1'' @ [newline] @ ''b=2'')])"
  let ?b = "Some (fmap_of_list [(''a'', ''1''), (''b'', ''2'')])"
  have "gm_map ?a \<noteq> gm_map ?b"
  proof
    assume "gm_map ?a = gm_map ?b"
    then have "fmlookup (gm_map ?a) ''b'' = fmlookup (gm_map ?b) ''b''" by simp
    then show False by simp
  qed
  moreover have "hash_input ?a = hash_input ?b" by code_simp
  ultimately show ?thesis by metis
qed

text \<open>C20. The hash input does not depend on the order in which Go ranges over the data: every order of
  the keys gives the bytes of the sorted one, because the keys are sorted first.\<close>

theorem hash_input_any_order:
  "is_range_order data xs \<Longrightarrow> hash_input_of (map fst xs) data = hash_input data"
proof -
  assume "is_range_order data xs"
  then have "mset (map fst xs) = mset (map fst (sorted_list_of_fmap (gm_map data)))"
    using is_range_order_mset [OF _ is_range_order_sorted] by (simp add: mset_map)
  then have "sort (map fst xs) = sort (map fst (sorted_list_of_fmap (gm_map data)))"
    by (intro properties_for_sort [symmetric]) simp_all
  then show ?thesis by (simp only: hash_input_def hash_input_of_def)
qed

theorem hash_input_any_order_witness:
  "hash_input_of (map fst [(''b'', ''2''), (''a'', ''1'')]) (Some (fmap_of_list [(''a'', ''1''), (''b'', ''2'')]))
   = hash_input (Some (fmap_of_list [(''a'', ''1''), (''b'', ''2'')]))"
  by (rule hash_input_any_order) (auto simp: is_range_order_def)

section \<open>Reconciling\<close>

abbreviation config_map_key :: "'o phare \<Rightarrow> obj_key" where
  "config_map_key phare \<equiv> (ph_namespace phare, ph_name phare @ ''-config'')"

lemma generateConfigMap_fmap:
  assumes "generateConfigMap x phare tc = Some cm"
  shows "gm_map (cm_data cm) = fmmap (rendered x (ph_meta phare)) (gm_map (tc_config tc))"
  using generateConfigMap_data [OF assms] by (intro fmap_ext) (simp add: gm_get_def)

lemma generateConfigMap_key:
  assumes "generateConfigMap x phare tc = Some cm"
  shows "meta_key (cm_meta cm) = config_map_key phare"
  using generateConfigMap_meta [OF assms] by (simp add: meta_key_def)

lemma reconcileConfigMap_requests [issues_intro]:
  assumes "get_by_key (cl_configMap cl) (\<lambda>c. meta_key (cm_meta c))"
  shows "issues (requests_on KConfigMap (config_map_key phare)) s (snd (reconcileConfigMap x cl phare s))"
  unfolding reconcileConfigMap_def
  by (intro issues_intro)
    (auto dest: sent_get_key [OF _ assms] simp: generateConfigMap_key generateConfigMap_meta)

text \<open>
  On a cluster that keeps the contract of \<open>store_client\<close> for ConfigMaps, where the data of a
  ConfigMap is stored as it was sent.
\<close>

locale config_map_store =
  store_client "cl_configMap cl" look "\<lambda>c. meta_key (cm_meta c)" "\<lambda>c. gm_map (cm_data c)" frame
  for cl :: "('w, 'o) client"
    and look :: "'w \<Rightarrow> obj_key \<Rightarrow> 'o config_map option"
    and frame :: "'w \<Rightarrow> 'w \<Rightarrow> bool"
begin

lemma converges:
  assumes "reconcileConfigMap x cl phare s = (Inr (), t)"
  shows "(case config_toolchain phare of
      None \<Rightarrow> look (world t) (config_map_key phare) = None
    | Some tc \<Rightarrow> \<exists>cm. look (world t) (config_map_key phare) = Some cm \<and>
        gm_map (cm_data cm) = fmmap (rendered x (ph_meta phare)) (gm_map (tc_config tc)))"
  using assms
  by (auto simp: reconcileConfigMap_def isDataEqual_iff
      generateConfigMap_key generateConfigMap_meta generateConfigMap_fmap
      split: option.splits prod.splits sum.splits if_splits dest!: sent)


lemma runs_on: "run_on (config_map_key phare) s (snd (reconcileConfigMap x cl phare s))"
  unfolding reconcileConfigMap_def
  by (intro on_object.along run_on_send)
    (auto simp: generateConfigMap_key generateConfigMap_meta dest: sent_get_found)

lemma second_run_reads:
  assumes "reconcileConfigMap x cl phare s = (Inr (), t)"
    and "reconcileConfigMap x cl phare t = (r, u)"
  shows "calls u = calls t @ [Call Get KConfigMap (config_map_key phare)] \<and> events u = events t"
proof (cases "config_toolchain phare")
  case None
  with converges [OF assms(1)] have "look (world t) (config_map_key phare) = None" by simp
  with assms(2) None show ?thesis
    by (auto simp: reconcileConfigMap_def split: prod.splits sum.splits if_splits
        dest: sent_get_found send_calls send_events)
next
  case (Some tc)
  with converges [OF assms(1)] obtain cm where cm: "look (world t) (config_map_key phare) = Some cm"
    and data: "gm_map (cm_data cm) = fmmap (rendered x (ph_meta phare)) (gm_map (tc_config tc))"
    by auto
  from assms(1) Some obtain d where d: "generateConfigMap x phare tc = Some d"
    by (auto simp: reconcileConfigMap_def split: option.splits)
  show ?thesis
  proof (cases "get_cm cl (config_map_key phare) t")
    case (Pair g t')
    then have *: "calls t' = calls t @ [Call Get KConfigMap (config_map_key phare)]" "events t' = events t"
      by (auto dest: send_calls send_events)
    show ?thesis
    proof (cases g)
      case (Inl e)
      with Pair cm have "\<not> is_not_found e" by (auto dest!: sent_get_failed)
      with assms(2) Some d Pair Inl * show ?thesis
        by (simp add: reconcileConfigMap_def generateConfigMap_meta)
    next
      case (Inr e)
      with Pair cm have "e = cm" by (auto dest!: sent_get_found)
      with assms(2) Some d Pair Inr * data show ?thesis
        by (simp add: reconcileConfigMap_def generateConfigMap_meta isDataEqual_iff generateConfigMap_fmap)
    qed
  qed
qed

end

interpretation cluster_config_map: config_map_store cluster_client d_configMaps "only_kind KConfigMap"
  by unfold_locales

section \<open>Properties\<close>

text \<open>C10. A ConfigMap step that succeeds leaves the cluster as the Phare asks: without a
  Config there is no ConfigMap; with one, the stored data is the Config with every value rendered.
  Every other ConfigMap, and whatever the client leaves alone, is untouched.\<close>

theorem configmap_converges:
  assumes "config_map_store cl look frame"
    and "reconcileConfigMap x cl phare s = (Inr (), t)"
  shows "(case config_toolchain phare of
      None \<Rightarrow> look (world t) (config_map_key phare) = None
    | Some tc \<Rightarrow> \<exists>cm. look (world t) (config_map_key phare) = Some cm \<and>
        gm_map (cm_data cm) = fmmap (rendered x (ph_meta phare)) (gm_map (tc_config tc))) \<and>
    (\<forall>k. k \<noteq> config_map_key phare \<longrightarrow> look (world t) k = look (world s) k) \<and>
    frame (world s) (world t)"
  using config_map_store.converges [OF assms]
    config_map_store.runs_on [OF assms(1), of phare s x] assms(2)
  by (simp add: store_client.run_on_def [OF config_map_store.axioms [OF assms(1)]])

definition config_sample :: "unit phare" where
  "config_sample = with_config (Some (fmap_of_list [(''host'', ''{{ .Name }}''), (''raw'', ''{{ x'')])) sample_phare"

definition config_sample_run :: "(go_error + unit) \<times> unit cluster st" where
  "config_sample_run = reconcileConfigMap sample_ext cluster_client config_sample (initial empty_cluster)"

lemma config_sample_run_ok:
  "config_sample_run = (Inr (), snd config_sample_run)"
proof -
  have "fst config_sample_run = Inr ()" by code_simp
  then show ?thesis by (metis prod.collapse)
qed

theorem configmap_converges_witness:
  "\<exists>cm. d_configMaps (world (snd config_sample_run)) (''default'', ''demo-config'') = Some cm \<and>
     gm_get (cm_data cm) ''host'' = Some ''demo'' \<and> gm_get (cm_data cm) ''raw'' = Some ''{{ x''"
proof -
  have tc: "config_toolchain config_sample =
      Some \<lparr>tc_config = Some (fmap_of_list [(''host'', ''{{ .Name }}''), (''raw'', ''{{ x'')]),
        tc_httpRoute = None, tc_healthCheckPolicy = None, tc_gcpBackendPolicy = None\<rparr>"
    by (simp add: config_toolchain_def config_sample_def with_config_def)
  have key: "config_map_key config_sample = (''default'', ''demo-config'')" by code_simp
  have r: "rendered sample_ext (ph_meta config_sample) ''{{ .Name }}'' = ''demo''"
    "rendered sample_ext (ph_meta config_sample) ''{{ x'' = ''{{ x''" by code_simp+
  from configmap_converges [OF cluster_config_map.config_map_store_axioms
      config_sample_run_ok [unfolded config_sample_run_def]]
  show ?thesis
    unfolding config_sample_run_def tc key by (auto simp: gm_get_def r)
qed

text \<open>The ConfigMap step is idempotent: after a run that succeeded, running it again on the state it
  left sends one \<open>Get\<close> and nothing else, records no event, and fails only if that \<open>Get\<close> fails.\<close>

theorem configmap_idempotent:
  assumes "config_map_store cl look frame"
    and "reconcileConfigMap x cl phare s = (Inr (), t)"
    and "reconcileConfigMap x cl phare t = (r, u)"
  shows "calls u = calls t @ [Call Get KConfigMap (config_map_key phare)] \<and> events u = events t"
  using config_map_store.second_run_reads [OF assms] .

theorem configmap_idempotent_witness:
  "calls (snd (reconcileConfigMap sample_ext cluster_client config_sample (snd config_sample_run))) =
     calls (snd config_sample_run) @ [Call Get KConfigMap (''default'', ''demo-config'')]"
proof -
  have key: "config_map_key config_sample = (''default'', ''demo-config'')" by code_simp
  show ?thesis
    using configmap_idempotent [OF cluster_config_map.config_map_store_axioms
        config_sample_run_ok [unfolded config_sample_run_def] surjective_pairing]
    unfolding config_sample_run_def key by (rule conjunct1)
qed

definition unowned_config_map :: "unit config_map" where
  "unowned_config_map = \<lparr>cm_type = \<lparr>tm_apiVersion = ''v1'', tm_kind = ''ConfigMap''\<rparr>,
     cm_meta = object_meta ''demo-config'' ''default'' None None, cm_data = None, cm_rest = None\<rparr>"

text \<open>Without a Config the step deletes the ConfigMap of its name whoever owns it: in this cluster the
  ConfigMap \<open>demo-config\<close> has no owner at all, and is gone after the run.\<close>

theorem configmap_deletes_unowned:
  "case reconcileConfigMap sample_ext cluster_client sample_phare
      (initial (empty_cluster\<lparr>d_configMaps := [(''default'', ''demo-config'') \<mapsto> unowned_config_map]\<rparr>)) of
     (r, t) \<Rightarrow> r = Inr () \<and> d_configMaps (world t) (''default'', ''demo-config'') = None \<and>
       m_owners (cm_meta unowned_config_map) = None \<and>
       calls t = [Call Get KConfigMap (''default'', ''demo-config''),
         Call Delete KConfigMap (''default'', ''demo-config'')]"
  by code_simp

end
