(* ===== verification/Workload_Reconcile.thy ===== *)
theory Workload_Reconcile
  imports Workload_Build Workload_Merge Config_Map Create_Or_Patch
begin

text \<open>
  Bringing the Deployment or StatefulSet in line (controllers/reconcile_deployment.go,
  controllers/reconcile_statefulset.go): the checksum annotation, merging the desired object into
  the existing one and patching when \<open>cmp.Diff\<close> reports a change.

  The two reconcilers return the outcome of their requests and, beside it, the caller's Phare as
  the builders leave it.
\<close>

section \<open>The code\<close>

definition merge_pod :: "'o pod_spec \<Rightarrow> 'o pod_spec \<Rightarrow> 'o pod_spec" where
  "merge_pod desired spec =
     (let spec = spec\<lparr>pod_containers :=
            mergeContainersPreservingUnknown (pod_containers spec) (pod_containers desired)\<rparr>;
          spec = spec\<lparr>pod_initContainers :=
            mergeContainersPreservingUnknown (pod_initContainers spec) (pod_initContainers desired)\<rparr>;
          spec = spec\<lparr>pod_volumes := mergeVolumesRespectingMountedNames (pod_volumes spec)
            (pod_volumes desired) (pod_containers spec) (pod_initContainers spec)\<rparr>
      in spec\<lparr>pod_tolerations := pod_tolerations desired, pod_affinity := pod_affinity desired\<rparr>)"

definition mergeDeployments :: "'o deployment \<Rightarrow> 'o deployment \<Rightarrow> 'o deployment" where
  "mergeDeployments desiredDeployment existingDeployment =
     existingDeployment\<lparr>
       w_replicas := w_replicas desiredDeployment,
       w_tmplLabels := copyStringMapPreserveNil (w_tmplLabels desiredDeployment),
       w_tmplAnnotations := copyStringMapPreserveNil (w_tmplAnnotations desiredDeployment),
       w_pod := merge_pod (w_pod desiredDeployment) (w_pod existingDeployment)\<rparr>"

definition mergeStatefulSets :: "'o stateful_set \<Rightarrow> 'o stateful_set \<Rightarrow> 'o stateful_set" where
  "mergeStatefulSets desiredStatefulSet existingStatefulSet =
     existingStatefulSet\<lparr>
       w_replicas := w_replicas desiredStatefulSet,
       w_tmplLabels := copyStringMapPreserveNil (w_tmplLabels desiredStatefulSet),
       w_tmplAnnotations := copyStringMapPreserveNil (w_tmplAnnotations desiredStatefulSet),
       w_pod := merge_pod (w_pod desiredStatefulSet) (w_pod existingStatefulSet)\<rparr>"

definition vctEqual :: "'o opaque \<Rightarrow> 'o opaque \<Rightarrow> bool" where
  "vctEqual a b = (a = b)"

text \<open>The block that both reconcilers begin with: the checksum of the stored ConfigMap becomes an
  annotation of the pod template.\<close>

definition with_checksum :: "string \<Rightarrow> ('o, 'z) workload_scheme \<Rightarrow> ('o, 'z) workload_scheme" where
  "with_checksum hash desired =
     (let desired = (if w_tmplAnnotations desired = None
            then desired\<lparr>w_tmplAnnotations := Some fmempty\<rparr> else desired)
      in desired\<lparr>w_tmplAnnotations :=
           Some (fmupd ''checksum/config-files'' hash (gm_map (w_tmplAnnotations desired)))\<rparr>)"

definition inject_checksum ::
  "('w, 'o) client \<Rightarrow> 'o phare \<Rightarrow> ('o, 'z) workload_scheme \<Rightarrow> ('w, ('o, 'z) workload_scheme) step" where
  "inject_checksum cl phare desired s =
     (if has_config phare then
        (case hashConfigMapData cl (ph_name phare @ ''-config'') (ph_namespace phare) s of
           (Inl err, s) \<Rightarrow>
             (Inl (Wrapf (''hash configmap '' @ ph_name phare @ ''-config'') (Api err)), s)
         | (Inr hash, s) \<Rightarrow> (Inr (with_checksum hash desired), s))
      else (Inr desired, s))"

definition reconcileDeployment ::
  "'o ext \<Rightarrow> ('w, 'o) client \<Rightarrow> 'o phare \<Rightarrow> 'w st \<Rightarrow> ((go_error + unit) \<times> 'w st) \<times> 'o phare" where
  "reconcileDeployment x cl phare s =
     (case newDeployment x phare of
        (None, phare) \<Rightarrow>
          ((Inl (Errorf (''failed to build desired Deployment for '' @ ph_namespace phare @ ''/'' @
             ph_name phare)), s), phare)
      | (Some desired, phare) \<Rightarrow>
          ((case inject_checksum cl phare desired s of
             (Inl err, s) \<Rightarrow> (Inl err, s)
           | (Inr desired, s) \<Rightarrow>
               (case send Get KDeployment (ph_namespace phare, m_name (w_meta desired))
                   (rc_get (cl_deployment cl) (ph_namespace phare, m_name (w_meta desired))) s of
                  (Inl err, s) \<Rightarrow>
                    if is_not_found err then
                      (case send Create KDeployment (meta_key (w_meta desired))
                          (rc_create (cl_deployment cl) desired) s of
                         (Inl createErr, s) \<Rightarrow> (Inl (Api createErr), s)
                       | (Inr _, s) \<Rightarrow> (Inr (), s))
                    else (Inl (Api err), s)
                | (Inr existing, s) \<Rightarrow>
                    if x_cmpDiffDeployment x podTemplateCompareOptions existing
                        (mergeDeployments desired existing) \<noteq> [] then
                      (case send Patch KDeployment (meta_key (w_meta (mergeDeployments desired existing)))
                          (rc_patch (cl_deployment cl) None existing (mergeDeployments desired existing)) s of
                         (Inl patchErr, s) \<Rightarrow> (Inl (Api patchErr), s)
                       | (Inr _, s) \<Rightarrow> (Inr (), s))
                    else (Inr (), s))), phare))"

definition warn_vct :: "'o stateful_set \<Rightarrow> 'o stateful_set \<Rightarrow> 'w st \<Rightarrow> 'w st" where
  "warn_vct desired existing s =
     (if \<not> vctEqual (ss_volumeClaimTemplates existing) (ss_volumeClaimTemplates desired) then
        eventf ''Warning'' ''ImmutableField''
          (''VolumeClaimTemplates for StatefulSet '' @ m_name (w_meta existing) @
           '' cannot be changed after creation; delete and recreate to apply new templates'') s
      else s)"

definition reconcileStatefulSet ::
  "'o ext \<Rightarrow> ('w, 'o) client \<Rightarrow> 'o phare \<Rightarrow> 'w st \<Rightarrow> ((go_error + unit) \<times> 'w st) \<times> 'o phare" where
  "reconcileStatefulSet x cl phare s =
     (case newStatefulSet x phare of
        (None, phare) \<Rightarrow>
          ((Inl (Errorf (''failed to build desired StatefulSet for '' @ ph_namespace phare @ ''/'' @
             ph_name phare)), s), phare)
      | (Some desired, phare) \<Rightarrow>
          ((case inject_checksum cl phare desired s of
             (Inl err, s) \<Rightarrow> (Inl err, s)
           | (Inr desired, s) \<Rightarrow>
               (case send Get KStatefulSet (ph_namespace phare, m_name (w_meta desired))
                   (rc_get (cl_statefulSet cl) (ph_namespace phare, m_name (w_meta desired))) s of
                  (Inl err, s) \<Rightarrow>
                    if is_not_found err then
                      (case send Create KStatefulSet (meta_key (w_meta desired))
                          (rc_create (cl_statefulSet cl) desired) s of
                         (Inl createErr, s) \<Rightarrow> (Inl (Api createErr), s)
                       | (Inr _, s) \<Rightarrow> (Inr (), s))
                    else (Inl (Api err), s)
                | (Inr existing, s) \<Rightarrow>
                    let s = warn_vct desired existing s in
                    if x_cmpDiffStatefulSet x podTemplateCompareOptions existing
                        (mergeStatefulSets desired existing) \<noteq> [] then
                      (case send Patch KStatefulSet (meta_key (w_meta (mergeStatefulSets desired existing)))
                          (rc_patch (cl_statefulSet cl) None existing (mergeStatefulSets desired existing)) s of
                         (Inl patchErr, s) \<Rightarrow> (Inl (Api patchErr), s)
                       | (Inr _, s) \<Rightarrow> (Inr (), s))
                    else (Inr (), s))), phare))"

section \<open>Both as instances of the common shape\<close>

abbreviation workload_key :: "('o, 'z) workload_scheme \<Rightarrow> obj_key" where
  "workload_key w \<equiv> meta_key (w_meta w)"

abbreviation deployment_tail ::
  "'o ext \<Rightarrow> ('w, 'o) client \<Rightarrow> obj_key \<Rightarrow> 'o deployment \<Rightarrow> ('w, unit) step" where
  "deployment_tail x cl k desired \<equiv>
     create_or_patch KDeployment (cl_deployment cl) workload_key k desired (\<lambda>e s. s) (\<lambda>s. s)
       (\<lambda>e. x_cmpDiffDeployment x podTemplateCompareOptions e (mergeDeployments desired e) \<noteq> [])
       (mergeDeployments desired) None"

abbreviation statefulSet_tail ::
  "'o ext \<Rightarrow> ('w, 'o) client \<Rightarrow> obj_key \<Rightarrow> 'o stateful_set \<Rightarrow> ('w, unit) step" where
  "statefulSet_tail x cl k desired \<equiv>
     create_or_patch KStatefulSet (cl_statefulSet cl) workload_key k desired (warn_vct desired) (\<lambda>s. s)
       (\<lambda>e. x_cmpDiffStatefulSet x podTemplateCompareOptions e (mergeStatefulSets desired e) \<noteq> [])
       (mergeStatefulSets desired) None"

lemma reconcileDeployment_eq:
  "fst (reconcileDeployment x cl phare s) =
     (case newDeployment x phare of
        (None, p) \<Rightarrow> (Inl (Errorf (''failed to build desired Deployment for '' @ ph_namespace p @ ''/'' @
             ph_name p)), s)
      | (Some desired, p) \<Rightarrow>
          (case inject_checksum cl p desired s of
             (Inl err, s) \<Rightarrow> (Inl err, s)
           | (Inr desired, s) \<Rightarrow> deployment_tail x cl (ph_namespace p, m_name (w_meta desired)) desired s))"
  by (cases "newDeployment x phare"; cases "fst (newDeployment x phare)")
    (simp_all add: reconcileDeployment_def, unfold create_or_patch_def Let_def, rule refl)

lemma reconcileStatefulSet_eq:
  "fst (reconcileStatefulSet x cl phare s) =
     (case newStatefulSet x phare of
        (None, p) \<Rightarrow> (Inl (Errorf (''failed to build desired StatefulSet for '' @ ph_namespace p @ ''/'' @
             ph_name p)), s)
      | (Some desired, p) \<Rightarrow>
          (case inject_checksum cl p desired s of
             (Inl err, s) \<Rightarrow> (Inl err, s)
           | (Inr desired, s) \<Rightarrow> statefulSet_tail x cl (ph_namespace p, m_name (w_meta desired)) desired s))"
  by (cases "newStatefulSet x phare"; cases "fst (newStatefulSet x phare)")
    (simp_all add: reconcileStatefulSet_def, unfold create_or_patch_def Let_def, rule refl)

section \<open>Merging pods\<close>

lemma merge_pod_fields:
  "pod_containers (merge_pod d e) =
     mergeContainersPreservingUnknown (pod_containers e) (pod_containers d)"
  "pod_initContainers (merge_pod d e) =
     mergeContainersPreservingUnknown (pod_initContainers e) (pod_initContainers d)"
  "pod_volumes (merge_pod d e) =
     mergeVolumesRespectingMountedNames (pod_volumes e) (pod_volumes d)
       (pod_containers (merge_pod d e)) (pod_initContainers (merge_pod d e))"
  "pod_tolerations (merge_pod d e) = pod_tolerations d"
  "pod_affinity (merge_pod d e) = pod_affinity d"
  "pod_rest (merge_pod d e) = pod_rest e"
  by (simp_all add: merge_pod_def Let_def)

lemma mergeContainers_again:
  "distinct (map c_name (elems d)) \<Longrightarrow>
   mergeContainersPreservingUnknown (mergeContainersPreservingUnknown e d) d =
     mergeContainersPreservingUnknown e d"
  by (simp add: mergeContainers_keyed container_merge.idempotent)

lemma mergeVolumes_again:
  "distinct (map v_name (elems d)) \<Longrightarrow>
   mergeVolumesRespectingMountedNames (mergeVolumesRespectingMountedNames e d cs ics) d cs ics =
     mergeVolumesRespectingMountedNames e d cs ics"
  by (simp add: mergeVolumes_keyed volume_merge.idempotent)

definition distinct_names :: "'o pod_spec \<Rightarrow> bool" where
  "distinct_names pod =
     (distinct (map c_name (elems (pod_containers pod))) \<and>
      distinct (map c_name (elems (pod_initContainers pod))) \<and>
      distinct (map v_name (elems (pod_volumes pod))))"

lemma merge_pod_again:
  assumes "distinct_names d"
  shows "merge_pod d (merge_pod d e) = merge_pod d e"
proof -
  let ?m = "merge_pod d e"
  have d: "distinct (map c_name (elems (pod_containers d)))"
    "distinct (map c_name (elems (pod_initContainers d)))" "distinct (map v_name (elems (pod_volumes d)))"
    using assms by (simp_all add: distinct_names_def)
  have c: "pod_containers (merge_pod d ?m) = pod_containers ?m"
    and i: "pod_initContainers (merge_pod d ?m) = pod_initContainers ?m"
    by (simp_all add: merge_pod_fields(1,2) mergeContainers_again d)
  have v: "pod_volumes (merge_pod d ?m) = pod_volumes ?m"
    unfolding merge_pod_fields(3) [of d ?m] c i unfolding merge_pod_fields(3) [of d e]
    by (rule mergeVolumes_again [OF d(3)])
  show ?thesis
    by (rule pod_spec.equality) (simp_all add: c i v merge_pod_fields(4-6))
qed

section \<open>Reconciling\<close>

lemma with_checksum_fields [simp]:
  "w_meta (with_checksum h d) = w_meta d" "w_pod (with_checksum h d) = w_pod d"
  "w_replicas (with_checksum h d) = w_replicas d" "w_tmplLabels (with_checksum h d) = w_tmplLabels d"
  "gm_get (w_tmplAnnotations (with_checksum h d)) k =
     (if k = ''checksum/config-files'' then Some h else gm_get (w_tmplAnnotations d) k)"
  by (auto simp: with_checksum_def Let_def gm_get_def)

lemma merge_fields [simp]:
  "w_meta (mergeDeployments d e) = w_meta e" "w_meta (mergeStatefulSets d' e') = w_meta e'"
  "w_tmplAnnotations (mergeDeployments d e) = w_tmplAnnotations d"
  "w_tmplAnnotations (mergeStatefulSets d' e') = w_tmplAnnotations d'"
  "w_pod (mergeDeployments d e) = merge_pod (w_pod d) (w_pod e)"
  "w_pod (mergeStatefulSets d' e') = merge_pod (w_pod d') (w_pod e')"
  by (simp_all add: mergeDeployments_def mergeStatefulSets_def)

lemma silent_warn_vct [simp]: "silent (warn_vct d e)"
  by (simp add: warn_vct_def silent_def)

lemma inject_checksum_key:
  "inject_checksum cl p d s = (Inr d', t) \<Longrightarrow> w_meta d' = w_meta d"
  by (auto simp: inject_checksum_def split: if_splits prod.splits sum.splits)

lemma inject_checksum_requests:
  "issues (reads_on KConfigMap (config_map_key p)) s (snd (inject_checksum cl p d s))"
  unfolding inject_checksum_def hashConfigMapData_def
  by (intro issues_along) simp_all

lemma inject_checksum_trace:
  assumes "inject_checksum cl p d s = (r, t)"
  shows "events t = events s \<and>
    calls t = calls s @ (if has_config p then [Call Get KConfigMap (config_map_key p)] else [])"
  using assms
  by (auto simp: inject_checksum_def hashConfigMapData_def
      split: if_splits prod.splits sum.splits dest!: send_trace)

text \<open>The Phare that a builder leaves has the name and namespace it came with.\<close>

lemma shared_meta [simp]:
  "ph_meta (share_volumes p) = ph_meta p" "ph_meta (share_probe probe p) = ph_meta p"
  "has_config (share_volumes p) = has_config p" "has_config (share_probe probe p) = has_config p"
  by (simp_all add: share_volumes_def share_probe_def has_config_def)

lemma newDeployment_meta: "newDeployment x phare = (d, p) \<Longrightarrow> ph_meta p = ph_meta phare \<and> has_config p = has_config phare"
  using newDeployment_shared [of x phare] by auto

lemma newStatefulSet_meta: "newStatefulSet x phare = (d, p) \<Longrightarrow> ph_meta p = ph_meta phare \<and> has_config p = has_config phare"
  using newStatefulSet_shared [of x phare] by auto

lemma newDeployment_key: "newDeployment x phare = (Some d, p) \<Longrightarrow> workload_key d = meta_key (ph_meta phare)"
  by (auto simp: meta_key_def dest!: newDeployment_Some)

lemma newStatefulSet_key: "newStatefulSet x phare = (Some d, p) \<Longrightarrow> workload_key d = meta_key (ph_meta phare)"
  by (auto simp: meta_key_def dest!: newStatefulSet_Some)

text \<open>The two reconcilers after the builder, over any kind of workload.\<close>

definition checksum_and_patch ::
  "kind \<Rightarrow> ('w, 'o) client \<Rightarrow> ('w, ('o, 'z) workload_scheme) resource_client \<Rightarrow> 'o phare \<Rightarrow>
   ('o, 'z) workload_scheme \<Rightarrow> (('o, 'z) workload_scheme \<Rightarrow> ('o, 'z) workload_scheme \<Rightarrow> 'w st \<Rightarrow> 'w st) \<Rightarrow>
   (('o, 'z) workload_scheme \<Rightarrow> ('o, 'z) workload_scheme \<Rightarrow> bool) \<Rightarrow>
   (('o, 'z) workload_scheme \<Rightarrow> ('o, 'z) workload_scheme \<Rightarrow> ('o, 'z) workload_scheme) \<Rightarrow> ('w, unit) step" where
  "checksum_and_patch kd cl rc p desired found changed merge s =
     (case inject_checksum cl p desired s of
        (Inl err, s) \<Rightarrow> (Inl err, s)
      | (Inr d, s) \<Rightarrow> create_or_patch kd rc workload_key (ph_namespace p, m_name (w_meta d)) d
          (found d) (\<lambda>s. s) (changed d) (merge d) None s)"

lemma checksum_and_patch_requests:
  assumes "get_by_key rc workload_key" and "workload_key desired = meta_key (ph_meta p)"
    and "\<And>d e. w_meta (merge d e) = w_meta e" "\<And>d e. silent (found d e)"
  shows "issues (requests_on kd (meta_key (ph_meta p)) \<union> reads_on KConfigMap (config_map_key p)) s
    (snd (checksum_and_patch kd cl rc p desired found changed merge s))"
  unfolding checksum_and_patch_def
proof (rule issued.case_step)
  show "issues (requests_on kd (meta_key (ph_meta p)) \<union> reads_on KConfigMap (config_map_key p)) s
      (snd (inject_checksum cl p desired s))"
    by (intro issues_mono [OF inject_checksum_requests]) auto
next
  fix d t
  assume "inject_checksum cl p desired s = (Inr d, t)"
  note inject_checksum_key [OF this]
  with assms show "issues (requests_on kd (meta_key (ph_meta p)) \<union> reads_on KConfigMap (config_map_key p))
      t (snd (create_or_patch kd rc workload_key (ph_namespace p, m_name (w_meta d)) d (found d) (\<lambda>s. s)
        (changed d) (merge d) None t))"
    by (intro issues_mono [OF create_or_patch_requests [OF assms(1)]]) (auto simp: meta_key_def)
qed simp

abbreviation deployment_changed :: "'o ext \<Rightarrow> 'o deployment \<Rightarrow> 'o deployment \<Rightarrow> bool" where
  "deployment_changed x d e \<equiv>
     x_cmpDiffDeployment x podTemplateCompareOptions e (mergeDeployments d e) \<noteq> []"

abbreviation statefulSet_changed :: "'o ext \<Rightarrow> 'o stateful_set \<Rightarrow> 'o stateful_set \<Rightarrow> bool" where
  "statefulSet_changed x d e \<equiv>
     x_cmpDiffStatefulSet x podTemplateCompareOptions e (mergeStatefulSets d e) \<noteq> []"

lemma reconcileDeployment_built:
  "newDeployment x phare = (Some d, p) \<Longrightarrow> fst (reconcileDeployment x cl phare s) =
     checksum_and_patch KDeployment cl (cl_deployment cl) p d (\<lambda>d e s. s) (deployment_changed x)
       mergeDeployments s"
  by (simp add: reconcileDeployment_eq checksum_and_patch_def)

lemma reconcileStatefulSet_built:
  "newStatefulSet x phare = (Some d, p) \<Longrightarrow> fst (reconcileStatefulSet x cl phare s) =
     checksum_and_patch KStatefulSet cl (cl_statefulSet cl) p d warn_vct (statefulSet_changed x)
       mergeStatefulSets s"
  by (simp add: reconcileStatefulSet_eq checksum_and_patch_def)

lemma reconcileDeployment_requests:
  assumes "get_by_key (cl_deployment cl) workload_key"
  shows "issues (requests_on KDeployment (meta_key (ph_meta phare)) \<union>
      reads_on KConfigMap (config_map_key phare)) s (snd (fst (reconcileDeployment x cl phare s)))"
proof (cases "newDeployment x phare"; cases "fst (newDeployment x phare)")
  fix o' p d assume "newDeployment x phare = (o', p)" "fst (newDeployment x phare) = Some d"
  then have new: "newDeployment x phare = (Some d, p)" by simp
  from newDeployment_meta [OF new] newDeployment_key [OF new] show ?thesis
    using checksum_and_patch_requests [OF assms, of d p mergeDeployments "\<lambda>d e s. s" KDeployment s cl]
    by (simp add: reconcileDeployment_built [OF new])
qed (simp add: reconcileDeployment_eq)

lemma reconcileStatefulSet_requests:
  assumes "get_by_key (cl_statefulSet cl) workload_key"
  shows "issues (requests_on KStatefulSet (meta_key (ph_meta phare)) \<union>
      reads_on KConfigMap (config_map_key phare)) s (snd (fst (reconcileStatefulSet x cl phare s)))"
proof (cases "newStatefulSet x phare"; cases "fst (newStatefulSet x phare)")
  fix o' p d assume "newStatefulSet x phare = (o', p)" "fst (newStatefulSet x phare) = Some d"
  then have new: "newStatefulSet x phare = (Some d, p)" by simp
  from newStatefulSet_meta [OF new] newStatefulSet_key [OF new] show ?thesis
    using checksum_and_patch_requests [OF assms, of d p mergeStatefulSets warn_vct KStatefulSet s cl]
    by (simp add: reconcileStatefulSet_built [OF new])
qed (simp add: reconcileStatefulSet_eq)

text \<open>
  On a cluster that keeps the contract for the workload and for ConfigMaps. Reading a ConfigMap
  does not change the workloads.
\<close>

locale workload_store =
  objects: store_client rc look "workload_key" kept frame +
  config_map_store cl look_cm frame_cm
  for kd :: kind
    and cl :: "('w, 'o) client"
    and rc :: "('w, ('o, 'z) workload_scheme) resource_client"
    and look :: "'w \<Rightarrow> obj_key \<Rightarrow> ('o, 'z) workload_scheme option"
    and kept :: "('o, 'z) workload_scheme \<Rightarrow> 'c"
    and frame :: "'w \<Rightarrow> 'w \<Rightarrow> bool"
    and look_cm :: "'w \<Rightarrow> obj_key \<Rightarrow> 'o config_map option"
    and frame_cm :: "'w \<Rightarrow> 'w \<Rightarrow> bool" +
  assumes config_maps_apart: "frame_cm w w' \<Longrightarrow> look w' = look w"
begin

lemma injected:
  assumes "inject_checksum cl p desired s = (Inr d, t)"
  shows "look (world t) = look (world s) \<and>
    (if has_config p then \<exists>cm. look_cm (world s) (config_map_key p) = Some cm \<and>
       d = with_checksum (sha256_hex (hash_input (cm_data cm))) desired
     else d = desired)"
proof (cases "has_config p")
  case False
  with assms show ?thesis by (simp add: inject_checksum_def)
next
  case True
  with assms obtain cm where "get_cm cl (config_map_key p) s = (Inr cm, t)"
    and "d = with_checksum (sha256_hex (hash_input (cm_data cm))) desired"
    by (auto simp: inject_checksum_def hashConfigMapData_def split: prod.splits sum.splits)
  with True sent_get_found [OF this(1)] config_maps_apart show ?thesis by auto
qed

lemma outcome:
  assumes "checksum_and_patch kd cl rc p desired found changed merge s = (Inr (), t)"
    and "workload_key desired = meta_key (ph_meta p)"
    and "\<And>d e. w_meta (merge d e) = w_meta e" "\<And>d e. silent (found d e)"
  shows "\<exists>d w. (if has_config p then \<exists>cm. look_cm (world s) (config_map_key p) = Some cm \<and>
        d = with_checksum (sha256_hex (hash_input (cm_data cm))) desired else d = desired) \<and>
    look (world t) (meta_key (ph_meta p)) = Some w \<and>
    (case look (world s) (meta_key (ph_meta p)) of
       None \<Rightarrow> kept w = kept d
     | Some old \<Rightarrow> if changed d old then kept w = kept (merge d old) else w = old)"
proof -
  from assms(1) obtain d u where d: "inject_checksum cl p desired s = (Inr d, u)"
    and tail: "create_or_patch kd rc workload_key (ph_namespace p, m_name (w_meta d)) d (found d) (\<lambda>s. s)
      (changed d) (merge d) None u = (Inr (), t)"
    by (auto simp: checksum_and_patch_def split: prod.splits sum.splits)
  from d assms(2) have k: "(ph_namespace p, m_name (w_meta d)) = meta_key (ph_meta p)"
    and kd: "workload_key d = meta_key (ph_meta p)"
    by (auto simp: inject_checksum_key meta_key_def)
  have "\<exists>w. look (world t) (meta_key (ph_meta p)) = Some w \<and>
    (case look (world u) (meta_key (ph_meta p)) of
       None \<Rightarrow> kept w = kept d
     | Some old \<Rightarrow> if changed d old then kept w = kept (merge d old) else w = old)"
    by (rule objects.create_or_patch_outcome [OF tail [unfolded k] kd]) (simp_all add: assms)
  then show ?thesis unfolding conjunct1 [OF injected [OF d]] using conjunct2 [OF injected [OF d]] by blast
qed


text \<open>When the workload exists, a run that succeeds has asked for the two objects and patched exactly
  when something changed; the events are those of the hook.\<close>

lemma found_trace:
  assumes run: "checksum_and_patch kd cl rc p desired found changed merge s = (Inr (), t)"
    and key: "workload_key desired = meta_key (ph_meta p)"
    and old: "look (world s) (meta_key (ph_meta p)) = Some old"
    and merge: "\<And>d e. w_meta (merge d e) = w_meta e"
    and silent: "\<And>d e. silent (found d e)" and hook: "\<And>d e u. events (found d e u) = events u @ evs d e"
  shows "\<exists>d. (if has_config p then \<exists>h. d = with_checksum h desired else d = desired) \<and>
    events t = events s @ evs d old \<and>
    calls t = calls s @ (if has_config p then [Call Get KConfigMap (config_map_key p)] else []) @
      Call Get kd (meta_key (ph_meta p)) #
      (if changed d old then [Call Patch kd (meta_key (ph_meta p))] else [])"
proof -
  from run obtain d u where d: "inject_checksum cl p desired s = (Inr d, u)"
    and tail: "create_or_patch kd rc workload_key (ph_namespace p, m_name (w_meta d)) d (found d) (\<lambda>s. s)
      (changed d) (merge d) None u = (Inr (), t)"
    by (auto simp: checksum_and_patch_def split: prod.splits sum.splits)
  from d key have k: "(ph_namespace p, m_name (w_meta d)) = meta_key (ph_meta p)"
    by (auto simp: inject_checksum_key meta_key_def)
  have u: "look (world u) (meta_key (ph_meta p)) = Some old" using injected [OF d] old by simp
  have old_key: "workload_key old = meta_key (ph_meta p)"
  proof -
    from tail obtain g v where get: "send Get kd (meta_key (ph_meta p)) (rc_get rc (meta_key (ph_meta p))) u = (g, v)"
      by (cases "send Get kd (meta_key (ph_meta p)) (rc_get rc (meta_key (ph_meta p))) u") auto
    show ?thesis
    proof (cases g)
      case (Inl e)
      with tail get u objects.sent_get_failed [of Get kd _ _ u e v] show ?thesis
        by (auto simp: create_or_patch_def k split: if_splits)
    qed (use objects.sent_get_found get u in auto)
  qed
  have "events (found d old u') = events (found d old u)" if "events u' = events u" for u'
    using that by (simp add: hook)
  from objects.create_or_patch_found [OF tail [unfolded k] u silent this]
  have "events t = events u @ evs d old" and "calls t = calls u @ Call Get kd (meta_key (ph_meta p)) #
      (if changed d old then [Call Patch kd (meta_key (ph_meta p))] else [])"
    by (simp_all add: hook merge old_key)
  moreover note inject_checksum_trace [OF d] injected [OF d]
  ultimately show ?thesis
    by (rule_tac x = d in exI) auto
qed

end

end
