(* ===== verification/Resources.thy ===== *)
theory Resources
  imports Expose Workload_Reconcile
begin

text \<open>
  The dispatch to the reconcilers of the optional objects and of the workload, and the removal of
  objects that are no longer asked for (controllers/tmp_k8s_resources.go).

  \<open>deleteIfExists\<close> and \<open>deleteIfOwned\<close> work on any \<open>client.Object\<close>: they take the client of the kind
  and the two accessors they need, the key and the owner references.
\<close>

section \<open>The code\<close>

definition deleteIfExists ::
  "'o ext \<Rightarrow> kind \<Rightarrow> ('w, 'a) resource_client \<Rightarrow> ('a \<Rightarrow> obj_key) \<Rightarrow> ('a \<Rightarrow> owner_ref slice) \<Rightarrow>
   string \<Rightarrow> string \<Rightarrow> 'o phare \<Rightarrow> ('w, unit) step" where
  "deleteIfExists x kd rc key owners name namespace phare s =
     (case send Get kd (namespace, name) (rc_get rc (namespace, name)) s of
        (Inl err, s) \<Rightarrow> if is_not_found err then (Inr (), s) else (Inl (Api err), s)
      | (Inr obj, s) \<Rightarrow>
          if \<not> x_isControlledBy x (owners obj) (m_uid (ph_meta phare)) then (Inr (), s)
          else
            (case send Delete kd (key obj) (rc_delete rc obj) s of
               (Inl err, s) \<Rightarrow> if is_not_found err then (Inr (), s) else (Inl (Api err), s)
             | (Inr _, s) \<Rightarrow> (Inr (), s)))"

definition deleteIfOwned ::
  "'o ext \<Rightarrow> kind \<Rightarrow> ('w, 'a) resource_client \<Rightarrow> ('a \<Rightarrow> obj_key) \<Rightarrow> ('a \<Rightarrow> owner_ref slice) \<Rightarrow>
   string \<Rightarrow> string \<Rightarrow> 'o phare \<Rightarrow> ('w, bool) step" where
  "deleteIfOwned x kd rc key owners name namespace phare s =
     (case send Get kd (namespace, name) (rc_get rc (namespace, name)) s of
        (Inl err, s) \<Rightarrow>
          if is_no_match err \<or> is_not_found err then (Inr False, s) else (Inl (Api err), s)
      | (Inr obj, s) \<Rightarrow>
          if \<not> x_isControlledBy x (owners obj) (m_uid (ph_meta phare)) then (Inr False, s)
          else
            (case send Delete kd (key obj) (rc_delete rc obj) s of
               (Inl err, s) \<Rightarrow> if is_not_found err then (Inr False, s) else (Inl (Api err), s)
             | (Inr _, s) \<Rightarrow> (Inr True, s)))"

definition cleanupHTTPRoute :: "'o ext \<Rightarrow> ('w, 'o) client \<Rightarrow> 'o phare \<Rightarrow> ('w, unit) step" where
  "cleanupHTTPRoute x cl phare s =
     (case deleteIfOwned x KHTTPRoute (cl_httpRoute cl) route_key (\<lambda>r. m_owners (hr_meta r))
         (ph_name phare) (ph_namespace phare) phare s of
        (Inl err, s) \<Rightarrow> (Inl err, s)
      | (Inr deleted, s) \<Rightarrow>
          if deleted then
            (Inr (), eventf ''Normal'' ''DeletedResource'' (''Deleted HTTPRoute '' @ ph_name phare) s)
          else (Inr (), s))"

definition handleHTTPRoute ::
  "'o ext \<Rightarrow> ('w, 'o) client \<Rightarrow> obj_key \<Rightarrow> 'o phare \<Rightarrow> ('w, unit) step" where
  "handleHTTPRoute x cl req phare s =
     (case ps_toolChain (ph_spec phare) of
        None \<Rightarrow> cleanupHTTPRoute x cl phare s
      | Some tc \<Rightarrow>
          (case tc_httpRoute tc of
             None \<Rightarrow> cleanupHTTPRoute x cl phare s
           | Some hr \<Rightarrow> reconcileHttpRoute x cl req phare hr s))"

definition cleanupGCPBackendPolicy :: "'o ext \<Rightarrow> ('w, 'o) client \<Rightarrow> 'o phare \<Rightarrow> ('w, unit) step" where
  "cleanupGCPBackendPolicy x cl phare s =
     (case deleteIfOwned x KGCPBackendPolicy (cl_gcpBackendPolicy cl) unstructured_key u_owners
         (ph_name phare) (ph_namespace phare) phare s of
        (Inl err, s) \<Rightarrow> (Inl err, s)
      | (Inr deleted, s) \<Rightarrow>
          if deleted then
            (Inr (), eventf ''Normal'' ''DeletedResource'' (''Deleted GCPBackendPolicy '' @ ph_name phare) s)
          else (Inr (), s))"

definition handleGCPBackendPolicy ::
  "'o ext \<Rightarrow> ('w, 'o) client \<Rightarrow> obj_key \<Rightarrow> 'o phare \<Rightarrow> ('w, unit) step" where
  "handleGCPBackendPolicy x cl req phare s =
     (case ps_toolChain (ph_spec phare) of
        None \<Rightarrow> cleanupGCPBackendPolicy x cl phare s
      | Some tc \<Rightarrow>
          if tc_gcpBackendPolicy tc \<noteq> None then reconcileGCPBackendPolicy x cl req phare s
          else cleanupGCPBackendPolicy x cl phare s)"

definition cleanupHealthCheckPolicy :: "'o ext \<Rightarrow> ('w, 'o) client \<Rightarrow> 'o phare \<Rightarrow> ('w, unit) step" where
  "cleanupHealthCheckPolicy x cl phare s =
     (case deleteIfOwned x KHealthCheckPolicy (cl_healthCheckPolicy cl) unstructured_key u_owners
         (ph_name phare) (ph_namespace phare) phare s of
        (Inl err, s) \<Rightarrow> (Inl err, s)
      | (Inr deleted, s) \<Rightarrow>
          if deleted then
            (Inr (), eventf ''Normal'' ''DeletedResource'' (''Deleted HealthCheckPolicy '' @ ph_name phare) s)
          else (Inr (), s))"

definition handleHealthCheckPolicy ::
  "'o ext \<Rightarrow> ('w, 'o) client \<Rightarrow> obj_key \<Rightarrow> 'o phare \<Rightarrow> ('w, unit) step" where
  "handleHealthCheckPolicy x cl req phare s =
     (case ps_toolChain (ph_spec phare) of
        None \<Rightarrow> cleanupHealthCheckPolicy x cl phare s
      | Some tc \<Rightarrow>
          if tc_healthCheckPolicy tc \<noteq> None then reconcileHealthCheckPolicy x cl req phare s
          else cleanupHealthCheckPolicy x cl phare s)"

definition reconcileMicroService ::
  "'o ext \<Rightarrow> ('w, 'o) client \<Rightarrow> 'o phare \<Rightarrow> 'w st \<Rightarrow> ((go_error + unit) \<times> 'w st) \<times> 'o phare" where
  "reconcileMicroService x cl phare s =
     (if ms_kind (ps_microService (ph_spec phare)) = ''Deployment'' then
        (case deleteIfExists x KStatefulSet (cl_statefulSet cl) workload_key (\<lambda>w. m_owners (w_meta w))
            (ph_name phare) (ph_namespace phare) phare s of
           (Inl err, s) \<Rightarrow> ((Inl err, s), phare)
         | (Inr _, s) \<Rightarrow> reconcileDeployment x cl phare s)
      else if ms_kind (ps_microService (ph_spec phare)) = ''StatefulSet'' then
        (case deleteIfExists x KDeployment (cl_deployment cl) workload_key (\<lambda>w. m_owners (w_meta w))
            (ph_name phare) (ph_namespace phare) phare s of
           (Inl err, s) \<Rightarrow> ((Inl err, s), phare)
         | (Inr _, s) \<Rightarrow> reconcileStatefulSet x cl phare s)
      else ((Inl (Errorf (''unsupported kind: '' @ ms_kind (ps_microService (ph_spec phare)))), s), phare))"

section \<open>Requests\<close>

lemma deleteIfExists_requests:
  assumes "get_by_key rc key" and "(ns, n) = k"
  shows "issues (requests_on kd k) s (snd (deleteIfExists x kd rc key owners n ns phare s))"
  unfolding deleteIfExists_def
  by (intro issues_along) (use assms in \<open>auto dest: sent_get_key [OF _ assms(1)]\<close>)

lemma deleteIfOwned_requests:
  assumes "get_by_key rc key" and "(ns, n) = k"
  shows "issues (requests_on kd k) s (snd (deleteIfOwned x kd rc key owners n ns phare s))"
  unfolding deleteIfOwned_def
  by (intro issues_along) (use assms in \<open>auto dest: sent_get_key [OF _ assms(1)]\<close>)

lemma cleanup_requests:
  assumes "client_by_key cl"
  shows "issues (requests_on KHTTPRoute (meta_key (ph_meta phare))) s (snd (cleanupHTTPRoute x cl phare s))"
    and "issues (requests_on KGCPBackendPolicy (meta_key (ph_meta phare))) s
      (snd (cleanupGCPBackendPolicy x cl phare s))"
    and "issues (requests_on KHealthCheckPolicy (meta_key (ph_meta phare))) s
      (snd (cleanupHealthCheckPolicy x cl phare s))"
  unfolding cleanupHTTPRoute_def cleanupGCPBackendPolicy_def cleanupHealthCheckPolicy_def
  by (intro issued.along deleteIfOwned_requests;
      use assms in \<open>simp add: client_by_key_def meta_key_def\<close>)+

lemma handle_requests:
  assumes "client_by_key cl" and "req = meta_key (ph_meta phare)"
  shows "issues (requests_on KHTTPRoute req) s (snd (handleHTTPRoute x cl req phare s))"
    and "issues (requests_on KGCPBackendPolicy req) s (snd (handleGCPBackendPolicy x cl req phare s))"
    and "issues (requests_on KHealthCheckPolicy req) s (snd (handleHealthCheckPolicy x cl req phare s))"
  unfolding handleHTTPRoute_def handleGCPBackendPolicy_def handleHealthCheckPolicy_def
  using cleanup_requests [OF assms(1), of phare s x] assms
    reconcileHttpRoute_requests [of cl req phare s x] reconcileGCPBackendPolicy_requests [of cl req phare s x]
    reconcileHealthCheckPolicy_requests [of cl req phare s x]
  by (auto simp: client_by_key_def split: option.splits)

definition workload_requests :: "'o phare \<Rightarrow> call set" where
  "workload_requests phare =
     requests_on KDeployment (meta_key (ph_meta phare)) \<union> requests_on KStatefulSet (meta_key (ph_meta phare)) \<union>
     reads_on KConfigMap (config_map_key phare)"

lemma reconcileMicroService_requests:
  assumes "client_by_key cl"
  shows "issues (workload_requests phare) s (snd (fst (reconcileMicroService x cl phare s)))"
proof -
  have get: "get_by_key (cl_deployment cl) workload_key" "get_by_key (cl_statefulSet cl) workload_key"
    using assms by (simp_all add: client_by_key_def)
  have D: "issues (workload_requests phare) t (snd (fst (reconcileDeployment x cl phare t)))" for t
    by (rule issues_mono [OF reconcileDeployment_requests [OF get(1)]]) (auto simp: workload_requests_def)
  have S: "issues (workload_requests phare) t (snd (fst (reconcileStatefulSet x cl phare t)))" for t
    by (rule issues_mono [OF reconcileStatefulSet_requests [OF get(2)]]) (auto simp: workload_requests_def)
  have d: "issues (workload_requests phare) s (snd (deleteIfExists x KDeployment (cl_deployment cl)
      workload_key (\<lambda>w. m_owners (w_meta w)) (ph_name phare) (ph_namespace phare) phare s))"
    by (rule issues_mono [OF deleteIfExists_requests [OF get(1)]]) (auto simp: workload_requests_def meta_key_def)
  have e: "issues (workload_requests phare) s (snd (deleteIfExists x KStatefulSet (cl_statefulSet cl)
      workload_key (\<lambda>w. m_owners (w_meta w)) (ph_name phare) (ph_namespace phare) phare s))"
    by (rule issues_mono [OF deleteIfExists_requests [OF get(2)]]) (auto simp: workload_requests_def meta_key_def)
  show ?thesis
    using d e D S
    by (auto simp: reconcileMicroService_def split: prod.splits sum.splits intro: issues_trans)
qed

section \<open>Removing what is no longer asked for\<close>

context store_client begin

lemma deleteIfExists_runs_on:
  "run_on (ns, n) s (snd (deleteIfExists x kd rc key owners n ns phare s))"
  unfolding deleteIfExists_def
  by (intro on_object.along run_on_send) (auto dest: sent_get_found)

lemma deleteIfOwned_runs_on:
  "run_on (ns, n) s (snd (deleteIfOwned x kd rc key owners n ns phare s))"
  unfolding deleteIfOwned_def
  by (intro on_object.along run_on_send) (auto dest: sent_get_found)

lemma deleteIfExists_gone:
  assumes "deleteIfExists x kd rc key owners n ns phare s = (Inr u, t)"
    and "look (world t) (ns, n) = Some obj"
  shows "\<not> x_isControlledBy x (owners obj) (m_uid (ph_meta phare))"
  using assms
  by (auto simp: deleteIfExists_def split: prod.splits sum.splits if_splits dest!: sent)

lemma deleteIfOwned_outcome:
  assumes "deleteIfOwned x kd rc key owners n ns phare s = (Inr d, t)"
    and "\<And>k w w' e. rc_get rc k w = (Inl e, w') \<Longrightarrow> is_no_match e \<Longrightarrow> look w k = None"
  shows "case look (world s) (ns, n) of
      None \<Rightarrow> look (world t) (ns, n) = None
    | Some obj \<Rightarrow> look (world t) (ns, n) =
        (if x_isControlledBy x (owners obj) (m_uid (ph_meta phare)) then None else Some obj)"
proof -
  obtain g u where get: "send Get kd (ns, n) (rc_get rc (ns, n)) s = (g, u)" by fastforce
  show ?thesis
  proof (cases g)
    case (Inl e)
    with get have "look (world u) = look (world s)" "is_not_found e \<or> is_no_match e \<longrightarrow> look (world s) (ns, n) = None"
      using sent_get_failed [of Get kd "(ns, n)" "(ns, n)" s e u] assms(2) [OF send_world] by auto
    with assms(1) get Inl show ?thesis by (auto simp: deleteIfOwned_def split: if_splits)
  next
    case (Inr y)
    with get assms(1) show ?thesis
      by (auto simp: deleteIfOwned_def split: prod.splits sum.splits if_splits dest!: sent)
  qed
qed

lemma deleteIfOwned_gone:
  assumes "deleteIfOwned x kd rc key owners n ns phare s = (Inr d, t)"
    and "look (world t) (ns, n) = Some obj"
    and "\<And>k w w' e. rc_get rc k w = (Inl e, w') \<Longrightarrow> is_no_match e \<Longrightarrow> look w k = None"
  shows "\<not> x_isControlledBy x (owners obj) (m_uid (ph_meta phare))"
proof -
  have "case look (world s) (ns, n) of
      None \<Rightarrow> look (world t) (ns, n) = None
    | Some obj \<Rightarrow> look (world t) (ns, n) =
        (if x_isControlledBy x (owners obj) (m_uid (ph_meta phare)) then None else Some obj)"
    by (rule deleteIfOwned_outcome [OF assms(1,3)])
  with assms(2) show ?thesis by (auto split: option.splits if_splits)
qed

end

section \<open>Who may be deleted\<close>



lemma map_client_no_match:
  "rc_get (map_client g p key st) k w = (Inl e, w') \<Longrightarrow> is_no_match e \<Longrightarrow> False"
  by (auto simp: map_client_def Let_def err_not_found_def err_exists_def split: option.splits if_splits)

text \<open>C12. After a successful clean-up no object of that name is owned by the Phare any more, and an object
  that somebody else owns is still there. (A missing API kind counts as absence: the hypothesis
  on \<open>NoMatch\<close>.)\<close>

theorem cleanup_removes_owned:
  assumes store: "store_client rc look key kept frame"
    and run: "deleteIfOwned x kd rc key owners n ns phare s = (Inr d, t)"
    and absent: "\<And>k w w' e. rc_get rc k w = (Inl e, w') \<Longrightarrow> is_no_match e \<Longrightarrow> look w k = None"
  shows "case look (world s) (ns, n) of
      None \<Rightarrow> look (world t) (ns, n) = None
    | Some obj \<Rightarrow> look (world t) (ns, n) =
        (if x_isControlledBy x (owners obj) (m_uid (ph_meta phare)) then None else Some obj)"
  using store_client.deleteIfOwned_outcome [OF store run] absent by blast

theorem cleanup_removes_owned_witness:
  "d_gcps (world (snd (deleteIfOwned sample_ext KGCPBackendPolicy (cl_gcpBackendPolicy cluster_client)
      unstructured_key u_owners ''demo'' ''default'' policy_phare
      (initial ((empty_cluster :: unit cluster)\<lparr>d_gcps := [(''default'', ''demo'') \<mapsto> labelled_policy]\<rparr>)))))
    (''default'', ''demo'') = Some labelled_policy"
proof -
  let ?run = "deleteIfOwned sample_ext KGCPBackendPolicy (cl_gcpBackendPolicy cluster_client) unstructured_key
      u_owners ''demo'' ''default'' policy_phare
      (initial ((empty_cluster :: unit cluster)\<lparr>d_gcps := [(''default'', ''demo'') \<mapsto> labelled_policy]\<rparr>))"
  have ok: "fst ?run = Inr False" by code_simp
  have absent: "d_gcps w k = None" if "rc_get (cl_gcpBackendPolicy cluster_client) k w = (Inl e, w')" "is_no_match e"
    for k and w w' :: "unit cluster" and e
    using that by (auto simp: cluster_client_def dest: map_client_no_match)
  have "\<not> x_isControlledBy (sample_ext :: unit ext) (u_owners labelled_policy) (m_uid (ph_meta policy_phare))" by code_simp
  with cleanup_removes_owned [OF gcp_store.store_client_axioms run_ok [OF ok] absent] show ?thesis by simp
qed

end
