(* ===== verification/Controller.thy ===== *)
theory Controller
  imports Service Resources
begin

text \<open>
  The reconciler itself (controllers/phare_controller.go): fetching the Phare, running the
  sub-reconcilers in dependency order, recording the outcome in the status, and the predicates
  that decide which watch events start a run.

  \<open>ctrl.Result\<close> is always empty, so a run returns its error or nothing. The variable \<open>phare\<close> of
  \<open>Reconcile\<close> shares its pointers with the copies that the sub-reconcilers receive; only the
  workload builders write through them, so \<open>reconcileResources\<close> returns the Phare as they leave it,
  and that is the object whose status is written.
\<close>

section \<open>The code\<close>

definition fetchPhareResource ::
  "('w, 'o) client \<Rightarrow> obj_key \<Rightarrow> 'w st \<Rightarrow> (api_error + 'o phare option) \<times> 'w st" where
  "fetchPhareResource cl req s =
     (case send Get KPhare req (rc_get (cl_phare cl) req) s of
        (Inl err, s) \<Rightarrow> if is_not_found err then (Inr None, s) else (Inl err, s)
      | (Inr phare, s) \<Rightarrow> (Inr (Some phare), s))"

abbreviation phare_key :: "'o phare \<Rightarrow> obj_key" where
  "phare_key p \<equiv> meta_key (ph_meta p)"

definition updateStatus ::
  "('w, 'o) client \<Rightarrow> 'o phare \<Rightarrow> phare_phase \<Rightarrow> string \<Rightarrow> ('w, unit) step" where
  "updateStatus cl phare phase message s =
     (if st_phase (ph_status phare) = phase \<and> st_message (ph_status phare) = message then (Inr (), s)
      else
        (let phare = phare\<lparr>ph_status := (ph_status phare)\<lparr>st_phase := phase\<rparr>\<rparr>;
             phare = phare\<lparr>ph_status := (ph_status phare)\<lparr>st_message := message\<rparr>\<rparr>
         in (case send StatusUpdate KPhare (phare_key phare) (rc_status_update (cl_phare cl) phare) s of
               (Inl err, s) \<Rightarrow> (Inl (Api err), s)
             | (Inr _, s) \<Rightarrow> (Inr (), s))))"

definition reconcileResources ::
  "'o ext \<Rightarrow> ('w, 'o) client \<Rightarrow> obj_key \<Rightarrow> 'o phare \<Rightarrow> 'w st \<Rightarrow> ((go_error + unit) \<times> 'w st) \<times> 'o phare" where
  "reconcileResources x cl req phare s =
     (case reconcileConfigMap x cl phare s of
        (Inl err, s) \<Rightarrow> ((Inl err, s), phare)
      | (Inr _, s) \<Rightarrow>
          (case reconcileService x cl req phare s of
             (Inl err, s) \<Rightarrow> ((Inl err, s), phare)
           | (Inr _, s) \<Rightarrow>
               (case handleHTTPRoute x cl req phare s of
                  (Inl err, s) \<Rightarrow> ((Inl err, s), phare)
                | (Inr _, s) \<Rightarrow>
                    (case handleGCPBackendPolicy x cl req phare s of
                       (Inl err, s) \<Rightarrow> ((Inl err, s), phare)
                     | (Inr _, s) \<Rightarrow>
                         (case handleHealthCheckPolicy x cl req phare s of
                            (Inl err, s) \<Rightarrow> ((Inl err, s), phare)
                          | (Inr _, s) \<Rightarrow> reconcileMicroService x cl phare s)))))"

definition success_message :: string where
  "success_message = ''Successfully reconciled Phare resource''"

definition Reconcile :: "'o ext \<Rightarrow> ('w, 'o) client \<Rightarrow> obj_key \<Rightarrow> ('w, unit) step" where
  "Reconcile x cl req s =
     (case fetchPhareResource cl req s of
        (Inl err, s) \<Rightarrow> (Inl (Api err), s)
      | (Inr None, s) \<Rightarrow> (Inr (), s)
      | (Inr (Some phare), s) \<Rightarrow>
          (case reconcileResources x cl req phare s of
             ((Inl err, s), phare) \<Rightarrow>
               (case updateStatus cl phare PharePhaseFailed (error_string err) s of
                  (_, s) \<Rightarrow> (Inl err, s))
           | ((Inr _, s), phare) \<Rightarrow> updateStatus cl phare PharePhaseActive success_message s))"

section \<open>Watches\<close>

text \<open>What the predicates see of an object: its labels, its generation, and whether it is a
  StatefulSet.\<close>

record watched =
  wo_labels :: gomap
  wo_generation :: int64
  wo_statefulSet :: bool

datatype watch_event = CreateEvent watched | UpdateEvent "watched option" "watched option"
  | DeleteEvent watched | GenericEvent watched

definition label_is :: "string \<Rightarrow> string \<Rightarrow> watched \<Rightarrow> bool" where
  "label_is labelKey labelValue obj = (gm_index (wo_labels obj) labelKey = labelValue)"

fun defaultLabelPredicate :: "string \<Rightarrow> string \<Rightarrow> watch_event \<Rightarrow> bool" where
  "defaultLabelPredicate labelKey labelValue (CreateEvent obj) = label_is labelKey labelValue obj"
| "defaultLabelPredicate labelKey labelValue (UpdateEvent objectOld objectNew) =
     (let oldMatch = (case objectOld of None \<Rightarrow> False | Some obj \<Rightarrow> label_is labelKey labelValue obj);
          newMatch = (case objectNew of None \<Rightarrow> False | Some obj \<Rightarrow> label_is labelKey labelValue obj)
      in oldMatch \<or> newMatch)"
| "defaultLabelPredicate labelKey labelValue (DeleteEvent obj) = label_is labelKey labelValue obj"
| "defaultLabelPredicate labelKey labelValue (GenericEvent obj) = label_is labelKey labelValue obj"

definition as_statefulSet :: "watched option \<Rightarrow> watched option" where
  "as_statefulSet obj = (case obj of None \<Rightarrow> None | Some w \<Rightarrow> if wo_statefulSet w then Some w else None)"

definition statefulSetUpdatePredicate :: "watched option \<Rightarrow> watched option \<Rightarrow> bool" where
  "statefulSetUpdatePredicate objectOld objectNew =
     (case (as_statefulSet objectOld, as_statefulSet objectNew) of
        (Some oldSS, Some newSS) \<Rightarrow>
          (let oldManaged = label_is ''app.kubernetes.io/created-by'' ''phare-controller'' oldSS;
               newManaged = label_is ''app.kubernetes.io/created-by'' ''phare-controller'' newSS
           in if oldManaged \<noteq> newManaged then True
              else wo_generation oldSS \<noteq> wo_generation newSS)
      | _ \<Rightarrow> True)"

text \<open>The \<open>predicate.Funcs\<close> with this \<open>UpdateFunc\<close> alone passes every other event.\<close>

fun statefulSetPredicate :: "watch_event \<Rightarrow> bool" where
  "statefulSetPredicate (UpdateEvent objectOld objectNew) = statefulSetUpdatePredicate objectOld objectNew"
| "statefulSetPredicate _ = True"

text \<open>The predicates that \<open>SetupWithManager\<close> attaches to the kinds; an event must pass all of them.\<close>

definition watch_predicates :: "kind \<Rightarrow> (watch_event \<Rightarrow> bool) list" where
  "watch_predicates kd =
     (let labelFilter = defaultLabelPredicate ''app.kubernetes.io/created-by'' ''phare-controller'' in
      case kd of
        KPhare \<Rightarrow> []
      | KStatefulSet \<Rightarrow> [labelFilter, statefulSetPredicate]
      | _ \<Rightarrow> [labelFilter])"

definition starts_run :: "kind \<Rightarrow> watch_event \<Rightarrow> bool" where
  "starts_run kd ev = (\<forall>p \<in> set (watch_predicates kd). p ev)"

section \<open>Requests\<close>

lemma fetch_requests: "issues {Call Get KPhare req} s (snd (fetchPhareResource cl req s))"
  unfolding fetchPhareResource_def by (intro issues_along) simp_all

lemma updateStatus_requests:
  "issues {Call StatusUpdate KPhare (phare_key phare)} s (snd (updateStatus cl phare phase message s))"
  unfolding updateStatus_def by (intro issues_along) (simp_all add: meta_key_def)

text \<open>The Phare that the sub-reconcilers leave keeps its metadata and its status.\<close>

abbreviation same_object :: "'o phare \<Rightarrow> 'o phare \<Rightarrow> bool" where
  "same_object p q \<equiv> ph_meta q = ph_meta p \<and> ph_status q = ph_status p"

lemma shared_same_object:
  "same_object p (share_volumes p)" "same_object p (share_probe probe (share_volumes p))"
  by (simp_all add: share_volumes_def share_probe_def)

lemma reconcileResources_same_object:
  "same_object phare (snd (reconcileResources x cl req phare s))"
proof -
  have D: "same_object phare (snd (reconcileDeployment x cl phare t))" for t
    using newDeployment_shared [of x phare] shared_same_object
    by (cases "newDeployment x phare"; cases "fst (newDeployment x phare)")
      (auto simp: reconcileDeployment_def)
  have S: "same_object phare (snd (reconcileStatefulSet x cl phare t))" for t
    using newStatefulSet_shared [of x phare] shared_same_object
    by (cases "newStatefulSet x phare"; cases "fst (newStatefulSet x phare)")
      (auto simp: reconcileStatefulSet_def)
  have "same_object phare (snd (reconcileMicroService x cl phare t))" for t
    using D S by (auto simp: reconcileMicroService_def split: prod.splits sum.splits)
  then show ?thesis
    by (auto simp: reconcileResources_def split: prod.splits sum.splits)
qed

text \<open>A step whose error ends \<open>reconcileResources\<close>.\<close>

lemma issues_then:
  assumes "issues C s (snd p)" "\<And>t. issues C t (snd (fst (K t)))"
  shows "issues C s (snd (fst (case p of (Inl e, t) \<Rightarrow> ((Inl e, t), ph) | (Inr u, t) \<Rightarrow> K t)))"
  using assms by (cases p; cases "fst p") (auto intro: issues_trans)

definition resource_requests :: "'o phare \<Rightarrow> call set" where
  "resource_requests phare =
     requests_on KConfigMap (config_map_key phare) \<union>
     (\<Union>k \<in> {KService, KHTTPRoute, KGCPBackendPolicy, KHealthCheckPolicy, KDeployment, KStatefulSet}.
        requests_on k (phare_key phare))"

lemma step_requests:
  assumes "client_by_key cl" and "req = phare_key phare"
  shows "issues (requests_on KConfigMap (config_map_key phare)) s (snd (reconcileConfigMap x cl phare s))"
    and "issues (requests_on KService req) s (snd (reconcileService x cl req phare s))"
    and "issues (requests_on KHTTPRoute req) s (snd (handleHTTPRoute x cl req phare s))"
    and "issues (requests_on KGCPBackendPolicy req) s (snd (handleGCPBackendPolicy x cl req phare s))"
    and "issues (requests_on KHealthCheckPolicy req) s (snd (handleHealthCheckPolicy x cl req phare s))"
    and "issues (workload_requests phare) s (snd (fst (reconcileMicroService x cl phare s)))"
  using handle_requests [OF assms] reconcileMicroService_requests [OF assms(1)]
    reconcileConfigMap_requests [of cl phare s x] reconcileService_requests [of cl req phare s x] assms
  by (simp_all add: client_by_key_def)

lemma reconcileResources_requests:
  assumes "client_by_key cl" and "req = phare_key phare"
  shows "issues (resource_requests phare) s (snd (fst (reconcileResources x cl req phare s)))"
  unfolding reconcileResources_def
  by (intro issues_then; rule issues_mono [OF step_requests(1) [OF assms]]
      issues_mono [OF step_requests(2) [OF assms]] issues_mono [OF step_requests(3) [OF assms]]
      issues_mono [OF step_requests(4) [OF assms]] issues_mono [OF step_requests(5) [OF assms]]
      issues_mono [OF step_requests(6) [OF assms]])
    (auto simp: resource_requests_def workload_requests_def assms(2))

section \<open>The order of the writes\<close>

fun write_rank :: "kind \<Rightarrow> nat" where
  "write_rank KConfigMap = 0"
| "write_rank KService = 1"
| "write_rank KHTTPRoute = 2"
| "write_rank KGCPBackendPolicy = 3"
| "write_rank KHealthCheckPolicy = 4"
| "write_rank KDeployment = 5"
| "write_rank KStatefulSet = 5"
| "write_rank KPhare = 6"

abbreviation ranks :: "call list \<Rightarrow> nat list" where
  "ranks cs \<equiv> map (\<lambda>c. write_rank (call_kind c)) (filter is_write cs)"

definition ordered_writes :: "nat \<Rightarrow> nat \<Rightarrow> 'w st \<Rightarrow> 'w st \<Rightarrow> bool" where
  "ordered_writes lo hi s t \<longleftrightarrow>
     (\<exists>cs. calls t = calls s @ cs \<and> sorted (ranks cs) \<and> (\<forall>r \<in> set (ranks cs). lo \<le> r \<and> r \<le> hi))"

lemma ordered_refl [simp]: "ordered_writes lo hi s s"
  by (simp add: ordered_writes_def)

lemma ordered_trans:
  "ordered_writes lo m s t \<Longrightarrow> ordered_writes m' hi t u \<Longrightarrow> m \<le> m' \<Longrightarrow> lo \<le> m' \<Longrightarrow> m \<le> hi \<Longrightarrow>
   ordered_writes lo hi s u"
  by (fastforce simp: ordered_writes_def sorted_append)

lemma ordered_issues:
  assumes "issues C s t" and "\<And>c. c \<in> C \<Longrightarrow> is_write c \<Longrightarrow> write_rank (call_kind c) = r"
  shows "ordered_writes r r s t"
proof -
  from assms(1) obtain cs where cs: "calls t = calls s @ cs" "set cs \<subseteq> C" by (auto simp: issues_def)
  with assms(2) have all: "\<forall>x \<in> set (ranks cs). x = r" by auto
  then have "ranks cs = replicate (length (ranks cs)) r" by (metis replicate_eqI)
  then have "sorted (ranks cs)" by (metis sorted_replicate)
  with cs all show ?thesis by (auto simp: ordered_writes_def)
qed

lemma ordered_then:
  assumes "issues (requests_on kd n) s (snd p)" and "\<And>t. ordered_writes l' hi t (snd (fst (K t)))"
    and "write_rank kd = l" "l < l'" "l \<le> hi"
  shows "ordered_writes l hi s
    (snd (fst (case p of (Inl e, t) \<Rightarrow> ((Inl e, t), ph) | (Inr u, t) \<Rightarrow> K t)))"
proof -
  have "ordered_writes l l s (snd p)"
    by (rule ordered_issues [OF assms(1)]) (auto simp: requests_on_def assms(3))
  with assms(2,4,5) show ?thesis
    by (cases p; cases "fst p")
      (auto intro: ordered_trans [of l l _ _ l'] ordered_trans [OF _ ordered_refl])
qed

lemma reconcileResources_ordered:
  assumes "client_by_key cl" and "req = phare_key phare"
  shows "ordered_writes 0 5 s (snd (fst (reconcileResources x cl req phare s)))"
proof -
  note step = step_requests [OF assms]
  have last: "ordered_writes 5 5 t (snd (fst (reconcileMicroService x cl phare t)))" for t
    by (rule ordered_issues [OF step(6)]) (auto simp: workload_requests_def requests_on_def is_write_def)
  show ?thesis
    unfolding reconcileResources_def
    by (intro ordered_then [OF step(1), where l' = 1] ordered_then [OF step(2), where l' = 2]
        ordered_then [OF step(3), where l' = 3] ordered_then [OF step(4), where l' = 4]
        ordered_then [OF step(5), where l' = 5] last) simp_all
qed

lemma reconcileResources_key: "phare_key (snd (reconcileResources x cl req phare s)) = phare_key phare"
  by (simp only: reconcileResources_same_object [of x cl req phare s])

lemma updateStatus_state:
  "snd (updateStatus cl p ph m s) =
    (let st = \<lparr>st_phase = ph, st_message = m\<rparr> in
     if ph_status p = st then s
     else snd (send StatusUpdate KPhare (phare_key p) (rc_status_update (cl_phare cl) (p\<lparr>ph_status := st\<rparr>)) s))"
proof -
  obtain a b where st: "ph_status p = \<lparr>st_phase = a, st_message = b\<rparr>" by (cases "ph_status p") auto
  show ?thesis
  proof (cases "a = ph \<and> b = m")
    case False
    let ?sent = "send StatusUpdate KPhare (phare_key p)
      (rc_status_update (cl_phare cl) (p\<lparr>ph_status := \<lparr>st_phase = ph, st_message = m\<rparr>\<rparr>)) s"
    from False st show ?thesis by (cases ?sent; cases "fst ?sent") (auto simp: updateStatus_def Let_def)
  qed (simp add: updateStatus_def st)
qed

section \<open>What every run does\<close>

text \<open>The three phases of a run that finds its Phare.\<close>

lemma Reconcile_found:
  assumes "fetchPhareResource cl req s = (Inr (Some phare), s1)"
    and "reconcileResources x cl req phare s1 = ((r, s2), p)"
  shows "Reconcile x cl req s =
    (case r of
       Inl err \<Rightarrow> (Inl err, snd (updateStatus cl p PharePhaseFailed (error_string err) s2))
     | Inr _ \<Rightarrow> updateStatus cl p PharePhaseActive success_message s2)"
  using assms by (cases r) (simp_all add: Reconcile_def split: prod.splits)

lemma Reconcile_cases:
  assumes run: "Reconcile x cl req s = (r, t)"
  obtains (absent) "fetchPhareResource cl req s = (Inr None, t)" "r = Inr ()"
    | (unreadable) e where "fetchPhareResource cl req s = (Inl e, t)" "r = Inl (Api e)"
    | (failed) phare s1 err s2 p where "fetchPhareResource cl req s = (Inr (Some phare), s1)"
        "reconcileResources x cl req phare s1 = ((Inl err, s2), p)" "r = Inl err"
        "t = snd (updateStatus cl p PharePhaseFailed (error_string err) s2)"
    | (reconciled) phare s1 s2 p where "fetchPhareResource cl req s = (Inr (Some phare), s1)"
        "reconcileResources x cl req phare s1 = ((Inr (), s2), p)"
        "updateStatus cl p PharePhaseActive success_message s2 = (r, t)"
proof (cases "fetchPhareResource cl req s")
  case (Pair f s1)
  show thesis
  proof (cases f)
    case (Inl e)
    with Pair run unreadable show thesis by (simp add: Reconcile_def)
  next
    case (Inr z)
    show thesis
    proof (cases z)
      case None
      with Pair Inr run absent show thesis by (simp add: Reconcile_def)
    next
      case (Some phare)
      note fetched = Pair [unfolded Inr Some]
      obtain q s2 p where res: "reconcileResources x cl req phare s1 = ((q, s2), p)" by (metis prod.collapse)
      show thesis
        using run failed [OF fetched] reconciled [OF fetched] res Reconcile_found [OF fetched res]
        by (cases q) auto
    qed
  qed
qed

lemma fetched_key:
  assumes "client_by_key cl" and "fetchPhareResource cl req s = (Inr (Some phare), t)"
  shows "phare_key phare = req"
  using assms
  by (auto simp: fetchPhareResource_def client_by_key_def split: prod.splits sum.splits if_splits
      dest: sent_get_key)

text \<open>C5. A run is confined: whatever the API server answers, it sends requests only about the objects of the
  Phare's own namespace and name and about the ConfigMap of that name with the suffix \<open>-config\<close>; it
  never writes a Phare but for its status, and writes the status of nothing else.\<close>

theorem reconcile_requests_confined:
  assumes client: "client_by_key cl" and run: "Reconcile x cl req s = (r, t)"
  shows "\<exists>cs. calls t = calls s @ cs \<and>
    (\<forall>c \<in> set cs. (call_key c = req \<or> call_kind c = KConfigMap \<and> call_key c = (fst req, snd req @ ''-config'')) \<and>
      (call_kind c = KPhare \<longrightarrow> call_verb c \<in> {Get, StatusUpdate}) \<and>
      (call_verb c = StatusUpdate \<longrightarrow> call_kind c = KPhare))"
proof -
  let ?C = "{c. (call_key c = req \<or> call_kind c = KConfigMap \<and> call_key c = (fst req, snd req @ ''-config'')) \<and>
      (call_kind c = KPhare \<longrightarrow> call_verb c \<in> {Get, StatusUpdate}) \<and>
      (call_verb c = StatusUpdate \<longrightarrow> call_kind c = KPhare)}"
  have get: "issues ?C s u" if "fetchPhareResource cl req s = (f, u)" for f u
    using issues_mono [OF fetch_requests [of req s cl], of ?C] that by auto
  have res: "issues ?C s1 s2" and key: "phare_key p = req"
    if "fetchPhareResource cl req s = (Inr (Some phare), s1)"
      "reconcileResources x cl req phare s1 = ((q, s2), p)" for phare s1 q s2 p
  proof -
    note k = fetched_key [OF client that(1)]
    from k have "m_namespace (ph_meta phare) = fst req" "m_name (ph_meta phare) = snd req"
      by (auto simp: meta_key_def)
    moreover have "issues (resource_requests phare) s1 s2"
      using reconcileResources_requests [OF client k [symmetric], of s1 x] that(2) by simp
    ultimately show "issues ?C s1 s2"
      by (elim issues_mono) (auto simp: resource_requests_def requests_on_def k meta_key_def)
    show "phare_key p = req"
      using reconcileResources_key [where phare = phare and s = s1] that(2) k by (metis snd_conv)
  qed
  have upd: "issues ?C u (snd (updateStatus cl p ph m u))" if "phare_key p = req" for p ph m u
    using issues_mono [OF updateStatus_requests [of p u cl ph m], of ?C] that by auto
  from run have "issues ?C s t"
  proof (cases rule: Reconcile_cases)
    case (failed phare s1 err s2 p)
    have "issues ?C s s1" "issues ?C s1 s2" "issues ?C s2 t"
      using get [OF failed(1)] res [OF failed(1,2)] upd [OF key [OF failed(1,2)]] failed(4) by simp_all
    then show ?thesis by (blast intro: issues_trans)
  next
    case (reconciled phare s1 s2 p)
    have "issues ?C s s1" "issues ?C s1 s2"
      using get [OF reconciled(1)] res [OF reconciled(1,2)] by simp_all
    moreover have "issues ?C s2 t"
      using upd [OF key [OF reconciled(1,2)], of s2 PharePhaseActive success_message] reconciled(3)
      by simp
    ultimately show ?thesis by (blast intro: issues_trans)
  qed (use get in auto)
  then show ?thesis by (auto simp: issues_def)
qed

definition demo_key :: obj_key where
  "demo_key = (''default'', ''demo'')"

definition demo_run :: "unit phare \<Rightarrow> (go_error + unit) \<times> unit cluster st" where
  "demo_run phare = Reconcile sample_ext cluster_client demo_key
     (initial (empty_cluster\<lparr>d_phares := [demo_key \<mapsto> phare]\<rparr>))"

lemma demo_run_calls: "calls (snd (demo_run sample_phare)) =
    [Call Get KPhare demo_key, Call Get KConfigMap (''default'', ''demo-config''),
     Call Get KService demo_key, Call Get KHTTPRoute demo_key, Call Get KGCPBackendPolicy demo_key,
     Call Get KHealthCheckPolicy demo_key, Call Get KStatefulSet demo_key, Call Get KDeployment demo_key,
     Call Create KDeployment demo_key, Call StatusUpdate KPhare demo_key]"
  by code_simp

theorem reconcile_requests_confined_witness:
  "Call Create KDeployment demo_key \<in> set (calls (snd (demo_run sample_phare))) \<and>
   Call Create KDeployment (''default'', ''other'') \<notin> set (calls (snd (demo_run sample_phare)))"
proof -
  obtain r t where run: "demo_run sample_phare = (r, t)" by fastforce
  from reconcile_requests_confined [OF cluster_client_by_key run [unfolded demo_run_def]] demo_run_calls run
  show ?thesis by (fastforce simp: demo_key_def)
qed

text \<open>C6. The writes of a run come in the order of their dependencies, with any client: the ConfigMap,
  the Service, the HTTPRoute, the two policies, the workload and at last the status; the status is
  written at most once.\<close>

theorem reconcile_writes_in_order:
  assumes client: "client_by_key cl" and run: "Reconcile x cl req s = (r, t)"
  shows "\<exists>cs. calls t = calls s @ cs \<and> sorted (ranks cs) \<and> count_list (ranks cs) (write_rank KPhare) \<le> 1"
proof -
  have get: "calls u = calls s @ [Call Get KPhare req]" if "fetchPhareResource cl req s = (f, u)" for f u
    using that by (auto simp: fetchPhareResource_def split: prod.splits sum.splits if_splits dest!: send_calls)
  have upd: "\<exists>cs. calls (snd (updateStatus cl p ph m u)) = calls u @ cs \<and>
      cs \<in> {[], [Call StatusUpdate KPhare (phare_key p)]}" for p ph m u
    by (auto simp: updateStatus_def meta_key_def split: prod.splits sum.splits dest!: send_calls)
  have found: ?thesis if f: "fetchPhareResource cl req s = (Inr (Some phare), s1)"
      and q: "reconcileResources x cl req phare s1 = ((q, s2), p)"
      and t: "t = snd (updateStatus cl p ph m s2)" for phare s1 q s2 p ph m
  proof -
    note k = fetched_key [OF client f]
    obtain cs where cs: "calls s2 = calls s1 @ cs" "sorted (ranks cs)" "\<forall>r \<in> set (ranks cs). r \<le> 5"
      using reconcileResources_ordered [OF client k [symmetric], of s1 x] q by (auto simp: ordered_writes_def)
    from cs(3) have "write_rank KPhare \<notin> set (ranks cs)" by auto
    then have "count_list (ranks cs) (write_rank KPhare) = 0" by (simp add: count_list_0_iff)
    moreover obtain us where "calls t = calls s2 @ us" "us \<in> {[], [Call StatusUpdate KPhare (phare_key p)]}"
      using upd [of p ph m s2] t by auto
    ultimately show ?thesis
      using get [OF f] cs
      by (intro exI [of _ "[Call Get KPhare req] @ cs @ us"]) (auto simp: is_write_def sorted_append)
  qed
  from run show ?thesis
  proof (cases rule: Reconcile_cases)
    case (reconciled phare s1 s2 p)
    from reconciled(3) have "t = snd (updateStatus cl p PharePhaseActive success_message s2)" by simp
    then show ?thesis by (rule found [OF reconciled(1,2)])
  qed (use get found in \<open>auto simp: is_write_def\<close>)
qed

theorem reconcile_writes_in_order_witness:
  "ranks (calls (snd (demo_run sample_phare))) = [5, 6] \<and> sorted (ranks (calls (snd (demo_run sample_phare))))"
proof -
  obtain r t where run: "demo_run sample_phare = (r, t)" by fastforce
  have "ranks (calls (snd (demo_run sample_phare))) = [5, 6]"
    unfolding demo_run_calls by code_simp
  moreover have "sorted (ranks (calls (snd (demo_run sample_phare))))"
    using reconcile_writes_in_order [OF cluster_client_by_key run [unfolded demo_run_def]] run by auto
  ultimately show ?thesis by blast
qed

text \<open>C7. The error of a failed run is never lost: if a sub-reconciler fails, the run returns that
  very error, whatever becomes of the status update, and a status that is written says
  \<open>Failed\<close> with the text of the error.\<close>

theorem failure_reported:
  assumes "fetchPhareResource cl req s = (Inr (Some phare), s1)"
    and "reconcileResources x cl req phare s1 = ((Inl err, s2), p)"
  shows "fst (Reconcile x cl req s) = Inl err \<and>
    (let st = \<lparr>st_phase = PharePhaseFailed, st_message = error_string err\<rparr> in
     snd (Reconcile x cl req s) =
       (if ph_status phare = st then s2
        else snd (send StatusUpdate KPhare (phare_key phare)
          (rc_status_update (cl_phare cl) (p\<lparr>ph_status := st\<rparr>)) s2)))"
proof -
  have "ph_meta p = ph_meta phare" "ph_status p = ph_status phare"
    using reconcileResources_same_object [of x cl req phare s1] assms(2) by simp_all
  then show ?thesis
    by (simp add: Reconcile_found [OF assms] updateStatus_state Let_def)
qed

definition job_phare :: "unit phare" where
  "job_phare = sample_phare\<lparr>ph_spec := (ph_spec sample_phare)\<lparr>ps_microService :=
     (ps_microService (ph_spec sample_phare))\<lparr>ms_kind := ''Job''\<rparr>\<rparr>\<rparr>"

theorem failure_reported_witness:
  "fst (demo_run job_phare) = Inl (Errorf ''unsupported kind: Job'') \<and>
   map_option ph_status (d_phares (world (snd (demo_run job_phare))) demo_key) =
     Some \<lparr>st_phase = ''Failed'', st_message = ''unsupported kind: Job''\<rparr>"
proof -
  let ?s = "initial (empty_cluster\<lparr>d_phares := [demo_key \<mapsto> job_phare]\<rparr>) :: unit cluster st"
  have f: "fst (fetchPhareResource cluster_client demo_key ?s) = Inr (Some job_phare)" by code_simp
  then obtain s1 where f: "fetchPhareResource cluster_client demo_key ?s = (Inr (Some job_phare), s1)"
    and s1: "s1 = snd (fetchPhareResource cluster_client demo_key ?s)" by (metis prod.collapse)
  have r: "fst (fst (reconcileResources sample_ext cluster_client demo_key job_phare
      (snd (fetchPhareResource cluster_client demo_key ?s)))) = Inl (Errorf ''unsupported kind: Job'')"
    by code_simp
  obtain q s2 p where q: "reconcileResources sample_ext cluster_client demo_key job_phare s1 = ((q, s2), p)"
    by (metis prod.collapse)
  with r s1 have "q = Inl (Errorf ''unsupported kind: Job'')" by simp
  with failure_reported [OF f] q have "fst (demo_run job_phare) = Inl (Errorf ''unsupported kind: Job'')"
    unfolding demo_run_def by blast
  moreover have "map_option ph_status (d_phares (world (snd (demo_run job_phare))) demo_key) =
     Some \<lparr>st_phase = ''Failed'', st_message = ''unsupported kind: Job''\<rparr>" by code_simp
  ultimately show ?thesis by blast
qed

text \<open>A workload kind other than \<open>Deployment\<close> and \<open>StatefulSet\<close> is an error that changes nothing:
  no request is sent and the Phare is left as it is.\<close>

theorem unsupported_kind:
  assumes "ms_kind (ps_microService (ph_spec phare)) \<notin> {''Deployment'', ''StatefulSet''}"
  shows "reconcileMicroService x cl phare s =
    ((Inl (Errorf (''unsupported kind: '' @ ms_kind (ps_microService (ph_spec phare)))), s), phare)"
  using assms by (simp add: reconcileMicroService_def)

theorem unsupported_kind_witness:
  "fst (fst (reconcileMicroService sample_ext cluster_client job_phare (initial empty_cluster))) =
     Inl (Errorf ''unsupported kind: Job'')"
proof -
  have "ms_kind (ps_microService (ph_spec job_phare)) = ''Job''" by code_simp
  with unsupported_kind [of job_phare sample_ext cluster_client "initial empty_cluster"] show ?thesis by simp
qed

text \<open>C24. Which StatefulSet updates start a run: with both objects present and of that type, those
  where the managed-by label appears or disappears, and those of a managed object whose generation
  changed. A status update of a managed StatefulSet (same labels, same generation) starts none.\<close>

theorem statefulSet_update_starts_run:
  assumes "wo_statefulSet old" "wo_statefulSet new"
  shows "starts_run KStatefulSet (UpdateEvent (Some old) (Some new)) \<longleftrightarrow>
    (let managed = label_is ''app.kubernetes.io/created-by'' ''phare-controller'' in
     managed old \<noteq> managed new \<or>
     managed old \<and> managed new \<and> wo_generation old \<noteq> wo_generation new)"
  using assms
  by (auto simp: starts_run_def watch_predicates_def as_statefulSet_def statefulSetUpdatePredicate_def Let_def)
theorem statefulSet_update_starts_run_witness:
  "starts_run KStatefulSet (UpdateEvent
     (Some \<lparr>wo_labels = Some (metadata_labels ''demo''), wo_generation = 1, wo_statefulSet = True\<rparr>)
     (Some \<lparr>wo_labels = Some (metadata_labels ''demo''), wo_generation = 2, wo_statefulSet = True\<rparr>))"
proof -
  let ?w = "\<lambda>g. \<lparr>wo_labels = Some (metadata_labels ''demo''), wo_generation = g, wo_statefulSet = True\<rparr>"
  have "label_is ''app.kubernetes.io/created-by'' ''phare-controller'' (?w 1)"
    "label_is ''app.kubernetes.io/created-by'' ''phare-controller'' (?w 2)" by code_simp+
  then show ?thesis
    by (subst statefulSet_update_starts_run) simp_all
qed

end
