(* ===== verification/Workload_Laws.thy ===== *)
theory Workload_Laws
  imports Workload_Reconcile
begin

text \<open>
  What holds of the Deployment and the StatefulSet that the operator manages: what is built, how
  the desired object is merged into the existing one, and what a run that succeeds leaves in the
  cluster.
\<close>

section \<open>Samples\<close>

definition with_ms :: "('o micro_service_spec \<Rightarrow> 'o micro_service_spec) \<Rightarrow> 'o phare \<Rightarrow> 'o phare" where
  "with_ms f p = p\<lparr>ph_spec := (ph_spec p)\<lparr>ps_microService := f (ps_microService (ph_spec p))\<rparr>\<rparr>"

definition sidecar :: "unit container" where
  "sidecar = (main_container sample_phare)\<lparr>c_name := ''sidecar'', c_volumeMounts :=
     Some [\<lparr>vm_name = ''cache'', vm_mountPath = ''/cache'', vm_rest = None\<rparr>]\<rparr>"

definition sample_volume :: "string \<Rightarrow> unit volume" where
  "sample_volume n = \<lparr>v_name = n, v_secret = Some \<lparr>sec_defaultMode = None, sec_rest = None\<rparr>,
     v_configMap = None, v_rest = None\<rparr>"

definition bare_deployment :: "unit deployment" where
  "bare_deployment = \<lparr>w_type = \<lparr>tm_apiVersion = ''apps/v1'', tm_kind = ''Deployment''\<rparr>,
     w_meta = object_meta ''demo'' ''default'' None None, w_replicas = Some 1, w_selector = Some None,
     w_tmplLabels = None, w_tmplAnnotations = None, w_pod = pod_of sample_phare, w_rest = None\<rparr>"

definition sidecar_deployment :: "unit deployment" where
  "sidecar_deployment = bare_deployment\<lparr>w_pod := (w_pod bare_deployment)\<lparr>
     pod_containers := Some [sidecar, main_container sample_phare],
     pod_volumes := Some [sample_volume ''cache'', sample_volume ''stale'']\<rparr>\<rparr>"

section \<open>The built object\<close>


text \<open>With a Config the managed ConfigMap is the first volume and is mounted first in the Phare's
  container under the fixed path; every Secret volume, and every ConfigMap volume that is not also a
  Secret volume, has the file mode 0644.\<close>

theorem built_volumes:
  assumes "newDeployment x phare = (Some d, p)"
  shows "(has_config phare \<longrightarrow>
      (\<exists>c cs v vs. elems (pod_containers (w_pod d)) = c # cs \<and> c_name c = ph_name phare \<and>
        elems (c_volumeMounts c) =
          \<lparr>vm_name = ''config-volume'', vm_mountPath = ''/etc/phare/config'', vm_rest = None\<rparr> #
          elems (ms_volumeMounts (ps_microService (ph_spec phare))) \<and>
        elems (pod_volumes (w_pod d)) = v # vs \<and> v_name v = ''config-volume'' \<and>
        map_option cms_name (v_configMap v) = Some (ph_name phare @ ''-config''))) \<and>
    (\<forall>v \<in> set (elems (pod_volumes (w_pod d))).
      (case v_secret v of
         Some sec \<Rightarrow> sec_defaultMode sec = Some 420
       | None \<Rightarrow> (case v_configMap v of None \<Rightarrow> True | Some cm \<Rightarrow> cms_defaultMode cm = Some 420)))"
proof -
  from newDeployment_Some [OF assms] obtain probe where pod: "w_pod d = built_pod phare probe" by auto
  have mode: "(case v_secret (UpdateVolume file_mode v) of
         Some sec \<Rightarrow> sec_defaultMode sec = Some 420
       | None \<Rightarrow> (case v_configMap (UpdateVolume file_mode v) of None \<Rightarrow> True
           | Some cm \<Rightarrow> cms_defaultMode cm = Some 420))" for v :: "'a volume"
    by (auto simp: UpdateVolume_def file_mode_def split: option.splits)
  have vols: "elems (pod_volumes (w_pod d)) = map (UpdateVolume file_mode)
      ((if has_config phare then [config_volume (ph_name phare @ ''-config'')] else []) @
       elems (ms_volumes (ps_microService (ph_spec phare))))"
    by (simp add: pod built_pod_def Let_def)
  have "\<exists>c cs v vs. elems (pod_containers (w_pod d)) = c # cs \<and> c_name c = ph_name phare \<and>
        elems (c_volumeMounts c) =
          \<lparr>vm_name = ''config-volume'', vm_mountPath = ''/etc/phare/config'', vm_rest = None\<rparr> #
          elems (ms_volumeMounts (ps_microService (ph_spec phare))) \<and>
        elems (pod_volumes (w_pod d)) = v # vs \<and> v_name v = ''config-volume'' \<and>
        map_option cms_name (v_configMap v) = Some (ph_name phare @ ''-config'')"
    if "has_config phare"
    using that
    by (simp add: pod built_pod_def built_container_def main_container_def Let_def config_mount_def
        configVolumeMountPath_def) (simp add: config_volume_def)
  moreover have "\<forall>v \<in> set (elems (pod_volumes (w_pod d))).
      (case v_secret v of
         Some sec \<Rightarrow> sec_defaultMode sec = Some 420
       | None \<Rightarrow> (case v_configMap v of None \<Rightarrow> True | Some cm \<Rightarrow> cms_defaultMode cm = Some 420))"
    unfolding vols set_map using mode by blast
  ultimately show ?thesis by blast
qed

theorem built_volumes_witness:
  "\<exists>d p. newDeployment sample_ext (with_ms (\<lambda>ms. ms\<lparr>ms_volumes := Some [sample_volume ''tls'']\<rparr>) config_sample) = (Some d, p) \<and>
     (\<exists>v vs. elems (pod_volumes (w_pod d)) = v # vs \<and> map_option cms_name (v_configMap v) = Some ''demo-config'')"
proof -
  let ?p = "with_ms (\<lambda>ms. ms\<lparr>ms_volumes := Some [sample_volume ''tls'']\<rparr>) config_sample"
  have "fst (newDeployment sample_ext ?p) \<noteq> None" by code_simp
  then obtain d p where new: "newDeployment sample_ext ?p = (Some d, p)" by (metis not_None_eq prod.collapse)
  have "has_config ?p" and "ph_name ?p = ''demo''" by code_simp+
  with built_volumes [OF new] new show ?thesis by auto
qed

section \<open>The merge\<close>

text \<open>C14. Sidecars survive: a container of the existing Deployment that the desired one does not name is
  kept as it is, and every volume it uses is kept too (or replaced by the desired volume of that name).\<close>

theorem sidecars_survive:
  assumes "c \<in> set (elems (pod_containers (w_pod e)))"
    and "c_name c \<notin> c_name ` set (elems (pod_containers (w_pod d)))"
  shows "c \<in> set (elems (pod_containers (w_pod (mergeDeployments d e)))) \<and>
    (\<forall>v \<in> set (elems (pod_volumes (w_pod e))).
      v_name v \<in> vm_name ` set (elems (c_volumeMounts c)) \<union> vd_name ` set (elems (c_volumeDevices c)) \<longrightarrow>
      (\<exists>v' \<in> set (elems (pod_volumes (w_pod (mergeDeployments d e)))). v_name v' = v_name v \<and>
        (v_name v \<notin> v_name ` set (elems (pod_volumes (w_pod d))) \<longrightarrow> v' = v)))"
proof -
  let ?m = "w_pod (mergeDeployments d e)"
  have c: "c \<in> set (elems (pod_containers ?m))"
    using container_merge.unknown_preserved [OF assms]
    by (simp add: merge_pod_fields(1) mergeContainers_keyed)
  have "\<exists>v' \<in> set (elems (pod_volumes ?m)). v_name v' = v_name v \<and>
      (v_name v \<notin> v_name ` set (elems (pod_volumes (w_pod d))) \<longrightarrow> v' = v)"
    if v: "v \<in> set (elems (pod_volumes (w_pod e)))"
      and use: "v_name v \<in> vm_name ` set (elems (c_volumeMounts c)) \<union> vd_name ` set (elems (c_volumeDevices c))"
    for v
  proof -
    let ?mounted = "mountedVolumeNames (pod_containers ?m) (pod_initContainers ?m)"
    let ?merged = "keyed_merge v_name (\<lambda>v. v_name v \<in> ?mounted) (\<lambda>e d. d)
      (elems (pod_volumes (w_pod e))) (elems (pod_volumes (w_pod d)))"
    have mounted: "v_name v \<in> ?mounted" using c use by (auto simp: mountedVolumeNames_iff)
    have merged: "elems (pod_volumes ?m) = ?merged"
      by (simp add: merge_pod_fields(3) mergeVolumes_keyed)
    show ?thesis
    proof (cases "v_name v \<in> v_name ` set (elems (pod_volumes (w_pod d)))")
      case False
      with volume_merge.unknown_preserved [OF v False, of ?mounted] mounted show ?thesis
        unfolding merged by blast
    next
      case True
      then have "v_name v \<in> v_name ` set ?merged" unfolding volume_merge.keys_merged by blast
      with True show ?thesis unfolding merged by auto
    qed
  qed
  with c show ?thesis by blast
qed

theorem sidecars_survive_witness:
  "sidecar \<in> set (elems (pod_containers (w_pod (mergeDeployments bare_deployment sidecar_deployment))))"
  by (rule sidecars_survive [THEN conjunct1]) (code_simp, code_simp)

text \<open>C15. For the containers it names, the desired Deployment is authoritative: each of them is there after
  the merge, and every merged container of its name has its image, command, arguments, resources,
  probes, environment, mounts and ports.\<close>

theorem managed_containers_follow_spec:
  assumes "distinct (map c_name (elems (pod_containers (w_pod d))))"
    and "c \<in> set (elems (pod_containers (w_pod d)))"
  shows "(\<exists>m \<in> set (elems (pod_containers (w_pod (mergeDeployments d e)))). c_name m = c_name c) \<and>
    (\<forall>m \<in> set (elems (pod_containers (w_pod (mergeDeployments d e)))). c_name m = c_name c \<longrightarrow>
      c_image m = c_image c \<and> c_command m = c_command c \<and> c_args m = c_args c \<and>
      c_resources m = c_resources c \<and> c_livenessProbe m = c_livenessProbe c \<and>
      c_readinessProbe m = c_readinessProbe c \<and> c_startupProbe m = c_startupProbe c \<and>
      c_env m = c_env c \<and> c_envFrom m = c_envFrom c \<and> c_volumeMounts m = c_volumeMounts c \<and>
      c_ports m = c_ports c)"
proof -
  let ?d = "elems (pod_containers (w_pod d))"
  let ?merged = "keyed_merge c_name (\<lambda>_. True) mergeContainerPreservingMutations
      (elems (pod_containers (w_pod e))) ?d"
  have merged: "elems (pod_containers (w_pod (mergeDeployments d e))) = ?merged"
    by (simp add: merge_pod_fields(1) mergeContainers_keyed)
  have "c_name c \<in> c_name ` set ?merged"
    unfolding container_merge.keys_merged using assms(2) by blast
  moreover have "mergeContainerPreservingMutations m c = m"
    if "m \<in> set ?merged" "c_name m = c_name c" for m
    using that assms container_merge.merged_known [OF assms(1) that(1), of c] by simp
  moreover have "c_image (mergeContainerPreservingMutations m c) = c_image c \<and>
      c_command (mergeContainerPreservingMutations m c) = c_command c \<and>
      c_args (mergeContainerPreservingMutations m c) = c_args c \<and>
      c_resources (mergeContainerPreservingMutations m c) = c_resources c \<and>
      c_livenessProbe (mergeContainerPreservingMutations m c) = c_livenessProbe c \<and>
      c_readinessProbe (mergeContainerPreservingMutations m c) = c_readinessProbe c \<and>
      c_startupProbe (mergeContainerPreservingMutations m c) = c_startupProbe c \<and>
      c_env (mergeContainerPreservingMutations m c) = c_env c \<and>
      c_envFrom (mergeContainerPreservingMutations m c) = c_envFrom c \<and>
      c_volumeMounts (mergeContainerPreservingMutations m c) = c_volumeMounts c \<and>
      c_ports (mergeContainerPreservingMutations m c) = c_ports c" for m
    by (simp add: mergeContainerPreservingMutations_def)
  ultimately have "\<forall>m \<in> set ?merged. c_name m = c_name c \<longrightarrow>
      c_image m = c_image c \<and> c_command m = c_command c \<and> c_args m = c_args c \<and>
      c_resources m = c_resources c \<and> c_livenessProbe m = c_livenessProbe c \<and>
      c_readinessProbe m = c_readinessProbe c \<and> c_startupProbe m = c_startupProbe c \<and>
      c_env m = c_env c \<and> c_envFrom m = c_envFrom c \<and> c_volumeMounts m = c_volumeMounts c \<and>
      c_ports m = c_ports c"
    by metis
  with \<open>c_name c \<in> c_name ` set ?merged\<close> show ?thesis unfolding merged by fastforce
qed

theorem managed_containers_follow_spec_witness:
  "\<exists>m \<in> set (elems (pod_containers (w_pod (mergeDeployments bare_deployment sidecar_deployment)))). c_name m = ''demo''"
proof -
  have "distinct (map c_name (elems (pod_containers (w_pod bare_deployment))))"
    and "main_container sample_phare \<in> set (elems (pod_containers (w_pod bare_deployment)))"
    and "c_name (main_container sample_phare :: unit container) = ''demo''"
    by code_simp+
  with managed_containers_follow_spec [of bare_deployment "main_container sample_phare" sidecar_deployment]
  show ?thesis by auto
qed





text \<open>C31. The selector is written once: when a pod label of the Phare changes, the patch gives the pod
  template the new label but leaves the selector of the creation in place, which then no longer
  matches the template.\<close>

theorem pod_label_change_breaks_selector:
  assumes "newDeployment x phare = (Some old, p)" "newDeployment x phare' = (Some new, p')"
    and "gm_get (ms_podLabels (ps_microService (ph_spec phare))) l = Some v"
    and "gm_get (ms_podLabels (ps_microService (ph_spec phare'))) l = Some v'" "v' \<noteq> v"
  shows "\<exists>sel. w_selector (mergeDeployments new old) = Some sel \<and> gm_get sel l = Some v \<and>
    gm_get (w_tmplLabels (mergeDeployments new old)) l = Some v'"
  using newDeployment_Some [OF assms(1)] newDeployment_Some [OF assms(2)] assms(3,4)
  by (auto simp: mergeDeployments_def pod_labels_get)

theorem pod_label_change_breaks_selector_witness:
  "\<exists>(old :: unit deployment) new sel. w_selector (mergeDeployments new old) = Some sel \<and> gm_get sel ''tier'' = Some ''web'' \<and>
     gm_get (w_tmplLabels (mergeDeployments new old)) ''tier'' = Some ''api''"
proof -
  let ?p = "\<lambda>v. with_ms (\<lambda>ms. ms\<lparr>ms_podLabels := Some (fmap_of_list [(''tier'', v)])\<rparr>) sample_phare :: unit phare"
  have "fst (newDeployment sample_ext (?p ''web'')) \<noteq> None" "fst (newDeployment sample_ext (?p ''api'')) \<noteq> None"
    by code_simp+
  then obtain old p new p' where "newDeployment sample_ext (?p ''web'') = (Some old, p)"
    "newDeployment sample_ext (?p ''api'') = (Some new, p')"
    by (metis not_None_eq prod.collapse)
  from pod_label_change_breaks_selector [OF this, of "''tier''" "''web''" "''api''"] show ?thesis
    by (auto simp: with_ms_def)
qed

section \<open>Runs\<close>

lemma cluster_only_config_maps:
  "only_kind KConfigMap w w' \<Longrightarrow> d_deployments w' = d_deployments w \<and> d_statefulSets w' = d_statefulSets w"
  by (simp add: only_kind_def)

interpretation cluster_deployments: workload_store KDeployment cluster_client
  "cl_deployment cluster_client" d_deployments kept "only_kind KDeployment" d_configMaps "only_kind KConfigMap"
  for kept :: "'o deployment \<Rightarrow> 'c"
  by unfold_locales (simp add: cluster_only_config_maps)

interpretation cluster_statefulSets: workload_store KStatefulSet cluster_client
  "cl_statefulSet cluster_client" d_statefulSets kept "only_kind KStatefulSet" d_configMaps "only_kind KConfigMap"
  for kept :: "'o stateful_set \<Rightarrow> 'c"
  by unfold_locales (simp add: cluster_only_config_maps)

text \<open>A cluster that holds the ConfigMap of the sample Phare and a bare Deployment and StatefulSet.\<close>

definition workload_cluster :: "unit cluster" where
  "workload_cluster = empty_cluster
     \<lparr>d_configMaps := [(''default'', ''demo-config'') \<mapsto> unowned_config_map],
      d_deployments := [(''default'', ''demo'') \<mapsto> bare_deployment],
      d_statefulSets := [(''default'', ''demo'') \<mapsto>
        workload.extend bare_deployment (stateful_set.fields (Some ()))]\<rparr>"

lemma sample_diff_contract: "diff_contract (x_cmpDiffDeployment sample_ext)"
  using sample_diff.diff_contract_axioms by (simp add: sample_ext_def)

lemma deployment_sample_ok:
  "fst (fst (reconcileDeployment sample_ext cluster_client sample_phare (initial workload_cluster))) = Inr ()"
  by code_simp

lemma config_deployment_sample_ok:
  "fst (fst (reconcileDeployment sample_ext cluster_client config_sample
     (initial (workload_cluster\<lparr>d_deployments := Map.empty\<rparr>)))) = Inr ()"
proof -
  have "fst (newDeployment sample_ext config_sample) \<noteq> None" by code_simp
  then obtain d p where new: "newDeployment sample_ext config_sample = (Some d, p)"
    by (metis not_None_eq prod.collapse)
  have "has_config config_sample" and "meta_key (ph_meta config_sample) = (''default'', ''demo'')"
    and "ph_name config_sample = ''demo''" and "ph_namespace config_sample = ''default''"
    by code_simp+
  moreover have "meta_key (cm_meta unowned_config_map) = (''default'', ''demo-config'')" by code_simp
  ultimately show ?thesis
    using newDeployment_meta [OF new] newDeployment_key [OF new]
    by (simp add: reconcileDeployment_built [OF new] checksum_and_patch_def inject_checksum_def
        hashConfigMapData_def create_or_patch_def send_def cluster_client_def map_client_def Let_def
        workload_cluster_def meta_key_def err_not_found_def)
qed

lemma statefulSet_sample_ok:
  "fst (fst (reconcileStatefulSet sample_ext cluster_client sample_phare (initial workload_cluster))) = Inr ()"
  by code_simp

lemma deployment_outcome:
  assumes store: "workload_store cl (cl_deployment cl) look kept frame look_cm frame_cm"
    and diff: "diff_contract (x_cmpDiffDeployment x)"
    and run: "fst (reconcileDeployment x cl phare s) = (Inr (), t)"
  shows "\<exists>built d w. fst (newDeployment x phare) = Some built \<and>
    (if has_config phare then
       \<exists>cm. look_cm (world s) (config_map_key phare) = Some cm \<and>
         d = with_checksum (sha256_hex (hash_input (cm_data cm))) built
     else d = built) \<and>
    look (world t) (meta_key (ph_meta phare)) = Some w \<and>
    (case look (world s) (meta_key (ph_meta phare)) of
       None \<Rightarrow> kept w = kept d
     | Some old \<Rightarrow> kept w = kept (mergeDeployments d old) \<or>
         w = old \<and> visible podTemplateCompareOptions old =
           visible podTemplateCompareOptions (mergeDeployments d old))"
proof -
  from run obtain built p where new: "newDeployment x phare = (Some built, p)"
    by (cases "newDeployment x phare"; cases "fst (newDeployment x phare)")
      (simp_all add: reconcileDeployment_eq)
  note meta = newDeployment_meta [OF new]
  note run' = run [unfolded reconcileDeployment_built [OF new]]
  have key: "workload_key built = meta_key (ph_meta p)"
    using meta newDeployment_key [OF new] by simp
  obtain d w where d: "if has_config p then \<exists>cm. look_cm (world s) (config_map_key p) = Some cm \<and>
        d = with_checksum (sha256_hex (hash_input (cm_data cm))) built else d = built"
    and w: "look (world t) (meta_key (ph_meta p)) = Some w"
    and upd: "case look (world s) (meta_key (ph_meta p)) of
       None \<Rightarrow> kept w = kept d
     | Some old \<Rightarrow> if deployment_changed x d old then kept w = kept (mergeDeployments d old) else w = old"
    using workload_store.outcome [OF store run' key] by auto
  have "case look (world s) (meta_key (ph_meta phare)) of
       None \<Rightarrow> kept w = kept d
     | Some old \<Rightarrow> kept w = kept (mergeDeployments d old) \<or>
         w = old \<and> visible podTemplateCompareOptions old =
           visible podTemplateCompareOptions (mergeDeployments d old)"
    using upd meta diff_contract.no_diff_visible [OF diff]
    by (auto split: option.splits if_splits)
  with d w meta new show ?thesis
    by (rule_tac x = built in exI, rule_tac x = d in exI, rule_tac x = w in exI) (simp split: if_splits)
qed

text \<open>C8. A Deployment step that succeeds leaves the cluster as the Phare asks. The desired object is the
  built one, with the checksum of the stored ConfigMap's data when the Phare has a Config; what is
  stored is the desired object (created), its merge with the old one (patched), or the old one,
  which then agrees with the merge on everything the comparison sees.\<close>

theorem deployment_converges:
  assumes store: "workload_store cl (cl_deployment cl) look kept frame look_cm frame_cm"
    and diff: "diff_contract (x_cmpDiffDeployment x)"
    and run: "fst (reconcileDeployment x cl phare s) = (Inr (), t)"
  shows "\<exists>built d w. fst (newDeployment x phare) = Some built \<and>
    (if has_config phare then
       \<exists>cm. look_cm (world s) (config_map_key phare) = Some cm \<and>
         d = with_checksum (sha256_hex (hash_input (cm_data cm))) built
     else d = built) \<and>
    look (world t) (meta_key (ph_meta phare)) = Some w \<and>
    (case look (world s) (meta_key (ph_meta phare)) of
       None \<Rightarrow> kept w = kept d
     | Some old \<Rightarrow> kept w = kept (mergeDeployments d old) \<or>
         w = old \<and> visible podTemplateCompareOptions old =
           visible podTemplateCompareOptions (mergeDeployments d old))"
  by (rule deployment_outcome [OF assms])

theorem deployment_converges_witness:
  "\<exists>w. d_deployments (world (snd (fst (reconcileDeployment sample_ext cluster_client sample_phare
      (initial workload_cluster))))) (''default'', ''demo'') = Some w \<and>
    (\<exists>d. w = mergeDeployments d bare_deployment \<or>
      visible podTemplateCompareOptions bare_deployment =
        visible podTemplateCompareOptions (mergeDeployments d bare_deployment))"
proof -
  have key: "meta_key (ph_meta (sample_phare :: unit phare)) = (''default'', ''demo'')" by code_simp
  have old: "d_deployments workload_cluster (''default'', ''demo'') = Some bare_deployment"
    by (simp add: workload_cluster_def)
  from deployment_converges [OF cluster_deployments.workload_store_axioms sample_diff_contract
      run_ok [OF deployment_sample_ok], of "\<lambda>w. w"]
  show ?thesis unfolding key by (auto simp: old)
qed

text \<open>C9. Pods are rolled when the configuration changes: after a Deployment step that succeeds, a Phare with
  a Config has a Deployment whose pod template carries the SHA-256 checksum of the data that its
  ConfigMap holds. The API server stores the annotations as they were sent.\<close>

theorem deployment_carries_checksum:
  assumes store: "workload_store cl (cl_deployment cl) look (\<lambda>w. gm_map (w_tmplAnnotations w)) frame look_cm frame_cm"
    and diff: "diff_contract (x_cmpDiffDeployment x)"
    and run: "fst (reconcileDeployment x cl phare s) = (Inr (), t)"
    and config: "has_config phare"
  shows "\<exists>cm w. look_cm (world s) (config_map_key phare) = Some cm \<and>
    look (world t) (meta_key (ph_meta phare)) = Some w \<and>
    gm_get (w_tmplAnnotations w) ''checksum/config-files'' = Some (sha256_hex (hash_input (cm_data cm)))"
proof -
  from deployment_outcome [OF store diff run] config obtain built d cm w
    where cm: "look_cm (world s) (config_map_key phare) = Some cm"
      and d: "d = with_checksum (sha256_hex (hash_input (cm_data cm))) built"
      and w: "look (world t) (meta_key (ph_meta phare)) = Some w"
      and upd: "case look (world s) (meta_key (ph_meta phare)) of
          None \<Rightarrow> gm_map (w_tmplAnnotations w) = gm_map (w_tmplAnnotations d)
        | Some old \<Rightarrow> gm_map (w_tmplAnnotations w) = gm_map (w_tmplAnnotations (mergeDeployments d old)) \<or>
            w = old \<and> visible podTemplateCompareOptions old =
              visible podTemplateCompareOptions (mergeDeployments d old)"
    by (simp only: if_True) blast
  have "gm_map (w_tmplAnnotations w) = gm_map (w_tmplAnnotations d)"
    using upd visible_fields(1) [of podTemplateCompareOptions w]
      visible_fields(1) [of podTemplateCompareOptions "mergeDeployments d w"]
    by (auto split: option.splits)
  then have "gm_get (w_tmplAnnotations w) k = gm_get (w_tmplAnnotations d) k" for k
    by (simp only: gm_get_def)
  with cm w d show ?thesis by simp
qed

theorem deployment_carries_checksum_witness:
  "\<exists>w. d_deployments (world (snd (fst (reconcileDeployment sample_ext cluster_client config_sample
      (initial (workload_cluster\<lparr>d_deployments := Map.empty\<rparr>)))))) (''default'', ''demo'') = Some w \<and>
    gm_get (w_tmplAnnotations w) ''checksum/config-files'' =
      Some (sha256_hex (hash_input (cm_data unowned_config_map)))"
proof -
  have key: "meta_key (ph_meta config_sample) = (''default'', ''demo'')"
    and ck: "config_map_key config_sample = (''default'', ''demo-config'')" and cfg: "has_config config_sample"
    by code_simp+
  have cm: "d_configMaps workload_cluster (''default'', ''demo-config'') = Some unowned_config_map"
    by (simp add: workload_cluster_def)
  from deployment_carries_checksum [OF cluster_deployments.workload_store_axioms sample_diff_contract
      run_ok [OF config_deployment_sample_ok] cfg]
  show ?thesis unfolding key ck by (auto simp: cm)
qed

text \<open>The Deployment is patched on every reconcile while it has no init containers or no volumes: the
  merge turns the nil slice that the API server returns into an empty one, which \<open>cmp.Diff\<close> tells
  from nil, so the run never finds \<open>no changes\<close>.\<close>

theorem deployment_patched_every_time:
  assumes store: "workload_store cl (cl_deployment cl) look kept frame look_cm frame_cm"
    and diff: "diff_contract (x_cmpDiffDeployment x)"
    and run: "fst (reconcileDeployment x cl phare s) = (Inr (), t)"
    and old: "look (world s) (meta_key (ph_meta phare)) = Some old"
    and nil: "pod_initContainers (w_pod old) = None \<or> pod_volumes (w_pod old) = None"
  shows "Call Patch KDeployment (meta_key (ph_meta phare)) \<in> set (drop (length (calls s)) (calls t))"
proof -
  from run obtain built p where new: "newDeployment x phare = (Some built, p)"
    by (cases "newDeployment x phare"; cases "fst (newDeployment x phare)")
      (simp_all add: reconcileDeployment_eq)
  note meta = newDeployment_meta [OF new]
  have changed: "deployment_changed x d old" for d
  proof
    assume "x_cmpDiffDeployment x podTemplateCompareOptions old (mergeDeployments d old) = []"
    from diff_contract.no_diff_visible [OF diff this]
    have "visible podTemplateCompareOptions old = visible podTemplateCompareOptions (mergeDeployments d old)" .
    then have "(pod_initContainers (w_pod old) = None) = (pod_initContainers (w_pod (mergeDeployments d old)) = None)"
      and "(pod_volumes (w_pod old) = None) = (pod_volumes (w_pod (mergeDeployments d old)) = None)"
      by (metis visible_fields(5), metis visible_fields(4))
    with nil show False by (simp add: merge_pod_fields mergeContainers_keyed mergeVolumes_keyed)
  qed
  have key: "workload_key built = meta_key (ph_meta p)" using meta newDeployment_key [OF new] by simp
  from workload_store.found_trace [OF store run [unfolded reconcileDeployment_built [OF new]] key,
      where evs = "\<lambda>d e. []"] old meta changed
  show ?thesis by auto
qed

theorem deployment_patched_every_time_witness:
  "Call Patch KDeployment (''default'', ''demo'') \<in> set (calls (snd (fst (reconcileDeployment sample_ext
      cluster_client sample_phare (initial workload_cluster)))))"
proof -
  have key: "meta_key (ph_meta (sample_phare :: unit phare)) = (''default'', ''demo'')" by code_simp
  have "d_deployments (world (initial workload_cluster)) (meta_key (ph_meta (sample_phare :: unit phare))) =
      Some bare_deployment"
    unfolding key by (simp add: workload_cluster_def)
  moreover have "pod_initContainers (w_pod bare_deployment) = None \<or> pod_volumes (w_pod bare_deployment) = None"
    by code_simp
  ultimately show ?thesis
    using deployment_patched_every_time [OF cluster_deployments.workload_store_axioms sample_diff_contract
        run_ok [OF deployment_sample_ok]]
    unfolding key by simp
qed

text \<open>C26. The volume claim templates of an existing StatefulSet are never touched; when the Phare asks for
  others, the step records one warning that they cannot be changed, and no other event.\<close>

theorem statefulSet_keeps_claim_templates:
  assumes store: "workload_store cl (cl_statefulSet cl) look ss_volumeClaimTemplates frame look_cm frame_cm"
    and run: "fst (reconcileStatefulSet x cl phare s) = (Inr (), t)"
    and old: "look (world s) (meta_key (ph_meta phare)) = Some old"
  shows "(\<exists>w. look (world t) (meta_key (ph_meta phare)) = Some w \<and>
      ss_volumeClaimTemplates w = ss_volumeClaimTemplates old) \<and>
    events t = events s @
      (if ss_volumeClaimTemplates old = ms_volumeClaimTemplates (ps_microService (ph_spec phare)) then []
       else [\<lparr>ev_type = ''Warning'', ev_reason = ''ImmutableField'', ev_message =
         ''VolumeClaimTemplates for StatefulSet '' @ m_name (w_meta old) @
         '' cannot be changed after creation; delete and recreate to apply new templates''\<rparr>])"
proof -
  from run obtain built p where new: "newStatefulSet x phare = (Some built, p)"
    by (cases "newStatefulSet x phare"; cases "fst (newStatefulSet x phare)")
      (simp_all add: reconcileStatefulSet_eq)
  note meta = newStatefulSet_meta [OF new]
  note run' = run [unfolded reconcileStatefulSet_built [OF new]]
  have key: "workload_key built = meta_key (ph_meta p)" using meta newStatefulSet_key [OF new] by simp
  have vct: "ss_volumeClaimTemplates built = ms_volumeClaimTemplates (ps_microService (ph_spec phare))"
    using newStatefulSet_Some [OF new] by auto
  let ?evs = "\<lambda>d e. if vctEqual (ss_volumeClaimTemplates e) (ss_volumeClaimTemplates d) then []
    else [\<lparr>ev_type = ''Warning'', ev_reason = ''ImmutableField'', ev_message =
         ''VolumeClaimTemplates for StatefulSet '' @ m_name (w_meta e) @
         '' cannot be changed after creation; delete and recreate to apply new templates''\<rparr>]"
  have hook: "events (warn_vct d e u) = events u @ ?evs d e" for d e and u :: "'a st"
    by (simp add: warn_vct_def eventf_def)
  have sum: "ss_volumeClaimTemplates (with_checksum h d) = ss_volumeClaimTemplates d" for h and d :: "'b stateful_set"
    by (simp add: with_checksum_def Let_def)
  from workload_store.found_trace [OF store run' key _ _ _ hook] old meta
  obtain d where "if has_config p then \<exists>h. d = with_checksum h built else d = built"
    and ev: "events t = events s @ ?evs d old" by auto
  then have "ss_volumeClaimTemplates d = ss_volumeClaimTemplates built"
    by (auto simp: sum split: if_splits)
  with ev vct have "events t = events s @ (if ss_volumeClaimTemplates old = ms_volumeClaimTemplates (ps_microService (ph_spec phare)) then []
       else [\<lparr>ev_type = ''Warning'', ev_reason = ''ImmutableField'', ev_message =
         ''VolumeClaimTemplates for StatefulSet '' @ m_name (w_meta old) @
         '' cannot be changed after creation; delete and recreate to apply new templates''\<rparr>])"
    by (simp add: vctEqual_def)
  moreover have "\<exists>w. look (world t) (meta_key (ph_meta phare)) = Some w \<and>
      ss_volumeClaimTemplates w = ss_volumeClaimTemplates old"
    using workload_store.outcome [OF store run' key] old meta
    by (auto simp: mergeStatefulSets_def split: if_splits)
  ultimately show ?thesis by blast
qed

theorem statefulSet_keeps_claim_templates_witness:
  "map ev_reason (events (snd (fst (reconcileStatefulSet sample_ext cluster_client sample_phare
      (initial workload_cluster))))) = [''ImmutableField'']"
proof -
  let ?old = "workload.extend bare_deployment (stateful_set.fields (Some ()))"
  have key: "meta_key (ph_meta (sample_phare :: unit phare)) = (''default'', ''demo'')" by code_simp
  have old: "d_statefulSets (world (initial workload_cluster)) (meta_key (ph_meta (sample_phare :: unit phare))) =
      Some ?old"
    unfolding key by (simp add: workload_cluster_def)
  have "ss_volumeClaimTemplates ?old \<noteq> ms_volumeClaimTemplates (ps_microService (ph_spec (sample_phare :: unit phare)))"
    by code_simp
  with statefulSet_keeps_claim_templates [OF cluster_statefulSets.workload_store_axioms
      run_ok [OF statefulSet_sample_ok] old]
  show ?thesis by simp
qed

end
