(* ===== verification/Cluster.thy ===== *)
theory Cluster
  imports Controller Workload_Laws
begin

text \<open>
  The reconciler against a whole API server. \<open>view\<close> abstracts the state of the server to the eight
  maps of \<open>cluster\<close>, and the locale \<open>api_server\<close> states the contract: each kind keeps the laws of its
  store, a request for one kind leaves the maps of the others alone (nobody else writes while the
  reconciler runs), and a status update replaces the status of a Phare. The locale combines the
  contracts of the sub-reconcilers, so that their results, proved one by one, add up to what a run
  of \<open>Reconcile\<close> leaves behind.
\<close>

section \<open>The state a Phare asks for\<close>

abbreviation controlled :: "'o ext \<Rightarrow> 'o phare \<Rightarrow> owner_ref slice \<Rightarrow> bool" where
  "controlled x phare owners \<equiv> x_isControlledBy x owners (m_uid (ph_meta phare))"

text \<open>The pod template of the workload: the Phare's annotations, and with a Config the checksum of
  the rendered Config.\<close>

definition config_checksum :: "'o ext \<Rightarrow> 'o phare \<Rightarrow> string option" where
  "config_checksum x phare =
     (case ps_toolChain (ph_spec phare) of
        None \<Rightarrow> None
      | Some tc \<Rightarrow>
          if has_config phare then
            Some (sha256_hex (hash_input (Some (fmmap (rendered x (ph_meta phare)) (gm_map (tc_config tc))))))
          else None)"

definition workload_as_desired :: "'o ext \<Rightarrow> 'o phare \<Rightarrow> ('o, 'z) workload_scheme \<Rightarrow> bool" where
  "workload_as_desired x phare w \<longleftrightarrow>
     w_replicas w = Some (ms_replicaCount (ps_microService (ph_spec phare))) \<and>
     gm_map (w_tmplLabels w) = gm_map (pod_labels phare) \<and>
     (\<forall>k. gm_get (w_tmplAnnotations w) k =
        (if k = ''checksum/config-files'' \<and> has_config phare then config_checksum x phare
         else gm_get (pod_annotations phare) k))"

text \<open>The abstract specification of a reconcile: what the cluster holds for the Phare afterwards.\<close>

definition config_map_as_desired :: "'o ext \<Rightarrow> 'o phare \<Rightarrow> 'o cluster \<Rightarrow> bool" where
  "config_map_as_desired x phare c \<longleftrightarrow>
     (case config_toolchain phare of
        None \<Rightarrow> d_configMaps c (config_map_key phare) = None
      | Some tc \<Rightarrow> \<exists>cm. d_configMaps c (config_map_key phare) = Some cm \<and>
          gm_map (cm_data cm) = fmmap (rendered x (ph_meta phare)) (gm_map (tc_config tc)))"

definition service_as_desired :: "'o ext \<Rightarrow> 'o phare \<Rightarrow> 'o cluster \<Rightarrow> bool" where
  "service_as_desired x phare c \<longleftrightarrow>
     (case ps_service (ph_spec phare) of
        None \<Rightarrow> d_services c (phare_key phare) = None
      | Some svc \<Rightarrow> \<exists>d sv. desiredService x phare svc = Some d \<and> d_services c (phare_key phare) = Some sv \<and>
          gm_map (m_labels (s_meta sv)) = gm_map (m_labels (s_meta d)) \<and>
          gm_map (m_annotations (s_meta sv)) = gm_map (m_annotations (s_meta d)))"

definition exposed_as_desired :: "'o ext \<Rightarrow> 'o phare \<Rightarrow> 'o cluster \<Rightarrow> bool" where
  "exposed_as_desired x phare c \<longleftrightarrow>
     (let tc = ps_toolChain (ph_spec phare) in
      (if Option.bind tc tc_httpRoute = None
       then \<forall>r. d_httpRoutes c (phare_key phare) = Some r \<longrightarrow> \<not> controlled x phare (m_owners (hr_meta r))
       else d_httpRoutes c (phare_key phare) \<noteq> None) \<and>
      (if Option.bind tc tc_gcpBackendPolicy = None
       then \<forall>u. d_gcps c (phare_key phare) = Some u \<longrightarrow> \<not> controlled x phare (u_owners u)
       else d_gcps c (phare_key phare) \<noteq> None) \<and>
      (if Option.bind tc tc_healthCheckPolicy = None
       then \<forall>u. d_hcps c (phare_key phare) = Some u \<longrightarrow> \<not> controlled x phare (u_owners u)
       else d_hcps c (phare_key phare) \<noteq> None))"

definition microservice_as_desired :: "'o ext \<Rightarrow> 'o phare \<Rightarrow> 'o cluster \<Rightarrow> bool" where
  "microservice_as_desired x phare c \<longleftrightarrow>
     ms_kind (ps_microService (ph_spec phare)) = ''Deployment'' \<and>
       (\<exists>w. d_deployments c (phare_key phare) = Some w \<and> workload_as_desired x phare w) \<and>
       (\<forall>w. d_statefulSets c (phare_key phare) = Some w \<longrightarrow> \<not> controlled x phare (m_owners (w_meta w))) \<or>
     ms_kind (ps_microService (ph_spec phare)) = ''StatefulSet'' \<and>
       (\<exists>w. d_statefulSets c (phare_key phare) = Some w \<and> workload_as_desired x phare w) \<and>
       (\<forall>w. d_deployments c (phare_key phare) = Some w \<longrightarrow> \<not> controlled x phare (m_owners (w_meta w)))"

definition as_desired :: "'o ext \<Rightarrow> 'o phare \<Rightarrow> 'o cluster \<Rightarrow> bool" where
  "as_desired x phare c \<longleftrightarrow> config_map_as_desired x phare c \<and> service_as_desired x phare c \<and>
     exposed_as_desired x phare c \<and> microservice_as_desired x phare c"

lemma as_desired_cong:
  "d_configMaps c = d_configMaps c' \<Longrightarrow> config_map_as_desired x phare c = config_map_as_desired x phare c'"
  "d_services c = d_services c' \<Longrightarrow> service_as_desired x phare c = service_as_desired x phare c'"
  by (simp_all only: config_map_as_desired_def service_as_desired_def)

section \<open>Which maps a run changes\<close>

definition only_kinds :: "kind set \<Rightarrow> 'o cluster \<Rightarrow> 'o cluster \<Rightarrow> bool" where
  "only_kinds K w w' \<longleftrightarrow>
     (KPhare \<notin> K \<longrightarrow> d_phares w' = d_phares w) \<and>
     (KDeployment \<notin> K \<longrightarrow> d_deployments w' = d_deployments w) \<and>
     (KStatefulSet \<notin> K \<longrightarrow> d_statefulSets w' = d_statefulSets w) \<and>
     (KService \<notin> K \<longrightarrow> d_services w' = d_services w) \<and>
     (KConfigMap \<notin> K \<longrightarrow> d_configMaps w' = d_configMaps w) \<and>
     (KHTTPRoute \<notin> K \<longrightarrow> d_httpRoutes w' = d_httpRoutes w) \<and>
     (KGCPBackendPolicy \<notin> K \<longrightarrow> d_gcps w' = d_gcps w) \<and>
     (KHealthCheckPolicy \<notin> K \<longrightarrow> d_hcps w' = d_hcps w)"

lemma only_kinds_refl [simp]: "only_kinds K w w"
  by (simp add: only_kinds_def)

lemma only_kinds_trans: "only_kinds K w w' \<Longrightarrow> only_kinds K w' w'' \<Longrightarrow> only_kinds K w w''"
  by (simp add: only_kinds_def)

lemma only_kind_kinds: "only_kind k w w' \<Longrightarrow> k \<in> K \<Longrightarrow> only_kinds K w w'"
  unfolding only_kind_def only_kinds_def by metis

lemma only_kinds_mono: "only_kinds K w w' \<Longrightarrow> K \<subseteq> L \<Longrightarrow> only_kinds L w w'"
  unfolding only_kinds_def by blast

section \<open>The contract\<close>

definition kept_workload :: "('o, 'z) workload_scheme \<Rightarrow> int32 option \<times> (string, string) fmap \<times> (string, string) fmap" where
  "kept_workload w = (w_replicas w, gm_map (w_tmplLabels w), gm_map (w_tmplAnnotations w))"

locale api_server =
  fixes cl :: "('w, 'o) client" and view :: "'w \<Rightarrow> 'o cluster"
  assumes phare_laws: "store_client (cl_phare cl) (\<lambda>w. d_phares (view w)) phare_key (\<lambda>_. ())
      (\<lambda>w w'. only_kind KPhare (view w) (view w'))"
    and service_laws: "service_store cl (\<lambda>w. d_services (view w)) (\<lambda>_. ())
      (\<lambda>w w'. only_kind KService (view w) (view w'))"
    and config_map_laws: "config_map_store cl (\<lambda>w. d_configMaps (view w))
      (\<lambda>w w'. only_kind KConfigMap (view w) (view w'))"
    and route_laws: "store_client (cl_httpRoute cl) (\<lambda>w. d_httpRoutes (view w)) route_key (\<lambda>_. ())
      (\<lambda>w w'. only_kind KHTTPRoute (view w) (view w'))"
    and gcp_laws: "store_client (cl_gcpBackendPolicy cl) (\<lambda>w. d_gcps (view w)) unstructured_key (\<lambda>_. ())
      (\<lambda>w w'. only_kind KGCPBackendPolicy (view w) (view w'))"
    and hcp_laws: "store_client (cl_healthCheckPolicy cl) (\<lambda>w. d_hcps (view w)) unstructured_key (\<lambda>_. ())
      (\<lambda>w w'. only_kind KHealthCheckPolicy (view w) (view w'))"
    and deployment_laws: "store_client (cl_deployment cl) (\<lambda>w. d_deployments (view w)) workload_key
      kept_workload (\<lambda>w w'. only_kind KDeployment (view w) (view w'))"
    and statefulSet_laws: "store_client (cl_statefulSet cl) (\<lambda>w. d_statefulSets (view w)) workload_key
      kept_workload (\<lambda>w w'. only_kind KStatefulSet (view w) (view w'))"
    and status_ok: "rc_status_update (cl_phare cl) p w = (Inr u, w') \<Longrightarrow>
      only_kind KPhare (view w) (view w') \<and>
      (\<exists>y. ph_status y = ph_status p \<and> d_phares (view w') = (d_phares (view w))(phare_key p \<mapsto> y))"
    and route_no_match: "rc_get (cl_httpRoute cl) k w = (Inl e, w') \<Longrightarrow> is_no_match e \<Longrightarrow>
      d_httpRoutes (view w) k = None"
    and gcp_no_match: "rc_get (cl_gcpBackendPolicy cl) k w = (Inl e, w') \<Longrightarrow> is_no_match e \<Longrightarrow>
      d_gcps (view w) k = None"
    and hcp_no_match: "rc_get (cl_healthCheckPolicy cl) k w = (Inl e, w') \<Longrightarrow> is_no_match e \<Longrightarrow>
      d_hcps (view w) k = None"

sublocale api_server \<subseteq> phares: store_client "cl_phare cl" "\<lambda>w. d_phares (view w)" phare_key "\<lambda>_. ()"
  "\<lambda>w w'. only_kind KPhare (view w) (view w')"
  by (rule phare_laws)

sublocale api_server \<subseteq> services: service_store cl "\<lambda>w. d_services (view w)" "\<lambda>_. ()"
  "\<lambda>w w'. only_kind KService (view w) (view w')"
  by (rule service_laws)

sublocale api_server \<subseteq> routes: store_client "cl_httpRoute cl" "\<lambda>w. d_httpRoutes (view w)" route_key
  "\<lambda>_. ()" "\<lambda>w w'. only_kind KHTTPRoute (view w) (view w')"
  by (rule route_laws)

sublocale api_server \<subseteq> gcps: store_client "cl_gcpBackendPolicy cl" "\<lambda>w. d_gcps (view w)" unstructured_key
  "\<lambda>_. ()" "\<lambda>w w'. only_kind KGCPBackendPolicy (view w) (view w')"
  by (rule gcp_laws)

sublocale api_server \<subseteq> hcps: store_client "cl_healthCheckPolicy cl" "\<lambda>w. d_hcps (view w)" unstructured_key
  "\<lambda>_. ()" "\<lambda>w w'. only_kind KHealthCheckPolicy (view w) (view w')"
  by (rule hcp_laws)

sublocale api_server \<subseteq> deployments: workload_store KDeployment cl "cl_deployment cl"
  "\<lambda>w. d_deployments (view w)" kept_workload "\<lambda>w w'. only_kind KDeployment (view w) (view w')"
  "\<lambda>w. d_configMaps (view w)" "\<lambda>w w'. only_kind KConfigMap (view w) (view w')"
  by (intro workload_store.intro deployment_laws config_map_laws workload_store_axioms.intro)
    (simp add: only_kind_def)

sublocale api_server \<subseteq> statefulSets: workload_store KStatefulSet cl "cl_statefulSet cl"
  "\<lambda>w. d_statefulSets (view w)" kept_workload "\<lambda>w w'. only_kind KStatefulSet (view w) (view w')"
  "\<lambda>w. d_configMaps (view w)" "\<lambda>w w'. only_kind KConfigMap (view w) (view w')"
  by (intro workload_store.intro statefulSet_laws config_map_laws workload_store_axioms.intro)
    (simp add: only_kind_def)

sublocale api_server \<subseteq> across: run_relation "\<lambda>s t. only_kinds K (view (world s)) (view (world t))" for K
  by unfold_locales (auto intro: only_kinds_trans)

section \<open>Each step changes its own maps\<close>

context api_server begin

lemmas cm_store = config_map_store.axioms [OF config_map_laws]

lemma config_map_only:
  "only_kinds {KConfigMap} (view (world s)) (view (world (snd (reconcileConfigMap x cl phare s))))"
  using config_map_store.runs_on [OF config_map_laws, of phare s x]
  by (auto simp: store_client.run_on_def [OF cm_store] intro: only_kind_kinds)

lemma service_only:
  "req = phare_key phare \<Longrightarrow>
   only_kinds {KService} (view (world s)) (view (world (snd (reconcileService x cl req phare s))))"
  using services.runs_on [of req phare s x] by (auto simp: services.run_on_def intro: only_kind_kinds)

lemma route_runs_on:
  assumes "req = phare_key phare"
  shows "routes.run_on req s (snd (reconcileHttpRoute x cl req phare hr s))"
proof (cases "desiredHttpRoute x phare hr")
  case None
  then show ?thesis by (simp add: reconcileHttpRoute_def)
next
  case (Some d)
  show ?thesis
    unfolding reconcileHttpRoute_built [OF Some]
    by (rule routes.create_or_patch_runs_on) (simp_all add: desiredHttpRoute_Some [OF Some] assms)
qed

lemma gcp_runs_on:
  assumes "req = phare_key phare"
  shows "gcps.run_on req s (snd (reconcileGCPBackendPolicy x cl req phare s))"
proof (cases "desiredGCPBackendPolicy x phare")
  case None
  then show ?thesis by (simp add: reconcileGCPBackendPolicy_def)
next
  case (Some d)
  show ?thesis
    unfolding reconcileGCPBackendPolicy_built [OF Some]
    by (rule gcps.create_or_patch_runs_on) (use desiredGCP_Some [OF Some] patched_policy_key assms in auto)
qed

lemma hcp_runs_on:
  assumes "req = phare_key phare"
  shows "hcps.run_on req s (snd (reconcileHealthCheckPolicy x cl req phare s))"
proof (cases "desiredHealthCheckPolicy x phare")
  case None
  then show ?thesis by (simp add: reconcileHealthCheckPolicy_def)
next
  case (Some d)
  show ?thesis
    unfolding reconcileHealthCheckPolicy_built [OF Some]
    by (rule hcps.create_or_patch_runs_on) (use desiredHCP_Some [OF Some] patched_policy_key assms in auto)
qed

lemma handle_route_runs_on:
  assumes "req = phare_key phare"
  shows "routes.run_on req s (snd (handleHTTPRoute x cl req phare s))"
proof -
  have "routes.run_on req s (snd (cleanupHTTPRoute x cl phare s))"
    unfolding cleanupHTTPRoute_def
    by (intro routes.on_object.along routes.deleteIfOwned_runs_on [of "ph_namespace phare" "ph_name phare",
          folded meta_key_def, folded assms]) simp_all
  then show ?thesis using route_runs_on [OF assms] by (simp add: handleHTTPRoute_def split: option.splits)
qed

lemma handle_gcp_runs_on:
  assumes "req = phare_key phare"
  shows "gcps.run_on req s (snd (handleGCPBackendPolicy x cl req phare s))"
proof -
  have "gcps.run_on req s (snd (cleanupGCPBackendPolicy x cl phare s))"
    unfolding cleanupGCPBackendPolicy_def
    by (intro gcps.on_object.along gcps.deleteIfOwned_runs_on [of "ph_namespace phare" "ph_name phare",
          folded meta_key_def, folded assms]) simp_all
  then show ?thesis using gcp_runs_on [OF assms] by (simp add: handleGCPBackendPolicy_def split: option.splits)
qed

lemma handle_hcp_runs_on:
  assumes "req = phare_key phare"
  shows "hcps.run_on req s (snd (handleHealthCheckPolicy x cl req phare s))"
proof -
  have "hcps.run_on req s (snd (cleanupHealthCheckPolicy x cl phare s))"
    unfolding cleanupHealthCheckPolicy_def
    by (intro hcps.on_object.along hcps.deleteIfOwned_runs_on [of "ph_namespace phare" "ph_name phare",
          folded meta_key_def, folded assms]) simp_all
  then show ?thesis using hcp_runs_on [OF assms] by (simp add: handleHealthCheckPolicy_def split: option.splits)
qed

lemma handle_only:
  assumes "req = phare_key phare"
  shows "only_kinds {KHTTPRoute} (view (world s)) (view (world (snd (handleHTTPRoute x cl req phare s))))"
    and "only_kinds {KGCPBackendPolicy} (view (world s)) (view (world (snd (handleGCPBackendPolicy x cl req phare s))))"
    and "only_kinds {KHealthCheckPolicy} (view (world s)) (view (world (snd (handleHealthCheckPolicy x cl req phare s))))"
  using handle_route_runs_on [OF assms, of s x] handle_gcp_runs_on [OF assms, of s x]
    handle_hcp_runs_on [OF assms, of s x]
  by (auto simp: routes.run_on_def gcps.run_on_def hcps.run_on_def intro: only_kind_kinds)


text \<open>The workload step changes Deployments and StatefulSets.\<close>

lemma inject_only: "only_kinds {} (view (world s)) (view (world (snd (inject_checksum cl p d s))))"
proof -
  obtain g t where get: "get_cm cl (config_map_key p) s = (g, t)" by fastforce
  have "d_configMaps (view (world t)) = d_configMaps (view (world s)) \<and>
      only_kind KConfigMap (view (world s)) (view (world t))"
    using store_client.sent_get_found [OF cm_store] store_client.sent_get_failed [OF cm_store] get
    by (cases g) blast+
  then have "only_kinds {} (view (world s)) (view (world t))"
    by (simp add: only_kind_def only_kinds_def)
  with get show ?thesis
    by (auto simp: inject_checksum_def hashConfigMapData_def split: sum.splits)
qed

lemma deployment_tail_only:
  assumes "workload_key desired = phare_key p"
  shows "only_kinds {KDeployment} (view (world s)) (view (world (snd (checksum_and_patch KDeployment cl
    (cl_deployment cl) p desired (\<lambda>d e s. s) (deployment_changed x) mergeDeployments s))))"
  unfolding checksum_and_patch_def
proof (rule across.case_step [OF only_kinds_mono [OF inject_only]])
  fix d t assume "inject_checksum cl p desired s = (Inr d, t)"
  then have "workload_key d = (ph_namespace p, m_name (w_meta d))"
    using assms by (simp add: inject_checksum_key meta_key_def)
  then have "deployments.objects.run_on (ph_namespace p, m_name (w_meta d)) t
      (snd (create_or_patch KDeployment (cl_deployment cl) workload_key (ph_namespace p, m_name (w_meta d)) d
        (\<lambda>e s. s) (\<lambda>s. s) (deployment_changed x d) (mergeDeployments d) None t))"
    by (rule deployments.objects.create_or_patch_runs_on) simp_all
  then show "only_kinds {KDeployment} (view (world t)) (view (world (snd (create_or_patch KDeployment
      (cl_deployment cl) workload_key (ph_namespace p, m_name (w_meta d)) d
        (\<lambda>e s. s) (\<lambda>s. s) (deployment_changed x d) (mergeDeployments d) None t))))"
    by (auto simp: deployments.objects.run_on_def intro: only_kind_kinds)
qed simp_all

lemma statefulSet_tail_only:
  assumes "workload_key desired = phare_key p"
  shows "only_kinds {KStatefulSet} (view (world s)) (view (world (snd (checksum_and_patch KStatefulSet cl
    (cl_statefulSet cl) p desired warn_vct (statefulSet_changed x) mergeStatefulSets s))))"
  unfolding checksum_and_patch_def
proof (rule across.case_step [OF only_kinds_mono [OF inject_only]])
  fix d t assume "inject_checksum cl p desired s = (Inr d, t)"
  then have "workload_key d = (ph_namespace p, m_name (w_meta d))"
    using assms by (simp add: inject_checksum_key meta_key_def)
  then have "statefulSets.objects.run_on (ph_namespace p, m_name (w_meta d)) t
      (snd (create_or_patch KStatefulSet (cl_statefulSet cl) workload_key (ph_namespace p, m_name (w_meta d)) d
        (warn_vct d) (\<lambda>s. s) (statefulSet_changed x d) (mergeStatefulSets d) None t))"
    by (rule statefulSets.objects.create_or_patch_runs_on) simp_all
  then show "only_kinds {KStatefulSet} (view (world t)) (view (world (snd (create_or_patch KStatefulSet
      (cl_statefulSet cl) workload_key (ph_namespace p, m_name (w_meta d)) d
        (warn_vct d) (\<lambda>s. s) (statefulSet_changed x d) (mergeStatefulSets d) None t))))"
    by (auto simp: statefulSets.objects.run_on_def intro: only_kind_kinds)
qed simp_all

lemma deployment_only:
  "only_kinds {KDeployment} (view (world s)) (view (world (snd (fst (reconcileDeployment x cl phare s)))))"
proof (cases "newDeployment x phare"; cases "fst (newDeployment x phare)")
  fix o' p d assume "newDeployment x phare = (o', p)" "fst (newDeployment x phare) = Some d"
  then have new: "newDeployment x phare = (Some d, p)" by simp
  show ?thesis
    unfolding reconcileDeployment_built [OF new]
    using newDeployment_key [OF new] newDeployment_meta [OF new] by (intro deployment_tail_only) simp
qed (simp add: reconcileDeployment_eq)

lemma statefulSet_only:
  "only_kinds {KStatefulSet} (view (world s)) (view (world (snd (fst (reconcileStatefulSet x cl phare s)))))"
proof (cases "newStatefulSet x phare"; cases "fst (newStatefulSet x phare)")
  fix o' p d assume "newStatefulSet x phare = (o', p)" "fst (newStatefulSet x phare) = Some d"
  then have new: "newStatefulSet x phare = (Some d, p)" by simp
  show ?thesis
    unfolding reconcileStatefulSet_built [OF new]
    using newStatefulSet_key [OF new] newStatefulSet_meta [OF new] by (intro statefulSet_tail_only) simp
qed (simp add: reconcileStatefulSet_eq)

lemma stale_only:
  "only_kinds {KStatefulSet} (view (world s)) (view (world (snd (deleteIfExists x KStatefulSet
     (cl_statefulSet cl) workload_key owners (ph_name phare) (ph_namespace phare) phare s))))"
  "only_kinds {KDeployment} (view (world s)) (view (world (snd (deleteIfExists x KDeployment
     (cl_deployment cl) workload_key owners' (ph_name phare) (ph_namespace phare) phare s))))"
  using statefulSets.objects.deleteIfExists_runs_on [of "ph_namespace phare" "ph_name phare" s x KStatefulSet owners phare]
    deployments.objects.deleteIfExists_runs_on [of "ph_namespace phare" "ph_name phare" s x KDeployment owners' phare]
  by (auto simp: statefulSets.objects.run_on_def deployments.objects.run_on_def intro: only_kind_kinds)

lemma workload_only:
  "only_kinds {KDeployment, KStatefulSet} (view (world s))
     (view (world (snd (fst (reconcileMicroService x cl phare s)))))"
proof -
  have d: "only_kinds {KDeployment, KStatefulSet} (view (world t)) (view (world (snd (fst (reconcileDeployment x cl phare t)))))"
    and e: "only_kinds {KDeployment, KStatefulSet} (view (world t)) (view (world (snd (fst (reconcileStatefulSet x cl phare t)))))"
    for t
    by (auto intro: only_kinds_mono [OF deployment_only] only_kinds_mono [OF statefulSet_only])
  note st = only_kinds_mono [OF stale_only(1), of "{KDeployment, KStatefulSet}"]
    only_kinds_mono [OF stale_only(2), of "{KDeployment, KStatefulSet}"]
  have nested: "only_kinds K (view (world s)) (view (world (snd (fst
      (case p of (Inl e, t) \<Rightarrow> ((Inl e, t), phare) | (Inr u, t) \<Rightarrow> L t)))))"
    if "only_kinds K (view (world s)) (view (world (snd p)))"
      and "\<And>t. only_kinds K (view (world t)) (view (world (snd (fst (L t)))))"
    for K and p :: "(go_error + unit) \<times> 'w st" and L :: "'w st \<Rightarrow> ((go_error + unit) \<times> 'w st) \<times> 'o phare"
    using that by (cases p; cases "fst p") (auto intro: only_kinds_trans)
  show ?thesis
    unfolding reconcileMicroService_def using d e st by (auto intro!: nested)
qed


text \<open>Each step that succeeds establishes its part of the specification.\<close>

lemma config_map_done:
  assumes "reconcileConfigMap x cl phare s = (Inr (), t)"
  shows "config_map_as_desired x phare (view (world t))"
  using config_map_store.converges [OF config_map_laws assms] by (simp add: config_map_as_desired_def)

lemma service_done:
  assumes "reconcileService x cl req phare s = (Inr (), t)" "req = phare_key phare"
  shows "service_as_desired x phare (view (world t))"
proof (cases "ps_service (ph_spec phare)")
  case None
  with services.removed [OF assms(1) None] assms(2) show ?thesis by (simp add: service_as_desired_def)
next
  case (Some svc)
  with services.stored [OF assms Some] assms(2) show ?thesis by (auto simp: service_as_desired_def)
qed

lemma route_done:
  assumes "handleHTTPRoute x cl req phare s = (Inr (), t)" "req = phare_key phare"
  shows "if Option.bind (ps_toolChain (ph_spec phare)) tc_httpRoute = None
    then \<forall>r. d_httpRoutes (view (world t)) (phare_key phare) = Some r \<longrightarrow> \<not> controlled x phare (m_owners (hr_meta r))
    else d_httpRoutes (view (world t)) (phare_key phare) \<noteq> None"
proof (cases "Option.bind (ps_toolChain (ph_spec phare)) tc_httpRoute")
  case None
  then have "handleHTTPRoute x cl req phare s = cleanupHTTPRoute x cl phare s"
    by (auto simp: handleHTTPRoute_def split: option.splits)
  with assms(1) obtain d u where "deleteIfOwned x KHTTPRoute (cl_httpRoute cl) route_key
      (\<lambda>r. m_owners (hr_meta r)) (ph_name phare) (ph_namespace phare) phare s = (Inr d, u)"
    and "world t = world u"
    by (auto simp: cleanupHTTPRoute_def split: prod.splits sum.splits if_splits)
  with routes.deleteIfOwned_gone [OF this(1)] route_no_match None show ?thesis by (simp add: meta_key_def)
next
  case (Some hr)
  then have run: "reconcileHttpRoute x cl req phare hr s = (Inr (), t)"
    using assms(1) by (auto simp: handleHTTPRoute_def bind_eq_Some_conv)
  then obtain d where d: "desiredHttpRoute x phare hr = Some d"
    by (cases "desiredHttpRoute x phare hr") (simp_all add: reconcileHttpRoute_def)
  have "\<exists>r. d_httpRoutes (view (world t)) req = Some r"
    using routes.create_or_patch_outcome [OF run [unfolded reconcileHttpRoute_built [OF d]]]
      desiredHttpRoute_Some [OF d] assms(2) by auto
  with Some assms(2) show ?thesis by simp
qed

lemma gcp_done:
  assumes "handleGCPBackendPolicy x cl req phare s = (Inr (), t)" "req = phare_key phare"
  shows "if Option.bind (ps_toolChain (ph_spec phare)) tc_gcpBackendPolicy = None
    then \<forall>u. d_gcps (view (world t)) (phare_key phare) = Some u \<longrightarrow> \<not> controlled x phare (u_owners u)
    else d_gcps (view (world t)) (phare_key phare) \<noteq> None"
proof (cases "Option.bind (ps_toolChain (ph_spec phare)) tc_gcpBackendPolicy")
  case None
  then have "handleGCPBackendPolicy x cl req phare s = cleanupGCPBackendPolicy x cl phare s"
    by (auto simp: handleGCPBackendPolicy_def split: option.splits)
  with assms(1) obtain d u where "deleteIfOwned x KGCPBackendPolicy (cl_gcpBackendPolicy cl) unstructured_key
      u_owners (ph_name phare) (ph_namespace phare) phare s = (Inr d, u)"
    and "world t = world u"
    by (auto simp: cleanupGCPBackendPolicy_def split: prod.splits sum.splits if_splits)
  with gcps.deleteIfOwned_gone [OF this(1)] gcp_no_match None show ?thesis by (simp add: meta_key_def)
next
  case (Some p)
  then have run: "reconcileGCPBackendPolicy x cl req phare s = (Inr (), t)"
    using assms(1) by (auto simp: handleGCPBackendPolicy_def bind_eq_Some_conv)
  then obtain d where d: "desiredGCPBackendPolicy x phare = Some d"
    by (cases "desiredGCPBackendPolicy x phare") (simp_all add: reconcileGCPBackendPolicy_def)
  have "\<exists>u. d_gcps (view (world t)) req = Some u"
    using gcps.create_or_patch_outcome [OF run [unfolded reconcileGCPBackendPolicy_built [OF d]]]
      desiredGCP_Some [OF d] assms(2) by auto
  with Some assms(2) show ?thesis by simp
qed

lemma hcp_done:
  assumes "handleHealthCheckPolicy x cl req phare s = (Inr (), t)" "req = phare_key phare"
  shows "if Option.bind (ps_toolChain (ph_spec phare)) tc_healthCheckPolicy = None
    then \<forall>u. d_hcps (view (world t)) (phare_key phare) = Some u \<longrightarrow> \<not> controlled x phare (u_owners u)
    else d_hcps (view (world t)) (phare_key phare) \<noteq> None"
proof (cases "Option.bind (ps_toolChain (ph_spec phare)) tc_healthCheckPolicy")
  case None
  then have "handleHealthCheckPolicy x cl req phare s = cleanupHealthCheckPolicy x cl phare s"
    by (auto simp: handleHealthCheckPolicy_def split: option.splits)
  with assms(1) obtain d u where "deleteIfOwned x KHealthCheckPolicy (cl_healthCheckPolicy cl) unstructured_key
      u_owners (ph_name phare) (ph_namespace phare) phare s = (Inr d, u)"
    and "world t = world u"
    by (auto simp: cleanupHealthCheckPolicy_def split: prod.splits sum.splits if_splits)
  with hcps.deleteIfOwned_gone [OF this(1)] hcp_no_match None show ?thesis by (simp add: meta_key_def)
next
  case (Some p)
  then have run: "reconcileHealthCheckPolicy x cl req phare s = (Inr (), t)"
    using assms(1) by (auto simp: handleHealthCheckPolicy_def bind_eq_Some_conv)
  then obtain d where d: "desiredHealthCheckPolicy x phare = Some d"
    by (cases "desiredHealthCheckPolicy x phare") (simp_all add: reconcileHealthCheckPolicy_def)
  have "\<exists>u. d_hcps (view (world t)) req = Some u"
    using hcps.create_or_patch_outcome [OF run [unfolded reconcileHealthCheckPolicy_built [OF d]]]
      desiredHCP_Some [OF d] assms(2) by auto
  with Some assms(2) show ?thesis by simp
qed


lemma desired_workload:
  assumes cm: "config_map_as_desired x phare (view (world s))"
    and d: "if has_config phare then \<exists>cm. d_configMaps (view (world s)) (config_map_key phare) = Some cm \<and>
        d = with_checksum (sha256_hex (hash_input (cm_data cm))) built else d = built"
    and built: "w_replicas built = Some (ms_replicaCount (ps_microService (ph_spec phare)))"
      "w_tmplLabels built = pod_labels phare" "w_tmplAnnotations built = pod_annotations phare"
    and w: "kept_workload w = kept_workload d"
  shows "workload_as_desired x phare w"
proof -
  have eq: "w_replicas w = w_replicas d" "gm_map (w_tmplLabels w) = gm_map (w_tmplLabels d)"
    "\<And>k. gm_get (w_tmplAnnotations w) k = gm_get (w_tmplAnnotations d) k"
    using w by (simp_all add: kept_workload_def gm_get_def)
  show ?thesis
  proof (cases "has_config phare")
    case False
    with d eq built show ?thesis by (simp add: workload_as_desired_def)
  next
    case True
    then obtain tc where "ps_toolChain (ph_spec phare) = Some tc" "0 < gm_len (tc_config tc)"
      by (auto simp: has_config_def split: option.splits)
    moreover from this(2) have "tc_config tc \<noteq> None" by (cases "tc_config tc") simp_all
    ultimately have tc: "ps_toolChain (ph_spec phare) = Some tc" "config_toolchain phare = Some tc"
      by (simp_all add: config_toolchain_def)
    from d True obtain cm where c: "d_configMaps (view (world s)) (config_map_key phare) = Some cm"
      and d: "d = with_checksum (sha256_hex (hash_input (cm_data cm))) built" by auto
    from cm c tc have "hash_input (cm_data cm) =
        hash_input (Some (fmmap (rendered x (ph_meta phare)) (gm_map (tc_config tc))))"
      by (intro hash_input_cong) (simp add: config_map_as_desired_def)
    with True tc d eq built show ?thesis by (simp add: workload_as_desired_def config_checksum_def)
  qed
qed

lemma merged_kept:
  "kept_workload (mergeDeployments d e) = kept_workload d"
  "kept_workload (mergeStatefulSets d' e') = kept_workload d'"
  by (simp_all add: kept_workload_def mergeDeployments_def mergeStatefulSets_def)

lemma visible_kept: "visible opts a = visible opts b \<Longrightarrow> kept_workload a = kept_workload b"
  unfolding kept_workload_def by (metis visible_fields(1-3))

lemma deployment_done:
  assumes diff: "diff_contract (x_cmpDiffDeployment x)"
    and run: "fst (reconcileDeployment x cl phare s) = (Inr (), t)"
    and cm: "config_map_as_desired x phare (view (world s))"
  shows "\<exists>w. d_deployments (view (world t)) (phare_key phare) = Some w \<and> workload_as_desired x phare w"
proof -
  from run obtain built p where new: "newDeployment x phare = (Some built, p)"
    by (cases "newDeployment x phare"; cases "fst (newDeployment x phare)")
      (simp_all add: reconcileDeployment_eq)
  note meta = newDeployment_meta [OF new]
  have key: "workload_key built = phare_key p" using meta newDeployment_key [OF new] by simp
  obtain d w where d: "if has_config p then \<exists>cm. d_configMaps (view (world s)) (config_map_key p) = Some cm \<and>
        d = with_checksum (sha256_hex (hash_input (cm_data cm))) built else d = built"
    and w: "d_deployments (view (world t)) (phare_key p) = Some w"
    and upd: "case d_deployments (view (world s)) (phare_key p) of
       None \<Rightarrow> kept_workload w = kept_workload d
     | Some old \<Rightarrow> if deployment_changed x d old then kept_workload w = kept_workload (mergeDeployments d old)
         else w = old"
    using deployments.outcome [OF run [unfolded reconcileDeployment_built [OF new]] key] by auto
  from upd have "kept_workload w = kept_workload d"
    by (auto simp: merged_kept split: option.splits if_splits
        dest!: diff_contract.no_diff_visible [OF diff] visible_kept)
  then have "workload_as_desired x phare w"
    using newDeployment_Some [OF new] d meta by (intro desired_workload [OF cm, of d built]) auto
  with w meta show ?thesis by simp
qed

lemma statefulSet_done:
  assumes diff: "diff_contract (x_cmpDiffStatefulSet x)"
    and run: "fst (reconcileStatefulSet x cl phare s) = (Inr (), t)"
    and cm: "config_map_as_desired x phare (view (world s))"
  shows "\<exists>w. d_statefulSets (view (world t)) (phare_key phare) = Some w \<and> workload_as_desired x phare w"
proof -
  from run obtain built p where new: "newStatefulSet x phare = (Some built, p)"
    by (cases "newStatefulSet x phare"; cases "fst (newStatefulSet x phare)")
      (simp_all add: reconcileStatefulSet_eq)
  note meta = newStatefulSet_meta [OF new]
  have key: "workload_key built = phare_key p" using meta newStatefulSet_key [OF new] by simp
  obtain d w where d: "if has_config p then \<exists>cm. d_configMaps (view (world s)) (config_map_key p) = Some cm \<and>
        d = with_checksum (sha256_hex (hash_input (cm_data cm))) built else d = built"
    and w: "d_statefulSets (view (world t)) (phare_key p) = Some w"
    and upd: "case d_statefulSets (view (world s)) (phare_key p) of
       None \<Rightarrow> kept_workload w = kept_workload d
     | Some old \<Rightarrow> if statefulSet_changed x d old then kept_workload w = kept_workload (mergeStatefulSets d old)
         else w = old"
    using statefulSets.outcome [OF run [unfolded reconcileStatefulSet_built [OF new]] key] by auto
  from upd have "kept_workload w = kept_workload d"
    by (auto simp: merged_kept split: option.splits if_splits
        dest!: diff_contract.no_diff_visible [OF diff] visible_kept)
  then have "workload_as_desired x phare w"
    using newStatefulSet_Some [OF new] d meta by (intro desired_workload [OF cm, of d built]) auto
  with w meta show ?thesis by simp
qed

lemma microservice_done:
  assumes diff: "diff_contract (x_cmpDiffDeployment x)" "diff_contract (x_cmpDiffStatefulSet x)"
    and run: "fst (reconcileMicroService x cl phare s) = (Inr (), t)"
    and cm: "config_map_as_desired x phare (view (world s))"
  shows "microservice_as_desired x phare (view (world t))"
proof -
  let ?owners = "\<lambda>w. m_owners (w_meta w)"
  from run consider (deployment) u where "ms_kind (ps_microService (ph_spec phare)) = ''Deployment''"
      "deleteIfExists x KStatefulSet (cl_statefulSet cl) workload_key ?owners (ph_name phare)
        (ph_namespace phare) phare s = (Inr (), u)" "fst (reconcileDeployment x cl phare u) = (Inr (), t)"
    | (statefulSet) u where "ms_kind (ps_microService (ph_spec phare)) = ''StatefulSet''"
      "deleteIfExists x KDeployment (cl_deployment cl) workload_key ?owners (ph_name phare)
        (ph_namespace phare) phare s = (Inr (), u)" "fst (reconcileStatefulSet x cl phare u) = (Inr (), t)"
    by (auto simp: reconcileMicroService_def split: if_splits prod.splits sum.splits)
  then show ?thesis
  proof cases
    case deployment
    have only: "only_kinds {KStatefulSet} (view (world s)) (view (world u))"
      "only_kinds {KDeployment} (view (world u)) (view (world t))"
      using stale_only(1) [of s x ?owners phare] deployment_only [of u x phare] deployment by simp_all
    with cm have "config_map_as_desired x phare (view (world u))"
      by (simp add: only_kinds_def cong: as_desired_cong(1))
    from deployment_done [OF diff(1) deployment(3) this] deployment(1) only(2)
      statefulSets.objects.deleteIfExists_gone [OF deployment(2)]
    show ?thesis by (simp add: microservice_as_desired_def only_kinds_def meta_key_def)
  next
    case statefulSet
    have only: "only_kinds {KDeployment} (view (world s)) (view (world u))"
      "only_kinds {KStatefulSet} (view (world u)) (view (world t))"
      using stale_only(2) [of s x ?owners phare] statefulSet_only [of u x phare] statefulSet by simp_all
    with cm have "config_map_as_desired x phare (view (world u))"
      by (simp add: only_kinds_def cong: as_desired_cong(1))
    from statefulSet_done [OF diff(2) statefulSet(3) this] statefulSet(1) only(2)
      deployments.objects.deleteIfExists_gone [OF statefulSet(2)]
    show ?thesis by (simp add: microservice_as_desired_def only_kinds_def meta_key_def)
  qed
qed

lemma resources_done:
  assumes diff: "diff_contract (x_cmpDiffDeployment x)" "diff_contract (x_cmpDiffStatefulSet x)"
    and req: "req = phare_key phare"
    and run: "fst (reconcileResources x cl req phare s) = (Inr (), t)"
  shows "as_desired x phare (view (world t)) \<and> d_phares (view (world t)) = d_phares (view (world s))"
proof -
  from run obtain s1 s2 s3 s4 s5 where steps: "reconcileConfigMap x cl phare s = (Inr (), s1)"
    "reconcileService x cl req phare s1 = (Inr (), s2)" "handleHTTPRoute x cl req phare s2 = (Inr (), s3)"
    "handleGCPBackendPolicy x cl req phare s3 = (Inr (), s4)"
    "handleHealthCheckPolicy x cl req phare s4 = (Inr (), s5)"
    "fst (reconcileMicroService x cl phare s5) = (Inr (), t)"
    by (auto simp: reconcileResources_def split: prod.splits sum.splits)
  have only: "only_kinds {KConfigMap} (view (world s)) (view (world s1))"
    "only_kinds {KService} (view (world s1)) (view (world s2))"
    "only_kinds {KHTTPRoute} (view (world s2)) (view (world s3))"
    "only_kinds {KGCPBackendPolicy} (view (world s3)) (view (world s4))"
    "only_kinds {KHealthCheckPolicy} (view (world s4)) (view (world s5))"
    "only_kinds {KDeployment, KStatefulSet} (view (world s5)) (view (world t))"
    using config_map_only [of s x phare] service_only [OF req, of s1 x] handle_only [OF req, of s2 x]
      handle_only [OF req, of s3 x] handle_only [OF req, of s4 x] workload_only [of s5 x phare] steps
    by simp_all
  have cm5: "config_map_as_desired x phare (view (world s5))"
    using config_map_done [OF steps(1)] only(2-5) by (simp add: only_kinds_def cong: as_desired_cong(1))
  then have "config_map_as_desired x phare (view (world t))"
    using only(6) by (simp add: only_kinds_def cong: as_desired_cong(1))
  moreover have "service_as_desired x phare (view (world t))"
    using service_done [OF steps(2) req] only(3-6) by (simp add: only_kinds_def cong: as_desired_cong(2))
  moreover have "exposed_as_desired x phare (view (world t))"
    using route_done [OF steps(3) req] gcp_done [OF steps(4) req] hcp_done [OF steps(5) req] only(4-6)
    by (simp add: exposed_as_desired_def only_kinds_def Let_def)
  moreover note microservice_done [OF diff steps(6) cm5]
  ultimately show ?thesis using only by (simp add: as_desired_def only_kinds_def)
qed

lemma fetch_found:
  assumes "fetchPhareResource cl req s = (Inr (Some phare), t)"
  shows "d_phares (view (world s)) req = Some phare \<and> phare_key phare = req \<and>
    d_phares (view (world t)) = d_phares (view (world s))"
  using assms
  by (auto simp: fetchPhareResource_def split: prod.splits sum.splits if_splits dest!: phares.sent)

lemma fetch_absent:
  assumes "fetchPhareResource cl req s = (Inr None, t)"
  shows "d_phares (view (world s)) req = None \<and> only_kinds {} (view (world s)) (view (world t)) \<and>
    calls t = calls s @ [Call Get KPhare req]"
  using assms
  by (auto simp: fetchPhareResource_def only_kind_def only_kinds_def
      split: prod.splits sum.splits if_splits dest: send_calls phares.sent_get_failed)

lemma as_desired_only:
  assumes "only_kinds {KPhare} c c'"
  shows "as_desired x phare c' = as_desired x phare c"
proof -
  have "d_configMaps c' = d_configMaps c" "d_services c' = d_services c" "d_httpRoutes c' = d_httpRoutes c"
    "d_gcps c' = d_gcps c" "d_hcps c' = d_hcps c" "d_deployments c' = d_deployments c"
    "d_statefulSets c' = d_statefulSets c"
    using assms by (simp_all add: only_kinds_def)
  then show ?thesis
    by (simp only: as_desired_def config_map_as_desired_def service_as_desired_def
        exposed_as_desired_def microservice_as_desired_def)
qed

lemma updateStatus_done:
  assumes "updateStatus cl p ph m s = (Inr (), t)"
    and "d_phares (view (world s)) (phare_key p) = Some q" "ph_status q = ph_status p"
  shows "only_kinds {KPhare} (view (world s)) (view (world t)) \<and>
    (\<exists>y. d_phares (view (world t)) (phare_key p) = Some y \<and> ph_status y = \<lparr>st_phase = ph, st_message = m\<rparr>)"
proof -
  let ?st = "\<lparr>st_phase = ph, st_message = m\<rparr>"
  show ?thesis
  proof (cases "st_phase (ph_status p) = ph \<and> st_message (ph_status p) = m")
    case True
    then have "ph_status p = ?st" by (cases "ph_status p") simp
    with assms True show ?thesis by (auto simp: updateStatus_def)
  next
    case False
    have "(ph_status p)\<lparr>st_phase := ph, st_message := m\<rparr> = ?st" by (cases "ph_status p") simp
    with assms(1) False obtain u where
      "send StatusUpdate KPhare (phare_key p) (rc_status_update (cl_phare cl) (p\<lparr>ph_status := ?st\<rparr>)) s = (Inr u, t)"
      by (auto simp: updateStatus_def Let_def split: prod.splits sum.splits)
    from status_ok [OF send_world [OF this]] show ?thesis
      by (auto intro: only_kind_kinds)
  qed
qed

lemma run_done:
  assumes diff: "diff_contract (x_cmpDiffDeployment x)" "diff_contract (x_cmpDiffStatefulSet x)"
    and run: "Reconcile x cl req s = (Inr (), t)"
  shows "case d_phares (view (world s)) req of
      None \<Rightarrow> only_kinds {} (view (world s)) (view (world t)) \<and> calls t = calls s @ [Call Get KPhare req]
    | Some phare \<Rightarrow> as_desired x phare (view (world t)) \<and>
        (\<exists>p. d_phares (view (world t)) req = Some p \<and>
          ph_status p = \<lparr>st_phase = PharePhaseActive, st_message = success_message\<rparr>)"
  using run
proof (cases rule: Reconcile_cases)
  case absent
  then show ?thesis using fetch_absent by simp
next
  case (reconciled phare s1 s2 p)
  note f = fetch_found [OF reconciled(1)]
  have p: "ph_meta p = ph_meta phare" "ph_status p = ph_status phare"
    using reconcileResources_same_object [of x cl req phare s1] reconciled(2) by simp_all
  have d: "as_desired x phare (view (world s2))" "d_phares (view (world s2)) = d_phares (view (world s1))"
    using resources_done [OF diff, of req phare s1 s2] f reconciled(2) by simp_all
  from updateStatus_done [OF reconciled(3), of phare] f p d
  show ?thesis by (auto simp: as_desired_only)
qed simp_all

end

section \<open>A run on the whole\<close>

interpretation cluster_server: api_server cluster_client "\<lambda>w. w"
proof
  fix p :: "'a phare" and w w' :: "'a cluster" and u
  assume "rc_status_update (cl_phare cluster_client) p w = (Inr u, w')"
  then obtain y where "d_phares w (phare_key p) = Some y"
    and "w' = w\<lparr>d_phares := (d_phares w)(phare_key p \<mapsto> y\<lparr>ph_status := ph_status p\<rparr>)\<rparr>"
    by (auto simp: cluster_client_def map_client_def Let_def split: option.splits)
  then show "only_kind KPhare w w' \<and>
      (\<exists>y. ph_status y = ph_status p \<and> d_phares w' = (d_phares w)(phare_key p \<mapsto> y))"
    by (intro conjI exI [of _ "y\<lparr>ph_status := ph_status p\<rparr>"]) (simp_all add: only_kind_def)
qed (auto simp: cluster_client_def dest: map_client_no_match)

end
