(* ===== verification/Progress.thy ===== *)
theory Progress
  imports Cluster
begin

text \<open>
  When a run succeeds. The results of \<open>Cluster\<close> say what a run that returns no error leaves behind;
  here a run is shown to return no error, against a server that accepts well-formed requests: a read
  fails only because the object is not there, an object that is not there can be created, and one that
  is there can be updated, patched and deleted. (A server that validates more, for example that the
  selector of a workload does not change, accepts less.) Each step of the code gets a rule of its own;
  the last one adds them up.
\<close>

section \<open>A server that accepts well-formed requests\<close>

definition keyed :: "('a \<Rightarrow> obj_key) \<Rightarrow> (obj_key \<Rightarrow> 'a option) \<Rightarrow> bool" where
  "keyed key objs \<longleftrightarrow> (\<forall>k a. objs k = Some a \<longrightarrow> key a = k)"

lemma keyed_lookup: "keyed key objs \<Longrightarrow> objs k = Some a \<Longrightarrow> key a = k"
  unfolding keyed_def by blast

lemma keyed_upd: "keyed key objs \<Longrightarrow> key a = k \<Longrightarrow> keyed key (objs(k \<mapsto> a))"
  by (simp add: keyed_def)

lemma keyed_del: "keyed key objs \<Longrightarrow> keyed key (objs(k := None))"
  by (simp add: keyed_def)

locale steady_client = store_client +
  assumes get_steady: "rc_get rc k w = (Inl e, w') \<Longrightarrow> keyed key (look w) \<Longrightarrow> is_not_found e"
    and create_steady: "look w (key a) = None \<Longrightarrow> \<exists>w'. rc_create rc a w = (Inr (), w')"
    and update_steady: "look w (key a) = Some b \<Longrightarrow> \<exists>w'. rc_update rc a w = (Inr (), w')"
    and patch_steady: "look w (key a) = Some b \<Longrightarrow> \<exists>w'. rc_patch rc ow b a w = (Inr (), w')"
    and delete_steady: "look w (key a) = Some b \<Longrightarrow> \<exists>w'. rc_delete rc a w = (Inr (), w')"

text \<open>A run that ends without an error.\<close>

definition succeeds :: "('e + unit) \<times> 's \<Rightarrow> bool" where
  "succeeds p \<longleftrightarrow> fst p = Inr ()"

lemma succeeds_returned [simp]: "succeeds (Inr (), s)"
  by (simp add: succeeds_def)

lemma succeedsD: "succeeds p \<Longrightarrow> \<exists>t. p = (Inr (), t)"
  by (cases p) (simp add: succeeds_def)

lemma sent_steady: "\<exists>w'. f (world s) = (Inr u, w') \<Longrightarrow> \<exists>t. send v kd k f s = (Inr u, t)"
  by (auto simp: send_def)

context steady_client begin

text \<open>What a read returns.\<close>

lemma get_cases:
  assumes "keyed key (look (world s))"
  obtains (absent) e t where "send v kd n (rc_get rc k) s = (Inl e, t)" "is_not_found e"
      "look (world s) k = None" "look (world t) = look (world s)"
    | (present) a t where "send v kd n (rc_get rc k) s = (Inr a, t)" "look (world s) k = Some a"
      "key a = k" "look (world t) = look (world s)"
proof -
  obtain r t where get: "send v kd n (rc_get rc k) s = (r, t)" by fastforce
  show ?thesis
  proof (cases r)
    case (Inl e)
    with get send_world [of v kd n "rc_get rc k" s] get_steady assms have "is_not_found e" by blast
    with get Inl sent_get_failed [of v kd n k s e t] absent [of e t] show ?thesis by simp
  next
    case (Inr a)
    with get sent_get_found [of v kd n k s a t] present [of a t] show ?thesis by simp
  qed
qed

lemma sent_create_steady: "look (world s) (key a) = None \<Longrightarrow> \<exists>t. send v kd n (rc_create rc a) s = (Inr (), t)"
  and sent_update_steady: "look (world s) (key a) = Some b \<Longrightarrow> \<exists>t. send v kd n (rc_update rc a) s = (Inr (), t)"
  and sent_patch_steady: "look (world s) (key a) = Some b \<Longrightarrow> \<exists>t. send v kd n (rc_patch rc ow b a) s = (Inr (), t)"
  and sent_delete_steady: "look (world s) (key a) = Some b \<Longrightarrow> \<exists>t. send v kd n (rc_delete rc a) s = (Inr (), t)"
  by (intro sent_steady create_steady update_steady patch_steady delete_steady; assumption)+

lemma create_or_patch_succeeds:
  assumes "keyed key (look (world s))" "key desired = k" "\<And>e. key e = k \<Longrightarrow> key (merge e) = k"
    and "\<And>e. silent (found e)"
  shows "succeeds (create_or_patch kd rc key k desired found created changed merge owner s)"
using assms(1)
proof (cases rule: get_cases [where v = Get and kd = kd and n = k and k = k])
  case (absent e t)
  then obtain u where "send Create kd (key desired) (rc_create rc desired) t = (Inr (), u)"
    using sent_create_steady [of t desired] assms(2) by fastforce
  with absent show ?thesis by (simp add: create_or_patch_def)
next
  case (present a t)
  have "look (world (found a t)) (key (merge a)) = Some a"
    using present assms(3) [of a] assms(4) [of a] by (simp add: silent_def)
  then obtain u where "send Patch kd (key (merge a)) (rc_patch rc owner a (merge a)) (found a t) = (Inr (), u)"
    using sent_patch_steady by blast
  with present show ?thesis by (simp add: create_or_patch_def)
qed

lemma deleteIfExists_succeeds:
  assumes "keyed key (look (world s))"
  shows "succeeds (deleteIfExists x kd rc key owners n ns phare s)"
using assms
proof (cases rule: get_cases [where v = Get and kd = kd and n = "(ns, n)" and k = "(ns, n)"])
  case (present a t)
  then obtain u where "send Delete kd (key a) (rc_delete rc a) t = (Inr (), u)"
    using sent_delete_steady [of t a a] by fastforce
  with present show ?thesis by (simp add: deleteIfExists_def)
qed (simp add: deleteIfExists_def)

lemma deleteIfOwned_succeeds:
  assumes "keyed key (look (world s))"
  shows "\<exists>d t. deleteIfOwned x kd rc key owners n ns phare s = (Inr d, t)"
using assms
proof (cases rule: get_cases [where v = Get and kd = kd and n = "(ns, n)" and k = "(ns, n)"])
  case (present a t)
  then obtain u where "send Delete kd (key a) (rc_delete rc a) t = (Inr (), u)"
    using sent_delete_steady [of t a a] by fastforce
  with present show ?thesis
    by (auto simp: deleteIfOwned_def intro: exI [of _ True] exI [of _ False])
qed (auto simp: deleteIfOwned_def intro: exI [of _ False])

end

section \<open>ConfigMap and Service\<close>

locale steady_config_map = config_map_store cl look frame + steady_client "cl_configMap cl" look
    "\<lambda>c. meta_key (cm_meta c)" "\<lambda>c. gm_map (cm_data c)" frame
  for cl :: "('w, 'o) client"
    and look :: "'w \<Rightarrow> obj_key \<Rightarrow> 'o config_map option"
    and frame :: "'w \<Rightarrow> 'w \<Rightarrow> bool"
begin

lemma config_map_succeeds:
  assumes "keyed (\<lambda>c. meta_key (cm_meta c)) (look (world s))"
    and "\<And>tc. config_toolchain phare = Some tc \<Longrightarrow> generateConfigMap x phare tc \<noteq> None"
  shows "succeeds (reconcileConfigMap x cl phare s)"
proof (cases "config_toolchain phare")
  case None
  from assms(1) show ?thesis
  proof (cases rule: get_cases [where v = Get and kd = KConfigMap and n = "config_map_key phare" and k = "config_map_key phare"])
    case (present a t)
    then obtain u where "delete_cm cl a t = (Inr (), u)" using sent_delete_steady [of t a a] by fastforce
    with present None show ?thesis by (simp add: reconcileConfigMap_def)
  qed (simp add: reconcileConfigMap_def None)
next
  case (Some tc)
  with assms(2) obtain d where d: "generateConfigMap x phare tc = Some d" by blast
  note key = generateConfigMap_key [OF d] generateConfigMap_meta [OF d]
  from assms(1) show ?thesis
  proof (cases rule: get_cases [where v = Get and kd = KConfigMap and n = "config_map_key phare" and k = "config_map_key phare"])
    case (absent e t)
    then obtain u where "create_cm cl d t = (Inr (), u)"
      using sent_create_steady [of t d] key by fastforce
    with absent Some d key show ?thesis by (simp add: reconcileConfigMap_def)
  next
    case (present a t)
    then obtain u where "update_cm cl (a\<lparr>cm_data := cm_data d\<rparr>) t = (Inr (), u)"
      using sent_update_steady [of t "a\<lparr>cm_data := cm_data d\<rparr>" a] by fastforce
    with present Some d key show ?thesis by (simp add: reconcileConfigMap_def)
  qed
qed

text \<open>The ConfigMap is still stored under its own key.\<close>

lemma config_map_keyed:
  assumes "keyed (\<lambda>c. meta_key (cm_meta c)) (look (world s))"
    and "reconcileConfigMap x cl phare s = (Inr (), t)"
  shows "keyed (\<lambda>c. meta_key (cm_meta c)) (look (world t))"
  using assms
  by (auto simp: reconcileConfigMap_def keyed_upd keyed_del
      split: option.splits prod.splits sum.splits if_splits dest!: sent)

end

locale steady_service = service_store cl look kept_spec frame + steady_client "cl_service cl" look
    "\<lambda>sv. service_key sv"
    "\<lambda>sv. (gm_map (m_labels (s_meta sv)), gm_map (m_annotations (s_meta sv)), kept_spec (s_spec sv))" frame
  for cl :: "('w, 'o) client"
    and look :: "'w \<Rightarrow> obj_key \<Rightarrow> 'o service option"
    and kept_spec :: "'o service_spec \<Rightarrow> 'c"
    and frame :: "'w \<Rightarrow> 'w \<Rightarrow> bool"
begin

lemma service_succeeds:
  assumes "keyed (\<lambda>sv. service_key sv) (look (world s))" "req = meta_key (ph_meta phare)"
    and built: "\<And>svc. ps_service (ph_spec phare) = Some svc \<Longrightarrow> desiredService x phare svc \<noteq> None"
  shows "succeeds (reconcileService x cl req phare s)"
  using assms(1)
proof (cases rule: get_cases [where v = Get and kd = KService and n = req and k = req])
  case (absent e t)
  show ?thesis
  proof (cases "ps_service (ph_spec phare)")
    case None
    with absent show ?thesis by (simp add: reconcileService_def)
  next
    case (Some svc)
    with built obtain d where d: "desiredService x phare svc = Some d" by blast
    then obtain u where "send Create KService (service_key d) (rc_create (cl_service cl) d) t = (Inr (), u)"
      using sent_create_steady [of t d] absent desiredService_Some(1) [OF d] assms(2) by fastforce
    with absent Some d show ?thesis by (simp add: reconcileService_def createService_def)
  qed
next
  case (present a t)
  show ?thesis
  proof (cases "ps_service (ph_spec phare)")
    case None
    from present obtain u where "send Delete KService (service_key a) (rc_delete (cl_service cl) a) t = (Inr (), u)"
      using sent_delete_steady [of t a a] by fastforce
    with present None show ?thesis by (simp add: reconcileService_def)
  next
    case (Some svc)
    with built obtain d where d: "desiredService x phare svc = Some d" by blast
    let ?new = "updated_service a d (\<not> shouldReallocateNodePorts (Some phare))"
    have same: "service_key ?new = service_key a" by (simp add: updated_service_def meta_key_def)
    then obtain u where "send Update KService (service_key ?new) (rc_update (cl_service cl) ?new) t = (Inr (), u)"
      using sent_update_steady [of t ?new a] present by fastforce
    with present Some d same show ?thesis by (simp add: reconcileService_def updateService_def Let_def)
  qed
qed

end

section \<open>A run on the whole\<close>

text \<open>What the libraries must be able to do for the Phare: set the owner, render the path of its probe,
  convert its policies; and the kind of its workload is one that the operator knows.\<close>

definition buildable :: "'o ext \<Rightarrow> 'o phare \<Rightarrow> bool" where
  "buildable x phare \<longleftrightarrow>
     x_setControllerReference x phare (ph_namespace phare) None \<noteq> None \<and>
     (case ProcessLivenessProbeTemplate x (ms_livenessProbe (ps_microService (ph_spec phare))) (ph_meta phare) of
        Inl err \<Rightarrow> False | Inr probe \<Rightarrow> True) \<and>
     (case ps_toolChain (ph_spec phare) of None \<Rightarrow> True | Some tc \<Rightarrow>
        (case tc_gcpBackendPolicy tc of None \<Rightarrow> True | Some p \<Rightarrow> x_gcpToUnstructured x p \<noteq> None) \<and>
        (case tc_healthCheckPolicy tc of None \<Rightarrow> True | Some p \<Rightarrow> x_hcpToUnstructured x p \<noteq> None)) \<and>
     (ms_kind (ps_microService (ph_spec phare)) = ''Deployment'' \<or>
      ms_kind (ps_microService (ph_spec phare)) = ''StatefulSet'')"

definition keyed_workloads :: "'o cluster \<Rightarrow> bool" where
  "keyed_workloads c \<longleftrightarrow> keyed workload_key (d_deployments c) \<and> keyed workload_key (d_statefulSets c) \<and>
     keyed (\<lambda>m. meta_key (cm_meta m)) (d_configMaps c)"

definition keyed_cluster :: "'o cluster \<Rightarrow> bool" where
  "keyed_cluster c \<longleftrightarrow> keyed_workloads c \<and> keyed service_key (d_services c) \<and>
     keyed phare_key (d_phares c) \<and> keyed route_key (d_httpRoutes c) \<and>
     keyed unstructured_key (d_gcps c) \<and> keyed unstructured_key (d_hcps c)"

lemma owner_set:
  "buildable x phare \<Longrightarrow> m_owners m = None \<Longrightarrow> m_namespace m = ph_namespace phare \<Longrightarrow>
   set_controller_reference x phare m \<noteq> None"
  by (auto simp: buildable_def set_controller_reference_def)

lemma buildable_objects:
  assumes "buildable x phare"
  shows "generateConfigMap x phare tc \<noteq> None" "desiredService x phare svc \<noteq> None"
    "desiredHttpRoute x phare hr \<noteq> None"
    "\<exists>d p. newDeployment x phare = (Some d, p)" "\<exists>d p. newStatefulSet x phare = (Some d, p)"
    "ps_toolChain (ph_spec phare) = Some tc \<Longrightarrow> tc_gcpBackendPolicy tc \<noteq> None \<Longrightarrow> desiredGCPBackendPolicy x phare \<noteq> None"
    "ps_toolChain (ph_spec phare) = Some tc \<Longrightarrow> tc_healthCheckPolicy tc \<noteq> None \<Longrightarrow> desiredHealthCheckPolicy x phare \<noteq> None"
proof -
  note set = owner_set [OF assms]
  show "generateConfigMap x phare tc \<noteq> None"
    using set by (auto simp: generateConfigMap_def Let_def split: option.splits)
  show "desiredService x phare svc \<noteq> None"
    using set by (auto simp: desiredService_def Let_def split: option.splits)
  show "desiredHttpRoute x phare hr \<noteq> None"
    using set by (auto simp: desiredHttpRoute_def Let_def split: option.splits)
  show "\<exists>d p. newDeployment x phare = (Some d, p)" "\<exists>d p. newStatefulSet x phare = (Some d, p)"
    using set assms
    by (auto simp: newDeployment_def newStatefulSet_def complete_pod_def share_volumes_def buildable_def Let_def
        split: option.splits sum.splits)
  show "ps_toolChain (ph_spec phare) = Some tc \<Longrightarrow> tc_gcpBackendPolicy tc \<noteq> None \<Longrightarrow> desiredGCPBackendPolicy x phare \<noteq> None"
    using assms by (auto simp: desiredGCPBackendPolicy_def desired_policy_def buildable_def split: option.splits)
  show "ps_toolChain (ph_spec phare) = Some tc \<Longrightarrow> tc_healthCheckPolicy tc \<noteq> None \<Longrightarrow> desiredHealthCheckPolicy x phare \<noteq> None"
    using assms by (auto simp: desiredHealthCheckPolicy_def desired_policy_def buildable_def split: option.splits)
qed

locale steady_server = api_server cl view
  for cl :: "('w, 'o) client" and view :: "'w \<Rightarrow> 'o cluster" +
  assumes phare_steady: "steady_client (cl_phare cl) (\<lambda>w. d_phares (view w)) phare_key (\<lambda>_. ())
      (\<lambda>w w'. only_kind KPhare (view w) (view w'))"
    and service_steady: "steady_service cl (\<lambda>w. d_services (view w)) (\<lambda>_. ())
      (\<lambda>w w'. only_kind KService (view w) (view w'))"
    and config_map_steady: "steady_config_map cl (\<lambda>w. d_configMaps (view w))
      (\<lambda>w w'. only_kind KConfigMap (view w) (view w'))"
    and route_steady: "steady_client (cl_httpRoute cl) (\<lambda>w. d_httpRoutes (view w)) route_key (\<lambda>_. ())
      (\<lambda>w w'. only_kind KHTTPRoute (view w) (view w'))"
    and gcp_steady: "steady_client (cl_gcpBackendPolicy cl) (\<lambda>w. d_gcps (view w)) unstructured_key (\<lambda>_. ())
      (\<lambda>w w'. only_kind KGCPBackendPolicy (view w) (view w'))"
    and hcp_steady: "steady_client (cl_healthCheckPolicy cl) (\<lambda>w. d_hcps (view w)) unstructured_key (\<lambda>_. ())
      (\<lambda>w w'. only_kind KHealthCheckPolicy (view w) (view w'))"
    and deployment_steady: "steady_client (cl_deployment cl) (\<lambda>w. d_deployments (view w)) workload_key
      kept_workload (\<lambda>w w'. only_kind KDeployment (view w) (view w'))"
    and statefulSet_steady: "steady_client (cl_statefulSet cl) (\<lambda>w. d_statefulSets (view w)) workload_key
      kept_workload (\<lambda>w w'. only_kind KStatefulSet (view w) (view w'))"
    and status_steady: "d_phares (view w) (phare_key p) = Some q \<Longrightarrow>
      \<exists>w'. rc_status_update (cl_phare cl) p w = (Inr (), w')"
begin

lemma inject_succeeds:
  assumes keyed: "keyed (\<lambda>m. meta_key (cm_meta m)) (d_configMaps (view (world s)))"
    and there: "has_config p \<Longrightarrow> d_configMaps (view (world s)) (config_map_key p) \<noteq> None"
  shows "\<exists>d t. inject_checksum cl p desired s = (Inr d, t)"
proof (cases "has_config p")
  case True
  have "\<exists>cm t. get_cm cl (config_map_key p) s = (Inr cm, t)"
    using there [OF True]
    by (cases rule: steady_client.get_cases [OF steady_config_map.axioms(2) [OF config_map_steady] keyed,
          where v = Get and kd = KConfigMap and n = "config_map_key p" and k = "config_map_key p"]) auto
  then show ?thesis by (auto simp: inject_checksum_def hashConfigMapData_def)
qed (simp add: inject_checksum_def)

lemma cleanup_succeeds:
  "keyed route_key (d_httpRoutes (view (world s))) \<Longrightarrow> succeeds (cleanupHTTPRoute x cl phare s)"
  "keyed unstructured_key (d_gcps (view (world s))) \<Longrightarrow> succeeds (cleanupGCPBackendPolicy x cl phare s)"
  "keyed unstructured_key (d_hcps (view (world s))) \<Longrightarrow> succeeds (cleanupHealthCheckPolicy x cl phare s)"
  using steady_client.deleteIfOwned_succeeds [OF route_steady, of s x KHTTPRoute "\<lambda>r. m_owners (hr_meta r)"
      "ph_name phare" "ph_namespace phare" phare]
    steady_client.deleteIfOwned_succeeds [OF gcp_steady, of s x KGCPBackendPolicy u_owners
      "ph_name phare" "ph_namespace phare" phare]
    steady_client.deleteIfOwned_succeeds [OF hcp_steady, of s x KHealthCheckPolicy u_owners
      "ph_name phare" "ph_namespace phare" phare]
  by (auto simp: cleanupHTTPRoute_def cleanupGCPBackendPolicy_def cleanupHealthCheckPolicy_def)

lemma route_succeeds:
  assumes keyed: "keyed route_key (d_httpRoutes (view (world s)))" and b: "buildable x phare"
    and req: "req = phare_key phare"
  shows "succeeds (handleHTTPRoute x cl req phare s)"
proof -
  have "succeeds (reconcileHttpRoute x cl req phare hr s)" for hr
  proof -
    obtain d where d: "desiredHttpRoute x phare hr = Some d" using buildable_objects(3) [OF b] by blast
    show ?thesis
      unfolding reconcileHttpRoute_built [OF d]
      by (rule steady_client.create_or_patch_succeeds [OF route_steady])
        (use keyed desiredHttpRoute_Some [OF d] req in simp_all)
  qed
  with cleanup_succeeds(1) [OF keyed] show ?thesis by (simp add: handleHTTPRoute_def split: option.splits)
qed

lemma gcp_succeeds:
  assumes keyed: "keyed unstructured_key (d_gcps (view (world s)))" and b: "buildable x phare"
    and req: "req = phare_key phare"
  shows "succeeds (handleGCPBackendPolicy x cl req phare s)"
proof -
  have "succeeds (reconcileGCPBackendPolicy x cl req phare s)"
    if tc: "ps_toolChain (ph_spec phare) = Some tc" "tc_gcpBackendPolicy tc \<noteq> None" for tc
  proof -
    obtain d where d: "desiredGCPBackendPolicy x phare = Some d" using buildable_objects(6) [OF b tc] by blast
    show ?thesis
      unfolding reconcileGCPBackendPolicy_built [OF d]
      by (rule steady_client.create_or_patch_succeeds [OF gcp_steady])
        (use keyed desiredGCP_Some [OF d] patched_policy_key req in auto)
  qed
  with cleanup_succeeds(2) [OF keyed] show ?thesis by (simp add: handleGCPBackendPolicy_def split: option.splits)
qed

lemma hcp_succeeds:
  assumes keyed: "keyed unstructured_key (d_hcps (view (world s)))" and b: "buildable x phare"
    and req: "req = phare_key phare"
  shows "succeeds (handleHealthCheckPolicy x cl req phare s)"
proof -
  have "succeeds (reconcileHealthCheckPolicy x cl req phare s)"
    if tc: "ps_toolChain (ph_spec phare) = Some tc" "tc_healthCheckPolicy tc \<noteq> None" for tc
  proof -
    obtain d where d: "desiredHealthCheckPolicy x phare = Some d" using buildable_objects(7) [OF b tc] by blast
    show ?thesis
      unfolding reconcileHealthCheckPolicy_built [OF d]
      by (rule steady_client.create_or_patch_succeeds [OF hcp_steady])
        (use keyed desiredHCP_Some [OF d] patched_policy_key req in auto)
  qed
  with cleanup_succeeds(3) [OF keyed] show ?thesis by (simp add: handleHealthCheckPolicy_def split: option.splits)
qed

lemma workload_succeeds:
  assumes keyed: "keyed_workloads (view (world s))" and b: "buildable x phare"
    and there: "has_config phare \<Longrightarrow> d_configMaps (view (world s)) (config_map_key phare) \<noteq> None"
  shows "succeeds (fst (reconcileDeployment x cl phare s))" "succeeds (fst (reconcileStatefulSet x cl phare s))"
proof -
  note K = keyed [unfolded keyed_workloads_def]
  obtain d p where new: "newDeployment x phare = (Some d, p)" using buildable_objects(4) [OF b] by blast
  note meta = newDeployment_meta [OF new] newDeployment_key [OF new]
  obtain e t where i: "inject_checksum cl p d s = (Inr e, t)"
    using inject_succeeds [of s p d] K there meta by auto
  have "only_kinds {} (view (world s)) (view (world t))" using inject_only [of s p d] i by simp
  then have "keyed workload_key (d_deployments (view (world t)))" using K by (simp add: only_kinds_def)
  then have "succeeds (create_or_patch KDeployment (cl_deployment cl) workload_key (ph_namespace p, m_name (w_meta e)) e
      (\<lambda>e s. s) (\<lambda>s. s) (deployment_changed x e) (mergeDeployments e) None t)"
    by (rule steady_client.create_or_patch_succeeds [OF deployment_steady])
      (use inject_checksum_key [OF i] meta in \<open>simp_all add: meta_key_def\<close>)
  with i show "succeeds (fst (reconcileDeployment x cl phare s))"
    by (simp add: reconcileDeployment_built [OF new] checksum_and_patch_def)
next
  note K = keyed [unfolded keyed_workloads_def]
  obtain d p where new: "newStatefulSet x phare = (Some d, p)" using buildable_objects(5) [OF b] by blast
  note meta = newStatefulSet_meta [OF new] newStatefulSet_key [OF new]
  obtain e t where i: "inject_checksum cl p d s = (Inr e, t)"
    using inject_succeeds [of s p d] K there meta by auto
  have "only_kinds {} (view (world s)) (view (world t))" using inject_only [of s p d] i by simp
  then have "keyed workload_key (d_statefulSets (view (world t)))" using K by (simp add: only_kinds_def)
  then have "succeeds (create_or_patch KStatefulSet (cl_statefulSet cl) workload_key (ph_namespace p, m_name (w_meta e)) e
      (warn_vct e) (\<lambda>s. s) (statefulSet_changed x e) (mergeStatefulSets e) None t)"
    by (rule steady_client.create_or_patch_succeeds [OF statefulSet_steady])
      (use inject_checksum_key [OF i] meta in \<open>simp_all add: meta_key_def\<close>)
  with i show "succeeds (fst (reconcileStatefulSet x cl phare s))"
    by (simp add: reconcileStatefulSet_built [OF new] checksum_and_patch_def)
qed

lemma microservice_succeeds:
  assumes keyed: "keyed_workloads (view (world s))" and b: "buildable x phare"
    and there: "has_config phare \<Longrightarrow> d_configMaps (view (world s)) (config_map_key phare) \<noteq> None"
  shows "succeeds (fst (reconcileMicroService x cl phare s))"
proof -
  let ?owners = "\<lambda>w. m_owners (w_meta w)"
  note K = keyed [unfolded keyed_workloads_def]
  from b consider "ms_kind (ps_microService (ph_spec phare)) = ''Deployment''"
    | "ms_kind (ps_microService (ph_spec phare)) = ''StatefulSet''" by (auto simp: buildable_def)
  then show ?thesis
  proof cases
    case 1
    let ?stale = "deleteIfExists x KStatefulSet (cl_statefulSet cl) workload_key ?owners (ph_name phare) (ph_namespace phare) phare s"
    have "succeeds ?stale" by (rule steady_client.deleteIfExists_succeeds [OF statefulSet_steady]) (use K in simp)
    then obtain t where t: "?stale = (Inr (), t)" using succeedsD by blast
    have o: "only_kinds {KStatefulSet} (view (world s)) (view (world t))"
      using stale_only(1) [of s x ?owners phare] t by simp
    have "keyed workload_key (d_statefulSets (view (world t)))"
      using t K by (auto simp: deleteIfExists_def keyed_del
          split: prod.splits sum.splits if_splits dest!: statefulSets.objects.sent)
    with K o have "keyed_workloads (view (world t))" by (simp add: keyed_workloads_def only_kinds_def)
    with workload_succeeds(1) [of t x phare] b there o 1 t show ?thesis
      by (simp add: reconcileMicroService_def only_kinds_def)
  next
    case 2
    let ?stale = "deleteIfExists x KDeployment (cl_deployment cl) workload_key ?owners (ph_name phare) (ph_namespace phare) phare s"
    have "succeeds ?stale" by (rule steady_client.deleteIfExists_succeeds [OF deployment_steady]) (use K in simp)
    then obtain t where t: "?stale = (Inr (), t)" using succeedsD by blast
    have o: "only_kinds {KDeployment} (view (world s)) (view (world t))"
      using stale_only(2) [of s x ?owners phare] t by simp
    have "keyed workload_key (d_deployments (view (world t)))"
      using t K by (auto simp: deleteIfExists_def keyed_del
          split: prod.splits sum.splits if_splits dest!: deployments.objects.sent)
    with K o have "keyed_workloads (view (world t))" by (simp add: keyed_workloads_def only_kinds_def)
    with workload_succeeds(2) [of t x phare] b there o 2 t show ?thesis
      by (simp add: reconcileMicroService_def only_kinds_def)
  qed
qed

lemma resources_succeed:
  assumes keyed: "keyed_cluster (view (world s))" and b: "buildable x phare" and req: "req = phare_key phare"
  shows "succeeds (fst (reconcileResources x cl req phare s)) \<and>
    d_phares (view (world (snd (fst (reconcileResources x cl req phare s))))) = d_phares (view (world s))"
proof -
  note K = keyed [unfolded keyed_cluster_def keyed_workloads_def]
  have "succeeds (reconcileConfigMap x cl phare s)"
    by (rule steady_config_map.config_map_succeeds [OF config_map_steady]) (use K buildable_objects(1) [OF b] in simp_all)
  then obtain s1 where 1: "reconcileConfigMap x cl phare s = (Inr (), s1)" using succeedsD by blast
  have o1: "only_kinds {KConfigMap} (view (world s)) (view (world s1))" using config_map_only [of s x phare] 1 by simp
  have "keyed (\<lambda>m. meta_key (cm_meta m)) (d_configMaps (view (world s1)))"
    by (rule steady_config_map.config_map_keyed [OF config_map_steady _ 1]) (use K in simp)
  with K o1 have K1: "keyed_cluster (view (world s1))"
    by (simp add: keyed_cluster_def keyed_workloads_def only_kinds_def)
  have "succeeds (reconcileService x cl req phare s1)"
    by (rule steady_service.service_succeeds [OF service_steady])
      (use K1 req buildable_objects(2) [OF b] in \<open>simp_all add: keyed_cluster_def\<close>)
  then obtain s2 where 2: "reconcileService x cl req phare s1 = (Inr (), s2)" using succeedsD by blast
  have o2: "only_kinds {KService} (view (world s1)) (view (world s2))" using service_only [OF req, of s1 x] 2 by simp
  have "succeeds (handleHTTPRoute x cl req phare s2)"
    by (rule route_succeeds [OF _ b req]) (use K1 o2 in \<open>simp add: keyed_cluster_def only_kinds_def\<close>)
  then obtain s3 where 3: "handleHTTPRoute x cl req phare s2 = (Inr (), s3)" using succeedsD by blast
  have o3: "only_kinds {KHTTPRoute} (view (world s2)) (view (world s3))" using handle_only [OF req, of s2 x] 3 by simp
  have "succeeds (handleGCPBackendPolicy x cl req phare s3)"
    by (rule gcp_succeeds [OF _ b req]) (use K1 o2 o3 in \<open>simp add: keyed_cluster_def only_kinds_def\<close>)
  then obtain s4 where 4: "handleGCPBackendPolicy x cl req phare s3 = (Inr (), s4)" using succeedsD by blast
  have o4: "only_kinds {KGCPBackendPolicy} (view (world s3)) (view (world s4))" using handle_only [OF req, of s3 x] 4 by simp
  have "succeeds (handleHealthCheckPolicy x cl req phare s4)"
    by (rule hcp_succeeds [OF _ b req]) (use K1 o2 o3 o4 in \<open>simp add: keyed_cluster_def only_kinds_def\<close>)
  then obtain s5 where 5: "handleHealthCheckPolicy x cl req phare s4 = (Inr (), s5)" using succeedsD by blast
  have o5: "only_kinds {KHealthCheckPolicy} (view (world s4)) (view (world s5))" using handle_only [OF req, of s4 x] 5 by simp
  have same: "d_configMaps (view (world s5)) = d_configMaps (view (world s1))" "keyed_workloads (view (world s5))"
    using K1 o2 o3 o4 o5 by (simp_all add: keyed_cluster_def keyed_workloads_def only_kinds_def)
  have "d_configMaps (view (world s5)) (config_map_key phare) \<noteq> None" if "has_config phare"
    using config_map_done [OF 1] that same
    by (auto simp: config_map_as_desired_def config_toolchain_def has_config_def split: option.splits if_splits)
  moreover have "d_phares (view (world (snd (fst (reconcileMicroService x cl phare s5))))) = d_phares (view (world s))"
    using workload_only [of s5 x phare] o1 o2 o3 o4 o5 by (simp add: only_kinds_def)
  ultimately show ?thesis using microservice_succeeds [OF same(2) b] 1 2 3 4 5 by (simp add: reconcileResources_def)
qed

lemma status_succeeds:
  assumes "d_phares (view (world s)) (phare_key p) = Some q"
  shows "succeeds (updateStatus cl p ph m s)"
proof -
  have "\<exists>t. send StatusUpdate KPhare (phare_key p) (rc_status_update (cl_phare cl) (p\<lparr>ph_status := st\<rparr>)) s = (Inr (), t)"
    for st
    by (rule sent_steady, rule status_steady) (use assms in simp)
  then obtain t where "send StatusUpdate KPhare (phare_key p) (rc_status_update (cl_phare cl)
      (p\<lparr>ph_status := (ph_status p)\<lparr>st_phase := ph, st_message := m\<rparr>\<rparr>)) s = (Inr (), t)" by blast
  then show ?thesis by (simp add: updateStatus_def Let_def)
qed

text \<open>Termination of a run without an error; what it leaves behind is \<open>run_done\<close>.\<close>

lemma run_succeeds:
  assumes keyed: "keyed_cluster (view (world s))"
    and b: "case d_phares (view (world s)) req of None \<Rightarrow> True | Some phare \<Rightarrow> buildable x phare"
  shows "succeeds (Reconcile x cl req s)"
proof -
  have "keyed phare_key (d_phares (view (world s)))" using keyed by (simp add: keyed_cluster_def)
  then show ?thesis
  proof (cases rule: steady_client.get_cases [OF phare_steady, where v = Get and kd = KPhare and n = req and k = req,
        consumes 1, case_names absent present])
    case (absent e t)
    then show ?thesis by (simp add: Reconcile_def fetchPhareResource_def)
  next
    case (present phare s1)
    then have fetch: "fetchPhareResource cl req s = (Inr (Some phare), s1)" by (simp add: fetchPhareResource_def)
    have "only_kinds {KPhare} (view (world s)) (view (world s1))"
      using phares.sent_get_found [OF present(1)] by (auto intro: only_kind_kinds)
    then have k1: "keyed_cluster (view (world s1))"
      using keyed present(4) by (simp add: keyed_cluster_def keyed_workloads_def only_kinds_def)
    have b': "buildable x phare" using b present(2) by simp
    obtain s2 p where r: "reconcileResources x cl req phare s1 = ((Inr (), s2), p)"
      using resources_succeed [OF k1 b', of req] present(3)
      by (cases "reconcileResources x cl req phare s1") (auto dest: succeedsD)
    have key: "phare_key p = phare_key phare"
      using reconcileResources_key [of x cl req phare s1] r by simp
    have "d_phares (view (world s2)) = d_phares (view (world s1))"
      using resources_succeed [OF k1 b', of req] present(3) r by simp
    then have "d_phares (view (world s2)) (phare_key p) = Some phare" using present key by simp
    from status_succeeds [OF this] fetch r show ?thesis by (simp add: Reconcile_def)
  qed
qed

end

interpretation steady_cluster: steady_server cluster_client "\<lambda>w. w"
  by unfold_locales
    (auto simp: cluster_client_def map_client_def Let_def err_not_found_def dest: keyed_lookup
      split: option.splits if_splits)

interpretation steady_cluster_config_maps: steady_config_map cluster_client d_configMaps "only_kind KConfigMap"
  by (rule steady_cluster.config_map_steady)

interpretation steady_cluster_services: steady_service cluster_client d_services "\<lambda>_. ()" "only_kind KService"
  by (rule steady_cluster.service_steady)

interpretation steady_cluster_routes: steady_client "cl_httpRoute cluster_client" d_httpRoutes route_key "\<lambda>_. ()"
    "only_kind KHTTPRoute"
  by (rule steady_cluster.route_steady)

section \<open>Properties\<close>


text \<open>A cluster that an earlier Phare left behind: the ConfigMap and the Deployment are out of date.\<close>

definition half_way :: "unit cluster" where
  "half_way = empty_cluster\<lparr>d_phares := [demo_key \<mapsto> sample_phare],
     d_configMaps := [(''default'', ''demo-config'') \<mapsto> \<lparr>cm_type = \<lparr>tm_apiVersion = ''v1'', tm_kind = ''ConfigMap''\<rparr>,
       cm_meta = object_meta ''demo-config'' ''default'' None None, cm_data = None, cm_rest = None\<rparr>],
     d_deployments := [demo_key \<mapsto> bare_deployment]\<rparr>"

lemma half_way_keyed: "keyed_cluster half_way"
  by (simp add: keyed_cluster_def keyed_workloads_def keyed_def half_way_def empty_cluster_def demo_key_def
      meta_key_def sample_phare_def bare_deployment_def)

lemma sample_phare_buildable: "buildable sample_ext (sample_phare :: unit phare)"
  by code_simp


end
