(* ===== verification/Quiescence.thy ===== *)
theory Quiescence
  imports Cluster
begin

text \<open>
  A run on a cluster that is as the Phare asks. A controller is started again and again, by its own writes
  among other things, so what matters after a run that succeeded is that the next one finds nothing to do:
  no object is created or deleted, and the ConfigMap, the Service and the route are only read. Patches of the
  workload and of the policies remain possible, for the comparison of these objects is not settled by a patch
  (see \<open>deployment_patched_every_time\<close> and \<open>policy_labels_stripped\<close>).
\<close>

section \<open>Requests about one object\<close>

context store_client begin

lemma get_present:
  assumes "send v kd n (rc_get rc k) s = (r, t)" "look (world s) k = Some a"
  obtains "r = Inr a" "look (world t) = look (world s)" | e where "r = Inl e" "\<not> is_not_found e"
proof (cases r)
  case (Inl e)
  with sent_get_failed [of v kd n k s e t] assms that(2) show thesis by auto
next
  case (Inr b)
  with sent_get_found [of v kd n k s b t] assms that(1) show thesis by auto
qed

lemma create_or_patch_present:
  assumes "look (world s) k = Some a" "\<And>e. silent (found e)" "Call Get kd k \<in> C" "Call Patch kd (key (merge a)) \<in> C"
  shows "issues C s (snd (create_or_patch kd rc key k desired found created changed merge owner s))"
proof -
  obtain r t where get: "send Get kd k (rc_get rc k) s = (r, t)" by fastforce
  then have t: "issues C s t" using assms(3) by (rule issues_send)
  have found: "issues C s (found a t)" using t assms(2) by (simp add: issues_silent)
  from get assms(1) show ?thesis
  proof (cases rule: get_present)
    case 1
    obtain p u where patch: "send Patch kd (key (merge a)) (rc_patch rc owner a (merge a)) (found a t) = (p, u)" by fastforce
    then have "issues C s u" by (rule issues_trans [OF found issues_send [OF _ assms(4)]])
    with found get 1 patch show ?thesis by (cases p) (simp_all add: create_or_patch_def)
  next
    case (2 e)
    with get t show ?thesis by (simp add: create_or_patch_def)
  qed
qed

lemma deleteIfOwned_keeps:
  assumes "\<And>a. look (world s) (ns, n) = Some a \<Longrightarrow> \<not> x_isControlledBy x (owners a) (m_uid (ph_meta phare))"
    and "Call Get kd (ns, n) \<in> C"
  shows "issues C s (snd (deleteIfOwned x kd rc key owners n ns phare s))"
    "issues C s (snd (deleteIfExists x kd rc key owners n ns phare s))"
proof -
  obtain r t where get: "send Get kd (ns, n) (rc_get rc (ns, n)) s = (r, t)" by fastforce
  have "issues C s t" using get assms(2) by (rule issues_send)
  moreover have "\<not> x_isControlledBy x (owners a) (m_uid (ph_meta phare))" if "r = Inr a" for a
    using assms(1) get that sent_get_found by blast
  ultimately show "issues C s (snd (deleteIfOwned x kd rc key owners n ns phare s))"
    "issues C s (snd (deleteIfExists x kd rc key owners n ns phare s))"
    using get by (cases r; simp add: deleteIfOwned_def deleteIfExists_def)+
qed

end

section \<open>A cluster with nothing to do\<close>

definition service_settled :: "'o ext \<Rightarrow> 'o phare \<Rightarrow> 'o cluster \<Rightarrow> bool" where
  "service_settled x phare c \<longleftrightarrow>
     (case ps_service (ph_spec phare) of
        None \<Rightarrow> d_services c (phare_key phare) = None
      | Some svc \<Rightarrow> \<exists>sv. d_services c (phare_key phare) = Some sv \<and>
          (\<forall>d. desiredService x phare svc = Some d \<longrightarrow>
             \<not> service_differs x sv d (\<not> shouldReallocateNodePorts (Some phare))))"

definition route_settled :: "'o ext \<Rightarrow> 'o phare \<Rightarrow> 'o cluster \<Rightarrow> bool" where
  "route_settled x phare c \<longleftrightarrow>
     (case Option.bind (ps_toolChain (ph_spec phare)) tc_httpRoute of
        None \<Rightarrow> \<forall>r. d_httpRoutes c (phare_key phare) = Some r \<longrightarrow> \<not> controlled x phare (m_owners (hr_meta r))
      | Some hr \<Rightarrow> \<exists>r. d_httpRoutes c (phare_key phare) = Some r \<and>
          (\<forall>d. desiredHttpRoute x phare hr = Some d \<longrightarrow> \<not> route_changed x d r))"

definition policies_ready :: "'o ext \<Rightarrow> 'o phare \<Rightarrow> 'o cluster \<Rightarrow> bool \<times> bool" where
  "policies_ready x phare c =
     (let tc = ps_toolChain (ph_spec phare) in
      (if Option.bind tc tc_gcpBackendPolicy = None
       then \<forall>u. d_gcps c (phare_key phare) = Some u \<longrightarrow> \<not> controlled x phare (u_owners u)
       else d_gcps c (phare_key phare) \<noteq> None,
       if Option.bind tc tc_healthCheckPolicy = None
       then \<forall>u. d_hcps c (phare_key phare) = Some u \<longrightarrow> \<not> controlled x phare (u_owners u)
       else d_hcps c (phare_key phare) \<noteq> None))"

definition settled :: "'o ext \<Rightarrow> 'o phare \<Rightarrow> 'o cluster \<Rightarrow> bool" where
  "settled x phare c \<longleftrightarrow> config_map_as_desired x phare c \<and> service_settled x phare c \<and> route_settled x phare c \<and>
     fst (policies_ready x phare c) \<and> snd (policies_ready x phare c) \<and> microservice_as_desired x phare c"

text \<open>The parts of \<open>settled\<close>, each with the maps it reads.\<close>

lemma settled_parts:
  assumes "settled x phare c"
  shows "config_map_as_desired x phare c" "service_settled x phare c" "route_settled x phare c"
    "fst (policies_ready x phare c)" "snd (policies_ready x phare c)" "microservice_as_desired x phare c"
  using assms by (simp_all add: settled_def)

lemma settled_cong:
  "d_services c = d_services c' \<Longrightarrow> service_settled x phare c = service_settled x phare c'"
  "d_httpRoutes c = d_httpRoutes c' \<Longrightarrow> route_settled x phare c = route_settled x phare c'"
  "d_gcps c = d_gcps c' \<Longrightarrow> fst (policies_ready x phare c) = fst (policies_ready x phare c')"
  "d_hcps c = d_hcps c' \<Longrightarrow> snd (policies_ready x phare c) = snd (policies_ready x phare c')"
  "d_deployments c = d_deployments c' \<Longrightarrow> d_statefulSets c = d_statefulSets c' \<Longrightarrow>
     microservice_as_desired x phare c = microservice_as_desired x phare c'"
  by (simp_all only: service_settled_def route_settled_def policies_ready_def microservice_as_desired_def Let_def fst_conv snd_conv)

text \<open>What a run on it may send: reads, and patches of what never settles.\<close>

definition quiet_calls :: "call set" where
  "quiet_calls = {c. is_write c \<longrightarrow> call_verb c = Patch \<and>
     call_kind c \<in> {KDeployment, KStatefulSet, KGCPBackendPolicy, KHealthCheckPolicy}}"

lemma quiet_call [simp]:
  "Call Get k n \<in> quiet_calls"
  "Call Patch k n \<in> quiet_calls \<longleftrightarrow> k \<in> {KDeployment, KStatefulSet, KGCPBackendPolicy, KHealthCheckPolicy}"
  by (simp_all add: quiet_calls_def is_write_def)

context api_server begin

lemma config_map_quiet:
  assumes "config_map_as_desired x phare (view (world s))"
  shows "issues quiet_calls s (snd (reconcileConfigMap x cl phare s))"
proof -
  obtain r t where get: "get_cm cl (config_map_key phare) s = (r, t)" by fastforce
  have t: "issues quiet_calls s t" using get by (rule issues_send) simp
  show ?thesis
  proof (cases "config_toolchain phare")
    case None
    with assms have "d_configMaps (view (world s)) (config_map_key phare) = None" by (simp add: config_map_as_desired_def)
    with get store_client.sent_get_found [OF cm_store] obtain e where "r = Inl e" by (cases r) fastforce+
    with None get t show ?thesis by (simp add: reconcileConfigMap_def)
  next
    case (Some tc)
    with assms obtain cm where cm: "d_configMaps (view (world s)) (config_map_key phare) = Some cm"
      "gm_map (cm_data cm) = fmmap (rendered x (ph_meta phare)) (gm_map (tc_config tc))"
      by (auto simp: config_map_as_desired_def)
    show ?thesis
    proof (cases "generateConfigMap x phare tc")
      case None
      with Some show ?thesis by (simp add: reconcileConfigMap_def)
    next
      case d: (Some d)
      note key = generateConfigMap_key [OF d] generateConfigMap_meta [OF d]
      have "isDataEqual (cm_data cm) (cm_data d)"
        by (simp add: isDataEqual_iff generateConfigMap_fmap [OF d] cm(2))
      consider "r = Inr cm" | e where "r = Inl e" "\<not> is_not_found e"
        using store_client.get_present [OF cm_store get cm(1)] by blast
      then show ?thesis
      proof cases
        case 1
        then show ?thesis using Some d get t key \<open>isDataEqual (cm_data cm) (cm_data d)\<close> by (simp add: reconcileConfigMap_def)
      next
        case (2 e)
        with Some d get t key show ?thesis by (simp add: reconcileConfigMap_def)
      qed
    qed
  qed
qed

lemma service_quiet:
  assumes "service_settled x phare (view (world s))" "req = phare_key phare"
  shows "issues quiet_calls s (snd (reconcileService x cl req phare s))"
proof -
  obtain r t where get: "send Get KService req (rc_get (cl_service cl) req) s = (r, t)" by fastforce
  have t: "issues quiet_calls s t" using get by (rule issues_send) simp
  show ?thesis
  proof (cases "ps_service (ph_spec phare)")
    case None
    with assms have "d_services (view (world s)) req = None" by (simp add: service_settled_def)
    with get services.sent_get_found obtain e where "r = Inl e" by (cases r) fastforce+
    with None get t show ?thesis by (simp add: reconcileService_def)
  next
    case (Some svc)
    with assms obtain sv where sv: "d_services (view (world s)) req = Some sv"
      "\<And>d. desiredService x phare svc = Some d \<Longrightarrow> \<not> service_differs x sv d (\<not> shouldReallocateNodePorts (Some phare))"
      by (auto simp: service_settled_def)
    from get sv(1) show ?thesis
    proof (cases rule: services.get_present)
      case 1
      with Some sv(2) get t show ?thesis by (simp add: reconcileService_def Let_def split: option.splits)
    next
      case (2 e)
      with Some get t show ?thesis by (simp add: reconcileService_def split: option.splits)
    qed
  qed
qed

text \<open>A clean-up that finds nothing of its own.\<close>

lemma cleanup_quiet:
  shows "(\<And>r. d_httpRoutes (view (world s)) (phare_key phare) = Some r \<Longrightarrow> \<not> controlled x phare (m_owners (hr_meta r))) \<Longrightarrow>
      issues quiet_calls s (snd (cleanupHTTPRoute x cl phare s))"
    "(\<And>u. d_gcps (view (world s)) (phare_key phare) = Some u \<Longrightarrow> \<not> controlled x phare (u_owners u)) \<Longrightarrow>
      issues quiet_calls s (snd (cleanupGCPBackendPolicy x cl phare s))"
    "(\<And>u. d_hcps (view (world s)) (phare_key phare) = Some u \<Longrightarrow> \<not> controlled x phare (u_owners u)) \<Longrightarrow>
      issues quiet_calls s (snd (cleanupHealthCheckPolicy x cl phare s))"
  unfolding cleanupHTTPRoute_def cleanupGCPBackendPolicy_def cleanupHealthCheckPolicy_def
  by (intro issued.along routes.deleteIfOwned_keeps(1) gcps.deleteIfOwned_keeps(1) hcps.deleteIfOwned_keeps(1);
      simp add: meta_key_def)+

lemma route_quiet:
  assumes "route_settled x phare (view (world s))" "req = phare_key phare"
  shows "issues quiet_calls s (snd (handleHTTPRoute x cl req phare s))"
proof (cases "Option.bind (ps_toolChain (ph_spec phare)) tc_httpRoute")
  case None
  with assms(1) have "issues quiet_calls s (snd (cleanupHTTPRoute x cl phare s))"
    by (intro cleanup_quiet) (simp add: route_settled_def)
  with None show ?thesis by (auto simp: handleHTTPRoute_def split: option.splits)
next
  case (Some hr)
  with assms obtain r where r: "d_httpRoutes (view (world s)) req = Some r"
    "\<And>d. desiredHttpRoute x phare hr = Some d \<Longrightarrow> \<not> route_changed x d r"
    by (auto simp: route_settled_def)
  have "issues quiet_calls s (snd (reconcileHttpRoute x cl req phare hr s))"
  proof (cases "desiredHttpRoute x phare hr")
    case None
    then show ?thesis by (simp add: reconcileHttpRoute_def)
  next
    case d: (Some d)
    have "calls (snd (reconcileHttpRoute x cl req phare hr s)) = calls s @ [Call Get KHTTPRoute req]"
      unfolding reconcileHttpRoute_built [OF d]
      by (rule routes.create_or_patch_settled [where changed = "route_changed x d", OF r(1) r(2) [OF d]]) simp
    then show ?thesis by (simp add: issues_def)
  qed
  with Some show ?thesis by (auto simp: handleHTTPRoute_def bind_eq_Some_conv)
qed

lemma gcp_quiet:
  assumes "fst (policies_ready x phare (view (world s)))" "req = phare_key phare"
  shows "issues quiet_calls s (snd (handleGCPBackendPolicy x cl req phare s))"
proof (cases "Option.bind (ps_toolChain (ph_spec phare)) tc_gcpBackendPolicy")
  case None
  with assms(1) have "issues quiet_calls s (snd (cleanupGCPBackendPolicy x cl phare s))"
    by (intro cleanup_quiet) (simp add: policies_ready_def Let_def)
  with None show ?thesis by (auto simp: handleGCPBackendPolicy_def split: option.splits)
next
  case (Some p)
  with assms obtain u where u: "d_gcps (view (world s)) req = Some u" by (auto simp: policies_ready_def Let_def)
  have "issues quiet_calls s (snd (reconcileGCPBackendPolicy x cl req phare s))"
  proof (cases "desiredGCPBackendPolicy x phare")
    case None
    then show ?thesis by (simp add: reconcileGCPBackendPolicy_def)
  next
    case d: (Some d)
    show ?thesis unfolding reconcileGCPBackendPolicy_built [OF d]
      by (rule gcps.create_or_patch_present [OF u]) simp_all
  qed
  with Some show ?thesis by (auto simp: handleGCPBackendPolicy_def bind_eq_Some_conv)
qed

lemma hcp_quiet:
  assumes "snd (policies_ready x phare (view (world s)))" "req = phare_key phare"
  shows "issues quiet_calls s (snd (handleHealthCheckPolicy x cl req phare s))"
proof (cases "Option.bind (ps_toolChain (ph_spec phare)) tc_healthCheckPolicy")
  case None
  with assms(1) have "issues quiet_calls s (snd (cleanupHealthCheckPolicy x cl phare s))"
    by (intro cleanup_quiet) (simp add: policies_ready_def Let_def)
  with None show ?thesis by (auto simp: handleHealthCheckPolicy_def split: option.splits)
next
  case (Some p)
  with assms obtain u where u: "d_hcps (view (world s)) req = Some u" by (auto simp: policies_ready_def Let_def)
  have "issues quiet_calls s (snd (reconcileHealthCheckPolicy x cl req phare s))"
  proof (cases "desiredHealthCheckPolicy x phare")
    case None
    then show ?thesis by (simp add: reconcileHealthCheckPolicy_def)
  next
    case d: (Some d)
    show ?thesis unfolding reconcileHealthCheckPolicy_built [OF d]
      by (rule hcps.create_or_patch_present [OF u]) simp_all
  qed
  with Some show ?thesis by (auto simp: handleHealthCheckPolicy_def bind_eq_Some_conv)
qed

lemma inject_quiet: "issues quiet_calls s (snd (inject_checksum cl p d s))"
  by (rule issues_mono [OF inject_checksum_requests]) (auto simp: reads_on_def)

lemma deployment_quiet:
  assumes "d_deployments (view (world s)) (phare_key phare) = Some w"
  shows "issues quiet_calls s (snd (fst (reconcileDeployment x cl phare s)))"
proof (cases "newDeployment x phare"; cases "fst (newDeployment x phare)")
  fix o' p b assume "newDeployment x phare = (o', p)" "fst (newDeployment x phare) = Some b"
  then have new: "newDeployment x phare = (Some b, p)" by simp
  note meta = newDeployment_meta [OF new] newDeployment_key [OF new]
  show ?thesis
    unfolding reconcileDeployment_built [OF new] checksum_and_patch_def
  proof (rule issued.case_step [OF inject_quiet])
    fix d t assume inj: "inject_checksum cl p b s = (Inr d, t)"
    have "d_deployments (view (world t)) (ph_namespace p, m_name (w_meta d)) = Some w"
      using inject_only [of s p b] inj inject_checksum_key [OF inj] meta assms by (simp add: only_kinds_def meta_key_def)
    then show "issues quiet_calls t (snd (create_or_patch KDeployment (cl_deployment cl) workload_key
        (ph_namespace p, m_name (w_meta d)) d (\<lambda>e s. s) (\<lambda>s. s) (deployment_changed x d) (mergeDeployments d) None t))"
      by (rule deployments.objects.create_or_patch_present) simp_all
  qed simp
qed (simp add: reconcileDeployment_eq)

lemma statefulSet_quiet:
  assumes "d_statefulSets (view (world s)) (phare_key phare) = Some w"
  shows "issues quiet_calls s (snd (fst (reconcileStatefulSet x cl phare s)))"
proof (cases "newStatefulSet x phare"; cases "fst (newStatefulSet x phare)")
  fix o' p b assume "newStatefulSet x phare = (o', p)" "fst (newStatefulSet x phare) = Some b"
  then have new: "newStatefulSet x phare = (Some b, p)" by simp
  note meta = newStatefulSet_meta [OF new] newStatefulSet_key [OF new]
  show ?thesis
    unfolding reconcileStatefulSet_built [OF new] checksum_and_patch_def
  proof (rule issued.case_step [OF inject_quiet])
    fix d t assume inj: "inject_checksum cl p b s = (Inr d, t)"
    have "d_statefulSets (view (world t)) (ph_namespace p, m_name (w_meta d)) = Some w"
      using inject_only [of s p b] inj inject_checksum_key [OF inj] meta assms by (simp add: only_kinds_def meta_key_def)
    then show "issues quiet_calls t (snd (create_or_patch KStatefulSet (cl_statefulSet cl) workload_key
        (ph_namespace p, m_name (w_meta d)) d (warn_vct d) (\<lambda>s. s) (statefulSet_changed x d) (mergeStatefulSets d) None t))"
      by (rule statefulSets.objects.create_or_patch_present) simp_all
  qed simp
qed (simp add: reconcileStatefulSet_eq)

text \<open>A step whose error ends the sequence, with what the step that succeeded left.\<close>

lemma quiet_then:
  assumes "issues C s (snd p)" "\<And>u t. p = (Inr u, t) \<Longrightarrow> issues C t (snd (fst (K t)))"
  shows "issues C s (snd (fst (case p of (Inl e, t) \<Rightarrow> ((Inl e, t), ph) | (Inr u, t) \<Rightarrow> K t)))"
  using assms by (cases p; cases "fst p") (auto intro: issues_trans)

lemma workload_quiet:
  assumes "microservice_as_desired x phare (view (world s))"
  shows "issues quiet_calls s (snd (fst (reconcileMicroService x cl phare s)))"
proof -
  let ?owners = "\<lambda>w. m_owners (w_meta w)"
  from assms consider (deployment) w where "ms_kind (ps_microService (ph_spec phare)) = ''Deployment''"
      "d_deployments (view (world s)) (phare_key phare) = Some w"
      "\<And>w. d_statefulSets (view (world s)) (phare_key phare) = Some w \<Longrightarrow> \<not> controlled x phare (m_owners (w_meta w))"
    | (statefulSet) w where "ms_kind (ps_microService (ph_spec phare)) = ''StatefulSet''"
      "d_statefulSets (view (world s)) (phare_key phare) = Some w"
      "\<And>w. d_deployments (view (world s)) (phare_key phare) = Some w \<Longrightarrow> \<not> controlled x phare (m_owners (w_meta w))"
    by (auto simp: microservice_as_desired_def)
  then show ?thesis
  proof cases
    case deployment
    have "issues quiet_calls s (snd (deleteIfExists x KStatefulSet (cl_statefulSet cl) workload_key ?owners
        (ph_name phare) (ph_namespace phare) phare s))"
      by (rule statefulSets.objects.deleteIfOwned_keeps(2)) (use deployment(3) in \<open>simp_all add: meta_key_def\<close>)
    moreover have "issues quiet_calls t (snd (fst (reconcileDeployment x cl phare t)))"
      if "deleteIfExists x KStatefulSet (cl_statefulSet cl) workload_key ?owners
        (ph_name phare) (ph_namespace phare) phare s = (Inr u, t)" for u t
      using stale_only(1) [of s x ?owners phare] that deployment(2)
      by (intro deployment_quiet) (simp add: only_kinds_def)
    ultimately show ?thesis using deployment(1) by (simp add: reconcileMicroService_def quiet_then)
  next
    case statefulSet
    have "issues quiet_calls s (snd (deleteIfExists x KDeployment (cl_deployment cl) workload_key ?owners
        (ph_name phare) (ph_namespace phare) phare s))"
      by (rule deployments.objects.deleteIfOwned_keeps(2)) (use statefulSet(3) in \<open>simp_all add: meta_key_def\<close>)
    moreover have "issues quiet_calls t (snd (fst (reconcileStatefulSet x cl phare t)))"
      if "deleteIfExists x KDeployment (cl_deployment cl) workload_key ?owners
        (ph_name phare) (ph_namespace phare) phare s = (Inr u, t)" for u t
      using stale_only(2) [of s x ?owners phare] that statefulSet(2)
      by (intro statefulSet_quiet) (simp add: only_kinds_def)
    ultimately show ?thesis using statefulSet(1) by (simp add: reconcileMicroService_def quiet_then)
  qed
qed

lemma steps_only:
  "reconcileConfigMap x cl phare s = (r, t) \<Longrightarrow> only_kinds {KConfigMap} (view (world s)) (view (world t))"
  "reconcileService x cl (phare_key phare) phare s = (r, t) \<Longrightarrow> only_kinds {KService} (view (world s)) (view (world t))"
  "handleHTTPRoute x cl (phare_key phare) phare s = (r, t) \<Longrightarrow> only_kinds {KHTTPRoute} (view (world s)) (view (world t))"
  "handleGCPBackendPolicy x cl (phare_key phare) phare s = (r, t) \<Longrightarrow>
     only_kinds {KGCPBackendPolicy} (view (world s)) (view (world t))"
  "handleHealthCheckPolicy x cl (phare_key phare) phare s = (r, t) \<Longrightarrow>
     only_kinds {KHealthCheckPolicy} (view (world s)) (view (world t))"
  using config_map_only [of s x phare] service_only [OF refl, of s x phare] handle_only [OF refl, of s x phare] by simp_all

lemma resources_quiet:
  assumes "settled x phare (view (world s))" "req = phare_key phare"
  shows "issues quiet_calls s (snd (fst (reconcileResources x cl req phare s)))"
  unfolding reconcileResources_def assms(2)
proof (intro quiet_then config_map_quiet service_quiet route_quiet gcp_quiet hcp_quiet workload_quiet refl)
  note P = settled_parts [OF assms(1)]
  show "config_map_as_desired x phare (view (world s))" by (rule P)
  fix u1 s1 assume "reconcileConfigMap x cl phare s = (Inr u1, s1)"
  note o1 = steps_only(1) [OF this]
  from P(2) o1 show "service_settled x phare (view (world s1))"
    by (simp add: only_kinds_def settled_cong(1) [of "view (world s1)" "view (world s)"])
  fix u2 s2 assume "reconcileService x cl (phare_key phare) phare s1 = (Inr u2, s2)"
  note o2 = only_kinds_trans [OF only_kinds_mono [OF o1, of "{KConfigMap, KService}"]
      only_kinds_mono [OF steps_only(2) [OF this], of "{KConfigMap, KService}"], simplified]
  from P(3) o2 show "route_settled x phare (view (world s2))"
    by (simp add: only_kinds_def settled_cong(2) [of "view (world s2)" "view (world s)"])
  fix u3 s3 assume "handleHTTPRoute x cl (phare_key phare) phare s2 = (Inr u3, s3)"
  note o3 = only_kinds_trans [OF only_kinds_mono [OF o2, of "{KConfigMap, KService, KHTTPRoute}"]
      only_kinds_mono [OF steps_only(3) [OF this], of "{KConfigMap, KService, KHTTPRoute}"], simplified]
  from P(4) o3 show "fst (policies_ready x phare (view (world s3)))"
    by (simp add: only_kinds_def settled_cong(3) [of "view (world s3)" "view (world s)"])
  fix u4 s4 assume "handleGCPBackendPolicy x cl (phare_key phare) phare s3 = (Inr u4, s4)"
  note o4 = only_kinds_trans [OF only_kinds_mono [OF o3, of "{KConfigMap, KService, KHTTPRoute, KGCPBackendPolicy}"]
      only_kinds_mono [OF steps_only(4) [OF this], of "{KConfigMap, KService, KHTTPRoute, KGCPBackendPolicy}"], simplified]
  from P(5) o4 show "snd (policies_ready x phare (view (world s4)))"
    by (simp add: only_kinds_def settled_cong(4) [of "view (world s4)" "view (world s)"])
  fix u5 s5 assume "handleHealthCheckPolicy x cl (phare_key phare) phare s4 = (Inr u5, s5)"
  with P(6) o4 steps_only(5) [OF this] show "microservice_as_desired x phare (view (world s5))"
    by (simp add: only_kinds_def settled_cong(5) [of "view (world s5)" "view (world s)"])
qed

lemma settled_only:
  assumes "only_kinds {KPhare} c c'"
  shows "settled x phare c' = settled x phare c"
  using as_desired_cong(1) [of c' c x phare] settled_cong [of c' c x phare] assms
  by (simp add: settled_def only_kinds_def)

lemma run_quiet:
  assumes phare: "d_phares (view (world s)) req = Some q" "settled x q (view (world s))"
    and active: "ph_status q = \<lparr>st_phase = PharePhaseActive, st_message = success_message\<rparr>"
    and run: "Reconcile x cl req s = (r, t)"
  shows "issues (if r = Inr () then quiet_calls else insert (Call StatusUpdate KPhare req) quiet_calls) s t"
proof -
  obtain g s1 where get: "send Get KPhare req (rc_get (cl_phare cl) req) s = (g, s1)" by fastforce
  have s1: "issues quiet_calls s s1" using get by (rule issues_send) simp
  from get phare(1) show ?thesis
  proof (cases rule: phares.get_present)
    case (2 e)
    with run get have "t = s1" by (auto simp: Reconcile_def fetchPhareResource_def)
    with s1 show ?thesis by (auto intro: issues_mono)
  next
    case 1
    with get phares.sent_get_found [of Get KPhare req req s q s1] have q: "req = phare_key q"
      "only_kinds {KPhare} (view (world s)) (view (world s1))" by (auto intro: only_kind_kinds)
    with phare(2) have settled: "settled x q (view (world s1))" by (simp add: settled_only)
    obtain r2 s2 p where res: "reconcileResources x cl req q s1 = ((r2, s2), p)" by (metis prod.exhaust)
    have s2: "issues quiet_calls s s2" using resources_quiet [OF settled q(1)] res s1 by (auto intro: issues_trans)
    have p: "ph_meta p = ph_meta q" "ph_status p = ph_status q"
      using reconcileResources_same_object [of x cl req q s1] res by simp_all
    show ?thesis
    proof (cases r2)
      case (Inr u)
      with run get 1 res p active have "r = Inr ()" "t = s2"
        by (simp_all add: Reconcile_def fetchPhareResource_def updateStatus_def)
      with s2 show ?thesis by simp
    next
      case (Inl e)
      with run get 1 res have t: "r = Inl e" "t = snd (updateStatus cl p PharePhaseFailed (error_string e) s2)"
        by (auto simp: Reconcile_def fetchPhareResource_def split: prod.splits)
      have "issues {Call StatusUpdate KPhare req} s2 t"
        using updateStatus_requests [of p s2 cl PharePhaseFailed "error_string e"] p q(1) t(2) by simp
      with s2 t(1) show ?thesis by (auto intro: issues_trans [OF issues_mono issues_mono])
    qed
  qed
qed

end

section \<open>What a run that succeeds settles\<close>

text \<open>A server that stores the spec of a Service and of a route as it is sent. (One that fills in defaults is
  covered by the comparison itself: see \<open>normalizeServiceSpecForDiff\<close>.)\<close>

locale exact_server = api_server cl view
  for cl :: "('w, 'o) client" and view :: "'w \<Rightarrow> 'o cluster" +
  assumes service_exact: "service_store cl (\<lambda>w. d_services (view w)) (\<lambda>spec. spec)
      (\<lambda>w w'. only_kind KService (view w) (view w'))"
    and route_exact: "store_client (cl_httpRoute cl) (\<lambda>w. d_httpRoutes (view w)) route_key
      (\<lambda>r. (hr_spec r, gm_map (m_labels (hr_meta r)))) (\<lambda>w w'. only_kind KHTTPRoute (view w) (view w'))"

text \<open>A Service spec whose ports can be told apart and in which the two lists that the merge copies are not
  empty and non-nil, which JSON would not keep apart.\<close>

definition tidy_service :: "'o service_spec \<Rightarrow> bool" where
  "tidy_service svc \<longleftrightarrow> distinct (map port_key (elems (svc_ports svc))) \<and>
     svc_clusterIPs svc \<noteq> Some [] \<and> svc_ipFamilies svc \<noteq> Some []"

lemma desiredService_spec:
  "desiredService x phare svc = Some d \<Longrightarrow> svc_ports (s_spec d) = svc_ports svc \<and>
     svc_clusterIPs (s_spec d) = svc_clusterIPs svc \<and> svc_ipFamilies (s_spec d) = svc_ipFamilies svc"
  by (auto simp: desiredService_def Let_def split: option.splits if_splits)

lemma append_nil_tidy: "s \<noteq> Some [] \<Longrightarrow> append_nil s = s"
  by (cases s) (simp_all add: append_nil_def)

lemma merge_self:
  assumes "tidy_service d"
  shows "mergeServiceSpecPreservingImmutable d d preserve = d"
proof -
  have "keep_node_port (index_by port_key (elems (svc_ports d))) p = p" if "p \<in> set (elems (svc_ports d))" for p
    using index_by_distinct [of port_key "elems (svc_ports d)" p] assms that
    by (simp add: tidy_service_def keep_node_port_def)
  then have "map_slice (keep_node_port (index_by port_key (elems (svc_ports d)))) (svc_ports d) = svc_ports d"
    by (cases "svc_ports d") (auto intro: map_idI)
  with assms show ?thesis
    by (simp add: mergeServiceSpecPreservingImmutable_def Let_def tidy_service_def append_nil_tidy)
qed

context exact_server begin

lemma service_settles:
  assumes run: "reconcileService x cl (phare_key phare) phare s = (Inr (), t)"
    and tidy: "\<And>svc. ps_service (ph_spec phare) = Some svc \<Longrightarrow> tidy_service svc"
  shows "service_settled x phare (view (world t))"
proof (cases "ps_service (ph_spec phare)")
  case None
  with services.removed [OF run None] show ?thesis by (simp add: service_settled_def)
next
  case (Some svc)
  let ?preserve = "\<not> shouldReallocateNodePorts (Some phare)"
  obtain d sv where d: "desiredService x phare svc = Some d" and sv: "d_services (view (world t)) (phare_key phare) = Some sv"
    "gm_map (m_labels (s_meta sv)) = gm_map (m_labels (s_meta d))"
    "gm_map (m_annotations (s_meta sv)) = gm_map (m_annotations (s_meta d))"
    and spec: "case d_services (view (world s)) (phare_key phare) of
         None \<Rightarrow> s_spec sv = s_spec d
       | Some old \<Rightarrow> s_spec sv = mergeServiceSpecPreservingImmutable (s_spec old) (s_spec d) ?preserve \<or>
           sv = old \<and> \<not> serviceSpecsDiffer x (s_spec old) (s_spec d) ?preserve"
    using service_store.stored [OF service_exact run refl Some] by (auto simp: Let_def)
  have tidy: "tidy_service (s_spec d)" using tidy [OF Some] desiredService_spec [OF d] by (simp add: tidy_service_def)
  have "\<not> serviceSpecsDiffer x (s_spec sv) (s_spec d) ?preserve"
  proof (cases "d_services (view (world s)) (phare_key phare)")
    case None
    with spec merge_self [OF tidy] show ?thesis by (simp add: serviceSpecsDiffer_def Let_def)
  next
    case (Some old)
    with spec tidy merge_again [of "s_spec d" "s_spec old" ?preserve] show ?thesis
      by (auto simp: serviceSpecsDiffer_def tidy_service_def Let_def)
  qed
  with Some d sv show ?thesis
    by (simp add: service_settled_def service_differs_def stringMapsEqualNilEmpty_iff)
qed

lemma route_settles:
  assumes run: "handleHTTPRoute x cl (phare_key phare) phare s = (Inr (), t)"
  shows "route_settled x phare (view (world t))"
proof (cases "Option.bind (ps_toolChain (ph_spec phare)) tc_httpRoute")
  case None
  with route_done [OF run refl] show ?thesis by (simp add: route_settled_def)
next
  case (Some hr)
  then have run: "reconcileHttpRoute x cl (phare_key phare) phare hr s = (Inr (), t)"
    using run by (auto simp: handleHTTPRoute_def bind_eq_Some_conv)
  then obtain d where d: "desiredHttpRoute x phare hr = Some d"
    by (cases "desiredHttpRoute x phare hr") (simp_all add: reconcileHttpRoute_def)
  obtain r where r: "d_httpRoutes (view (world t)) (phare_key phare) = Some r"
    and u: "case d_httpRoutes (view (world s)) (phare_key phare) of
       None \<Rightarrow> (hr_spec r, gm_map (m_labels (hr_meta r))) = (hr_spec d, gm_map (m_labels (hr_meta d)))
     | Some old \<Rightarrow> if route_changed x d old
         then (hr_spec r, gm_map (m_labels (hr_meta r))) =
           (hr_spec (patched_route d old), gm_map (m_labels (hr_meta (patched_route d old))))
         else r = old"
    using store_client.create_or_patch_outcome [OF route_exact run [unfolded reconcileHttpRoute_built [OF d]]
        desiredHttpRoute_Some(1) [OF d]] by auto
  from u have "\<not> route_changed x d r"
    by (auto simp: stringMapsEqualNilEmpty_iff split: option.splits if_splits)
  with Some d r show ?thesis by (auto simp: route_settled_def)
qed

lemma run_settles:
  assumes diff: "diff_contract (x_cmpDiffDeployment x)" "diff_contract (x_cmpDiffStatefulSet x)"
    and run: "Reconcile x cl req s = (Inr (), t)" and phare: "d_phares (view (world s)) req = Some phare"
    and tidy: "\<And>svc. ps_service (ph_spec phare) = Some svc \<Longrightarrow> tidy_service svc"
  shows "settled x phare (view (world t))"
  using run
proof (cases rule: Reconcile_cases)
  case absent
  with phare fetch_absent show ?thesis by auto
next
  case (reconciled p s1 s2 p')
  with fetch_found [OF reconciled(1)] phare have p: "p = phare" "req = phare_key phare" by simp_all
  have p': "ph_meta p' = ph_meta phare" "ph_status p' = ph_status phare"
    using reconcileResources_same_object [of x cl req phare s1] reconciled(2) p(1) by simp_all
  from reconciled(2) p obtain a b c d e where steps: "reconcileService x cl req phare a = (Inr (), b)"
    "handleHTTPRoute x cl req phare b = (Inr (), c)" "handleGCPBackendPolicy x cl req phare c = (Inr (), d)"
    "handleHealthCheckPolicy x cl req phare d = (Inr (), e)" "fst (reconcileMicroService x cl phare e) = (Inr (), s2)"
    by (auto simp: reconcileResources_def split: prod.splits sum.splits)
  have only: "only_kinds {KHTTPRoute} (view (world b)) (view (world c))"
    "only_kinds {KGCPBackendPolicy} (view (world c)) (view (world d))"
    "only_kinds {KHealthCheckPolicy} (view (world d)) (view (world e))"
    "only_kinds {KDeployment, KStatefulSet} (view (world e)) (view (world s2))"
    using handle_only [OF p(2), of b x] handle_only [OF p(2), of c x] handle_only [OF p(2), of d x]
      workload_only [of e x phare] steps by simp_all
  have "service_settled x phare (view (world b))" "route_settled x phare (view (world c))"
    using service_settles [of x phare a b] route_settles [of x phare b c] steps tidy p(2) by simp_all
  moreover have "as_desired x phare (view (world s2))" "d_phares (view (world s2)) = d_phares (view (world s1))"
    using resources_done [OF diff p(2), of s1 s2] reconciled(2) p(1) by simp_all
  ultimately have "settled x phare (view (world s2))"
    using only settled_cong(1) [of "view (world s2)" "view (world b)"] settled_cong(2) [of "view (world s2)" "view (world c)"]
    by (auto simp: settled_def only_kinds_def as_desired_def exposed_as_desired_def policies_ready_def Let_def)
  moreover have "only_kinds {KPhare} (view (world s2)) (view (world t))"
    using updateStatus_done [of p' PharePhaseActive success_message s2 t phare] reconciled(3) p' p fetch_found [OF reconciled(1)]
      \<open>d_phares (view (world s2)) = d_phares (view (world s1))\<close> by simp
  ultimately show ?thesis by (simp add: settled_only)
qed simp_all

end

text \<open>Two versions of a Phare that ask for the same: the spec is the same, and of the metadata what the builders
  and the templates read. The status, the type, the generation and the opaque part of the metadata (which holds
  the resource version, new after every write) may differ.\<close>

definition same_request :: "'o ext \<Rightarrow> 'o phare \<Rightarrow> 'o phare \<Rightarrow> bool" where
  "same_request x p q \<longleftrightarrow> ph_spec q = ph_spec p \<and> phare_key q = phare_key p \<and>
     m_uid (ph_meta q) = m_uid (ph_meta p) \<and> m_labels (ph_meta q) = m_labels (ph_meta p) \<and>
     m_annotations (ph_meta q) = m_annotations (ph_meta p) \<and> rendered x (ph_meta q) = rendered x (ph_meta p)"

lemma same_request_eqs:
  assumes "same_request x p q"
  shows "ph_spec q = ph_spec p" "ph_name q = ph_name p" "ph_namespace q = ph_namespace p" "phare_key q = phare_key p"
    "m_uid (ph_meta q) = m_uid (ph_meta p)" "m_labels (ph_meta q) = m_labels (ph_meta p)"
    "m_annotations (ph_meta q) = m_annotations (ph_meta p)" "rendered x (ph_meta q) = rendered x (ph_meta p)"
  using assms by (simp_all add: same_request_def meta_key_def)

lemma desired_same:
  assumes "same_request x p q"
  shows "desiredService x p svc = Some d \<Longrightarrow> desiredService x q svc = Some d' \<Longrightarrow>
      s_spec d' = s_spec d \<and> m_labels (s_meta d') = m_labels (s_meta d) \<and> m_annotations (s_meta d') = m_annotations (s_meta d)"
    and "desiredHttpRoute x p hr = Some r \<Longrightarrow> desiredHttpRoute x q hr = Some r' \<Longrightarrow>
      hr_spec r' = hr_spec r \<and> m_labels (hr_meta r') = m_labels (hr_meta r)"
  using same_request_eqs [OF assms] by (auto simp: desiredService_def desiredHttpRoute_def Let_def
      split: option.splits if_splits dest!: set_controller_reference_Some)

lemma as_desired_same:
  assumes "same_request x p q"
  shows "config_map_as_desired x q c = config_map_as_desired x p c"
    "microservice_as_desired x q c = microservice_as_desired x p c"
    "policies_ready x q c = policies_ready x p c"
    "shouldReallocateNodePorts (Some q) = shouldReallocateNodePorts (Some p)"
  unfolding config_map_as_desired_def config_toolchain_def microservice_as_desired_def has_config_def
    workload_as_desired_def config_checksum_def pod_labels_def pod_annotations_def policies_ready_def
    shouldReallocateNodePorts_def option.case same_request_eqs [OF assms]
  by (rule refl)+

lemma settled_same:
  assumes "settled x p c" "same_request x p q"
    and built: "\<And>svc. ps_service (ph_spec p) = Some svc \<Longrightarrow> desiredService x p svc \<noteq> None"
      "\<And>hr. Option.bind (ps_toolChain (ph_spec p)) tc_httpRoute = Some hr \<Longrightarrow> desiredHttpRoute x p hr \<noteq> None"
  shows "settled x q c"
proof -
  note eqs = same_request_eqs [OF assms(2)]
  have "service_settled x q c"
    using settled_parts(2) [OF assms(1)] built(1) desired_same(1) [OF assms(2)] eqs
    by (fastforce simp: service_settled_def service_differs_def as_desired_same(4) [OF assms(2)] split: option.splits)
  moreover have "route_settled x q c"
    using settled_parts(3) [OF assms(1)] built(2) desired_same(2) [OF assms(2)] eqs
    by (fastforce simp: route_settled_def split: option.splits)
  ultimately show ?thesis
    using settled_parts [OF assms(1)] by (simp add: settled_def as_desired_same(1-3) [OF assms(2)])
qed

interpretation exact_cluster: exact_server cluster_client "\<lambda>w. w"
  by unfold_locales

section \<open>The second run\<close>

lemma route_built:
  assumes "handleHTTPRoute x cl req phare s = (Inr (), t)"
    and "Option.bind (ps_toolChain (ph_spec phare)) tc_httpRoute = Some hr"
  shows "desiredHttpRoute x phare hr \<noteq> None"
  using assms by (cases "desiredHttpRoute x phare hr") (auto simp: handleHTTPRoute_def bind_eq_Some_conv reconcileHttpRoute_def)

context api_server begin

lemma run_built:
  assumes "Reconcile x cl req s = (Inr (), t)" "d_phares (view (world s)) req = Some phare"
    and "Option.bind (ps_toolChain (ph_spec phare)) tc_httpRoute = Some hr"
  shows "desiredHttpRoute x phare hr \<noteq> None"
  using assms(1)
proof (cases rule: Reconcile_cases)
  case absent
  with assms(2) fetch_absent show ?thesis by auto
next
  case (reconciled p s1 s2 p')
  with fetch_found [OF reconciled(1)] assms(2) have "p = phare" by simp
  with reconciled(2) obtain a b where "handleHTTPRoute x cl req phare a = (Inr (), b)"
    by (auto simp: reconcileResources_def split: prod.splits sum.splits)
  from route_built [OF this assms(3)] show ?thesis .
qed simp_all

end


text \<open>A Phare with a Service on an empty cluster, twice: the first run creates the Service, the second only
  looks at it.\<close>

lemma service_run_ok: "fst (demo_run service_sample) = Inr ()"
  by code_simp

lemma service_run_phare:
  "d_phares (world (snd (demo_run service_sample))) demo_key = Some (service_sample
     \<lparr>ph_status := \<lparr>st_phase = PharePhaseActive, st_message = success_message\<rparr>\<rparr>)"
  by code_simp


end
