(* ===== verification/Control_Loop.thy ===== *)
theory Control_Loop
  imports Cluster
begin

text \<open>
  The controller as a state machine: the cluster and the queue of Phares that wait for a run. Users edit
  Phares, others change the objects of a Phare, the controller takes a Phare off the queue and runs
  \<open>Reconcile\<close>. What puts a Phare on the queue are the watches of \<open>SetupWithManager\<close>; a run that fails
  stays on it (\<open>Reconcile\<close> returns the error for that purpose). A run is one step here: edits that happen
  during a run are taken to happen before or after it. The queue and the event handlers are
  controller-runtime's; a queue that holds more than the model says is covered by the rule \<open>resync\<close>.
\<close>

section \<open>Runs leave the objects of other Phares alone\<close>

definition config_key :: "obj_key \<Rightarrow> obj_key" where
  "config_key k = (fst k, snd k @ ''-config'')"

lemma config_key_inject [simp]: "config_key k = config_key k' \<longleftrightarrow> k = k'"
  by (cases k; cases k') (simp add: config_key_def)

lemma config_key_phare [simp]: "config_key (phare_key p) = config_map_key p"
  by (simp add: config_key_def meta_key_def)

text \<open>The objects of the Phare \<open>k\<close> are the same in two clusters.\<close>

definition same_objects :: "obj_key \<Rightarrow> 'o cluster \<Rightarrow> 'o cluster \<Rightarrow> bool" where
  "same_objects k c c' \<longleftrightarrow> d_configMaps c' (config_key k) = d_configMaps c (config_key k) \<and>
     d_deployments c' k = d_deployments c k \<and> d_statefulSets c' k = d_statefulSets c k \<and>
     d_services c' k = d_services c k \<and> d_httpRoutes c' k = d_httpRoutes c k \<and>
     d_gcps c' k = d_gcps c k \<and> d_hcps c' k = d_hcps c k"

definition only_about :: "obj_key \<Rightarrow> 'o cluster \<Rightarrow> 'o cluster \<Rightarrow> bool" where
  "only_about k c c' \<longleftrightarrow> (\<forall>k'. k' \<noteq> k \<longrightarrow> d_phares c' k' = d_phares c k' \<and> same_objects k' c c')"

lemma only_about_refl [simp]: "only_about k c c"
  by (simp add: only_about_def same_objects_def)

lemma only_about_trans: "only_about k c c' \<Longrightarrow> only_about k c' c'' \<Longrightarrow> only_about k c c''"
  by (simp add: only_about_def same_objects_def)

lemma only_aboutD:
  "only_about k c c' \<Longrightarrow> k' \<noteq> k \<Longrightarrow> d_phares c' k' = d_phares c k'"
  "only_about k c c' \<Longrightarrow> k' \<noteq> k \<Longrightarrow> same_objects k' c c'"
  by (simp_all add: only_about_def del: split_paired_All)

lemma as_desired_objects:
  assumes "same_objects (phare_key p) c c'"
  shows "as_desired x p c' = as_desired x p c"
  using assms by (simp only: as_desired_def config_map_as_desired_def service_as_desired_def exposed_as_desired_def
      microservice_as_desired_def same_objects_def config_key_phare)

text \<open>The one law that the safety of the loop needs beyond \<open>api_server\<close>: a status update that is refused does
  not change other Phares.\<close>

locale loop_server = api_server cl view
  for cl :: "('w, 'o) client" and view :: "'w \<Rightarrow> 'o cluster" +
  assumes status_failed: "rc_status_update (cl_phare cl) p w = (Inl e, w') \<Longrightarrow>
    only_kind KPhare (view w) (view w') \<and> (\<forall>k. k \<noteq> phare_key p \<longrightarrow> d_phares (view w') k = d_phares (view w) k)"

sublocale api_server \<subseteq> about: run_relation "\<lambda>s t. only_about k (view (world s)) (view (world t))" for k
  by unfold_locales (auto intro: only_about_trans)

context api_server begin

lemma run_on_about:
  "phares.run_on k s t \<Longrightarrow> only_about k (view (world s)) (view (world t))"
  "services.run_on k s t \<Longrightarrow> only_about k (view (world s)) (view (world t))"
  "routes.run_on k s t \<Longrightarrow> only_about k (view (world s)) (view (world t))"
  "gcps.run_on k s t \<Longrightarrow> only_about k (view (world s)) (view (world t))"
  "hcps.run_on k s t \<Longrightarrow> only_about k (view (world s)) (view (world t))"
  "deployments.objects.run_on k s t \<Longrightarrow> only_about k (view (world s)) (view (world t))"
  "statefulSets.objects.run_on k s t \<Longrightarrow> only_about k (view (world s)) (view (world t))"
  "store_client.run_on (\<lambda>w. d_configMaps (view w)) (\<lambda>w w'. only_kind KConfigMap (view w) (view w')) (config_key k) s t \<Longrightarrow>
     only_about k (view (world s)) (view (world t))"
  unfolding phares.run_on_def services.run_on_def routes.run_on_def gcps.run_on_def hcps.run_on_def
    deployments.objects.run_on_def statefulSets.objects.run_on_def store_client.run_on_def [OF cm_store]
  by (simp_all add: only_about_def same_objects_def only_kind_def del: split_paired_All)

lemma unchanged_about: "only_kinds {} c c' \<Longrightarrow> only_about k c c'"
  by (simp add: only_about_def same_objects_def only_kinds_def)

lemma deployment_about: "only_about (phare_key phare) (view (world s)) (view (world (snd (fst (reconcileDeployment x cl phare s)))))"
proof (cases "newDeployment x phare"; cases "fst (newDeployment x phare)")
  fix o' p d assume "newDeployment x phare = (o', p)" "fst (newDeployment x phare) = Some d"
  then have new: "newDeployment x phare = (Some d, p)" by simp
  note key = newDeployment_meta [OF new] newDeployment_key [OF new]
  show ?thesis
    unfolding reconcileDeployment_built [OF new] checksum_and_patch_def fst_conv
  proof (rule about.case_step [OF unchanged_about [OF inject_only]])
    fix d' t assume "inject_checksum cl p d s = (Inr d', t)"
    then have "workload_key d' = phare_key phare" "(ph_namespace p, m_name (w_meta d')) = phare_key phare"
      using key by (simp_all add: inject_checksum_key meta_key_def)
    then show "only_about (phare_key phare) (view (world t)) (view (world (snd (create_or_patch KDeployment (cl_deployment cl)
        workload_key (ph_namespace p, m_name (w_meta d')) d' (\<lambda>e s. s) (\<lambda>s. s) (deployment_changed x d')
        (mergeDeployments d') None t))))"
      by (intro run_on_about(6)) (auto intro!: deployments.objects.create_or_patch_runs_on)
  qed simp
qed (simp add: reconcileDeployment_eq)

lemma statefulSet_about: "only_about (phare_key phare) (view (world s)) (view (world (snd (fst (reconcileStatefulSet x cl phare s)))))"
proof (cases "newStatefulSet x phare"; cases "fst (newStatefulSet x phare)")
  fix o' p d assume "newStatefulSet x phare = (o', p)" "fst (newStatefulSet x phare) = Some d"
  then have new: "newStatefulSet x phare = (Some d, p)" by simp
  note key = newStatefulSet_meta [OF new] newStatefulSet_key [OF new]
  show ?thesis
    unfolding reconcileStatefulSet_built [OF new] checksum_and_patch_def fst_conv
  proof (rule about.case_step [OF unchanged_about [OF inject_only]])
    fix d' t assume "inject_checksum cl p d s = (Inr d', t)"
    then have "workload_key d' = phare_key phare" "(ph_namespace p, m_name (w_meta d')) = phare_key phare"
      using key by (simp_all add: inject_checksum_key meta_key_def)
    then show "only_about (phare_key phare) (view (world t)) (view (world (snd (create_or_patch KStatefulSet (cl_statefulSet cl)
        workload_key (ph_namespace p, m_name (w_meta d')) d' (warn_vct d') (\<lambda>s. s) (statefulSet_changed x d')
        (mergeStatefulSets d') None t))))"
      by (intro run_on_about(7)) (auto intro!: statefulSets.objects.create_or_patch_runs_on)
  qed simp
qed (simp add: reconcileStatefulSet_eq)

lemma about_then:
  assumes "only_about k (view (world s)) (view (world (snd p)))"
    and "\<And>u t. p = (Inr u, t) \<Longrightarrow> only_about k (view (world t)) (view (world (snd (fst (K t)))))"
  shows "only_about k (view (world s)) (view (world (snd (fst
    (case p of (Inl e, t) \<Rightarrow> ((Inl e, t), ph) | (Inr u, t) \<Rightarrow> K t)))))"
  using assms by (cases p; cases "fst p") (auto intro: only_about_trans)

lemma workload_about:
  "only_about (phare_key phare) (view (world s)) (view (world (snd (fst (reconcileMicroService x cl phare s)))))"
  unfolding reconcileMicroService_def
  using run_on_about(7) [OF statefulSets.objects.deleteIfExists_runs_on, of "ph_namespace phare" "ph_name phare"]
    run_on_about(6) [OF deployments.objects.deleteIfExists_runs_on, of "ph_namespace phare" "ph_name phare"]
  by (auto simp: meta_key_def [symmetric] intro!: about_then deployment_about statefulSet_about)

lemma resources_about:
  assumes "req = phare_key phare"
  shows "only_about req (view (world s)) (view (world (snd (fst (reconcileResources x cl req phare s)))))"
  unfolding reconcileResources_def assms
  by (intro about_then workload_about refl
      run_on_about(8) [of "phare_key phare", unfolded config_key_phare, OF config_map_store.runs_on [OF config_map_laws]]
      run_on_about(2) [OF services.runs_on] run_on_about(3) [OF handle_route_runs_on]
      run_on_about(4) [OF handle_gcp_runs_on] run_on_about(5) [OF handle_hcp_runs_on])

end

context loop_server begin

lemma status_about:
  "only_about (phare_key p) (view (world s)) (view (world (snd (updateStatus cl p ph m s))))"
proof (cases "st_phase (ph_status p) = ph \<and> st_message (ph_status p) = m")
  case True
  then show ?thesis by (simp add: updateStatus_def)
next
  case False
  let ?p = "p\<lparr>ph_status := \<lparr>st_phase = ph, st_message = m\<rparr>\<rparr>"
  have p: "(ph_status p)\<lparr>st_phase := ph, st_message := m\<rparr> = \<lparr>st_phase = ph, st_message = m\<rparr>" by (cases "ph_status p") simp
  obtain r t where r: "send StatusUpdate KPhare (phare_key p) (rc_status_update (cl_phare cl) ?p) s = (r, t)" by fastforce
  have "only_about (phare_key p) (view (world s)) (view (world t))"
  proof (cases r)
    case (Inl e)
    with status_failed [OF send_world] r show ?thesis
      by (fastforce simp: only_about_def same_objects_def only_kind_def)
  next
    case (Inr u)
    with status_ok [OF send_world] r show ?thesis
      by (fastforce simp: only_about_def same_objects_def only_kind_def)
  qed
  with False r show ?thesis by (auto simp: updateStatus_def Let_def p split: sum.splits)
qed

lemma run_about:
  assumes "Reconcile x cl req s = (r, t)"
  shows "only_about req (view (world s)) (view (world t))"
proof -
  obtain f s1 where fetch: "fetchPhareResource cl req s = (f, s1)" by fastforce
  have s1: "only_about req (view (world s)) (view (world s1))"
    using run_on_about(1) [OF phares.run_on_get, of req s Get KPhare req req] fetch
    by (auto simp: fetchPhareResource_def split: prod.splits sum.splits if_splits)
  have found: "only_about req (view (world s)) (view (world (snd (updateStatus cl p ph m s2))))"
    if "f = Inr (Some phare)" "reconcileResources x cl req phare s1 = ((r2, s2), p)" for phare r2 s2 p ph m
  proof -
    have "req = phare_key phare" using fetch_found fetch that(1) by simp
    moreover from this have "phare_key p = req"
      using reconcileResources_same_object [of x cl req phare s1] that(2) by simp
    ultimately show ?thesis
      using s1 resources_about [of req phare s1 x] status_about [of p s2 ph m] that by (auto intro: only_about_trans)
  qed
  from assms show ?thesis
  proof (cases rule: Reconcile_cases)
    case (reconciled phare s1' s2 p)
    with found [of phare "Inr ()" s2 p PharePhaseActive success_message] fetch show ?thesis by simp
  next
    case (failed phare s1' e s2 p)
    with found [of phare "Inl e" s2 p PharePhaseFailed "error_string e"] fetch show ?thesis by simp
  qed (use fetch s1 in auto)
qed

end

section \<open>The loop\<close>

text \<open>What a watch reports of one object that changed: its creation, an update or its deletion.\<close>

fun change_event :: "watched option \<Rightarrow> watched option \<Rightarrow> watch_event option" where
  "change_event None None = None"
| "change_event None (Some new) = Some (CreateEvent new)"
| "change_event (Some old) (Some new) = Some (UpdateEvent (Some old) (Some new))"
| "change_event (Some old) None = Some (DeleteEvent old)"

definition seen :: "bool \<Rightarrow> 'o meta \<Rightarrow> watched" where
  "seen sts m = \<lparr>wo_labels = m_labels m, wo_generation = m_generation m, wo_statefulSet = sts\<rparr>"

text \<open>The object of a kind that belongs to the Phare \<open>k\<close>, as the predicates see it.\<close>

fun observe :: "'o ext \<Rightarrow> kind \<Rightarrow> 'o cluster \<Rightarrow> obj_key \<Rightarrow> watched option" where
  "observe x KPhare c k = map_option (\<lambda>p. seen False (ph_meta p)) (d_phares c k)"
| "observe x KDeployment c k = map_option (\<lambda>w. seen False (w_meta w)) (d_deployments c k)"
| "observe x KStatefulSet c k = map_option (\<lambda>w. seen True (w_meta w)) (d_statefulSets c k)"
| "observe x KService c k = map_option (\<lambda>s. seen False (s_meta s)) (d_services c k)"
| "observe x KConfigMap c k = map_option (\<lambda>m. seen False (cm_meta m)) (d_configMaps c (config_key k))"
| "observe x KHTTPRoute c k = map_option (\<lambda>r. seen False (hr_meta r)) (d_httpRoutes c k)"
| "observe x KGCPBackendPolicy c k = map_option (\<lambda>u. \<lparr>wo_labels = x_getLabels x (u_labels u), wo_generation = 0,
    wo_statefulSet = False\<rparr>) (d_gcps c k)"
| "observe x KHealthCheckPolicy c k = map_option (\<lambda>u. \<lparr>wo_labels = x_getLabels x (u_labels u), wo_generation = 0,
    wo_statefulSet = False\<rparr>) (d_hcps c k)"

text \<open>A change of that object passes the predicates of its kind.\<close>

definition noticed :: "'o ext \<Rightarrow> kind \<Rightarrow> 'o cluster \<Rightarrow> 'o cluster \<Rightarrow> obj_key \<Rightarrow> bool" where
  "noticed x kd c c' k \<longleftrightarrow>
     (case change_event (observe x kd c k) (observe x kd c' k) of None \<Rightarrow> False | Some ev \<Rightarrow> starts_run kd ev)"

text \<open>The Phares that a step puts on the queue because the Phare itself changed.\<close>

definition woken :: "'o ext \<Rightarrow> 'o cluster \<Rightarrow> 'o cluster \<Rightarrow> obj_key set" where
  "woken x c c' = {k. d_phares c' k \<noteq> d_phares c k \<and> noticed x KPhare c c' k}"

inductive loop_step :: "'o ext \<Rightarrow> ('w, 'o) client \<Rightarrow> ('w \<Rightarrow> 'o cluster) \<Rightarrow> 'w \<times> obj_key set \<Rightarrow> 'w \<times> obj_key set \<Rightarrow> bool"
  for x cl view where
  edit: "only_kind KPhare (view w) (view w') \<Longrightarrow>
    loop_step x cl view (w, Q) (w', Q \<union> woken x (view w) (view w'))"
| drift: "only_about k (view w) (view w') \<Longrightarrow> d_phares (view w') = d_phares (view w) \<Longrightarrow>
    only_kind kd (view w) (view w') \<Longrightarrow> noticed x kd (view w) (view w') k \<Longrightarrow>
    loop_step x cl view (w, Q) (w', insert k Q)"
| resync: "loop_step x cl view (w, Q) (w, insert k Q)"
| run: "k \<in> Q \<Longrightarrow> Reconcile x cl k (initial w) = (r, t) \<Longrightarrow>
    loop_step x cl view (w, Q)
      (world t, (if r = Inr () then Q - {k} else Q) \<union> woken x (view w) (view (world t)))"

text \<open>No predicate holds back the events of a Phare.\<close>

lemma woken_iff [simp]: "k \<in> woken x c c' \<longleftrightarrow> d_phares c' k \<noteq> d_phares c k"
  by (cases "d_phares c k"; cases "d_phares c' k")
    (simp_all add: woken_def noticed_def starts_run_def watch_predicates_def)

text \<open>Which changes of an owned object are noticed: those of an object that carries the label of the controller,
  before or after. A Service whose label the Phare overrides is not watched (\<open>service_label_override_unwatched\<close>),
  and of a StatefulSet an update of the status alone is not enough (\<open>statefulSet_update_starts_run\<close>).\<close>

lemma noticed_iff:
  assumes "kd \<noteq> KPhare" "kd \<noteq> KStatefulSet"
  shows "noticed x kd c c' k \<longleftrightarrow> (\<exists>o' \<in> set_option (observe x kd c k) \<union> set_option (observe x kd c' k).
    label_is ''app.kubernetes.io/created-by'' ''phare-controller'' o')"
proof -
  have "watch_predicates kd = [defaultLabelPredicate ''app.kubernetes.io/created-by'' ''phare-controller'']"
    using assms by (cases kd) (simp_all add: watch_predicates_def)
  then show ?thesis
    by (cases "observe x kd c k"; cases "observe x kd c' k") (auto simp: noticed_def starts_run_def Let_def)
qed

lemma woken_about:
  assumes "only_about k c c'"
  shows "woken x c c' \<subseteq> {k}" and "d_phares c' k = d_phares c k \<Longrightarrow> woken x c c' = {}"
proof -
  show "woken x c c' \<subseteq> {k}"
  proof
    fix k' assume "k' \<in> woken x c c'"
    with only_aboutD(1) [OF assms, of k'] show "k' \<in> {k}" by (cases "k' = k") simp_all
  qed
  moreover assume "d_phares c' k = d_phares c k"
  then have "k \<notin> woken x c c'" by simp
  ultimately show "woken x c c' = {}" by blast
qed

text \<open>The invariant: a Phare that does not wait for a run is as desired and says so.\<close>

definition idle_ok :: "'o ext \<Rightarrow> 'o cluster \<Rightarrow> obj_key set \<Rightarrow> bool" where
  "idle_ok x c Q \<longleftrightarrow> (\<forall>k p. k \<notin> Q \<longrightarrow> d_phares c k = Some p \<longrightarrow>
     phare_key p = k \<and> as_desired x p c \<and>
     ph_status p = \<lparr>st_phase = PharePhaseActive, st_message = success_message\<rparr>)"

lemma idle_okD:
  assumes "idle_ok x c Q" "k \<notin> Q" "d_phares c k = Some p"
  shows "phare_key p = k" "as_desired x p c"
    "ph_status p = \<lparr>st_phase = PharePhaseActive, st_message = success_message\<rparr>"
  using assms unfolding idle_ok_def by blast+

lemma idle_ok_other:
  assumes "idle_ok x c Q" "k \<notin> Q" "d_phares c' k = Some p" "d_phares c' k = d_phares c k" "same_objects k c c'"
  shows "phare_key p = k \<and> as_desired x p c' \<and>
    ph_status p = \<lparr>st_phase = PharePhaseActive, st_message = success_message\<rparr>"
  using idle_okD [OF assms(1,2), of p] as_desired_objects [of p c c'] assms(3-5) by simp

lemma idle_ok_step:
  assumes "idle_ok x c Q"
    and "\<And>k. k \<notin> Q' \<Longrightarrow> k \<notin> Q \<and> d_phares c' k = d_phares c k \<and> same_objects k c c'"
  shows "idle_ok x c' Q'"
  unfolding idle_ok_def using assms(2) idle_ok_other [OF assms(1)] by blast

context loop_server begin

lemma run_key:
  assumes "Reconcile x cl req s = (Inr (), t)" "d_phares (view (world s)) req = Some p"
  shows "phare_key p = req"
  using assms(1)
proof (cases rule: Reconcile_cases)
  case absent
  with fetch_absent assms(2) show ?thesis by auto
next
  case reconciled
  with fetch_found assms(2) show ?thesis by fastforce
qed simp_all

lemma loop_step_idle_ok:
  assumes diff: "diff_contract (x_cmpDiffDeployment x)" "diff_contract (x_cmpDiffStatefulSet x)"
    and step: "loop_step x cl view a b" and ok: "idle_ok x (view (fst a)) (snd a)"
  shows "idle_ok x (view (fst b)) (snd b)"
  using step ok
proof cases
  case (edit w w' Q)
  then have "same_objects k (view w) (view w')" for k by (simp add: only_kind_def same_objects_def)
  with edit ok show ?thesis by (auto intro: idle_ok_step)
next
  case (drift k w w' kd Q)
  with ok idle_ok_step [of x "view w" Q "insert k Q" "view w'"] show ?thesis
    by (simp add: only_about_def del: split_paired_All)
next
  case (resync w Q k)
  with ok show ?thesis by (auto intro: idle_ok_step simp: same_objects_def)
next
  case (run k Q w r t)
  note about = run_about [OF run(4)]
  show ?thesis
    unfolding idle_ok_def
  proof (intro allI impI)
    fix k' p assume k': "k' \<notin> snd b" "d_phares (view (fst b)) k' = Some p"
    then have same: "d_phares (view (world t)) k' = d_phares (view w) k'" using run(2) by simp
    show "phare_key p = k' \<and> as_desired x p (view (fst b)) \<and>
      ph_status p = \<lparr>st_phase = PharePhaseActive, st_message = success_message\<rparr>"
    proof (cases "k' = k")
      case True
      with k' run(2,3) have "r = Inr ()" by (simp split: if_splits)
      with run(4) have ran: "Reconcile x cl k (initial w) = (Inr (), t)" by simp
      have p: "d_phares (view (world t)) k = Some p" "d_phares (view w) k = Some p"
        using True k'(2) same run(2) by simp_all
      from run_done [OF diff ran] run_key [OF ran, of p] True run(2) p show ?thesis by simp
    next
      case False
      with k' run(2) have "k' \<notin> Q" by (simp split: if_splits)
      with idle_ok_other [of x "view w" Q k' "view (world t)" p] about False ok run(1,2) k'(2) same
      show ?thesis by (simp add: only_about_def del: split_paired_All)
    qed
  qed
qed

end

interpretation loop_cluster: loop_server cluster_client "\<lambda>w. w"
  by unfold_locales (auto simp: cluster_client_def map_client_def Let_def only_kind_def split: option.splits)


text \<open>The controller starts on a cluster with one Phare. The first run creates its objects and writes the
  status, which puts the Phare on the queue again; the second run finds nothing to do and leaves the queue empty.\<close>

definition second_demo_run :: "(go_error + unit) \<times> unit cluster st" where
  "second_demo_run = Reconcile sample_ext cluster_client demo_key (initial (world (snd (demo_run sample_phare))))"

definition demo_start :: "unit cluster" where
  "demo_start = empty_cluster\<lparr>d_phares := [demo_key \<mapsto> sample_phare]\<rparr>"

lemma second_demo_run_facts:
  "fst second_demo_run = Inr ()"
  "d_phares (world (snd second_demo_run)) demo_key = d_phares (world (snd (demo_run sample_phare))) demo_key"
  by code_simp+

lemma first_demo_run_facts: "fst (demo_run sample_phare) = Inr ()"
  by code_simp

lemma demo_queue_drains:
  "(loop_step sample_ext cluster_client (\<lambda>w. w))\<^sup>*\<^sup>* (demo_start, {demo_key}) (world (snd second_demo_run), {})"
proof -
  let ?step = "loop_step sample_ext cluster_client (\<lambda>w. w)"
  have run1: "Reconcile sample_ext cluster_client demo_key (initial demo_start) = (Inr (), snd (demo_run sample_phare))"
    using first_demo_run_facts by (simp add: demo_run_def demo_start_def prod_eq_iff)
  have run2: "Reconcile sample_ext cluster_client demo_key (initial (world (snd (demo_run sample_phare)))) =
      (Inr (), snd second_demo_run)"
    using second_demo_run_facts(1) by (simp add: second_demo_run_def prod_eq_iff)
  let ?w1 = "world (snd (demo_run sample_phare))"
  have "woken sample_ext demo_start ?w1 \<subseteq> {demo_key}"
    using woken_about(1) [OF loop_cluster.run_about [OF run1]] by simp
  then have w1: "insert demo_key (woken sample_ext demo_start ?w1) = {demo_key}" by blast
  have w2: "woken sample_ext ?w1 (world (snd second_demo_run)) = {}"
    using woken_about(2) [OF loop_cluster.run_about [OF run2]] second_demo_run_facts(2) by simp
  have s1: "?step (demo_start, {demo_key}) (?w1, woken sample_ext demo_start ?w1)"
    using loop_step.run [OF _ run1, of "{demo_key}" "\<lambda>w. w"] by simp
  have s2: "?step (?w1, woken sample_ext demo_start ?w1) (?w1, {demo_key})"
    using loop_step.resync [of sample_ext cluster_client "\<lambda>w. w" ?w1 "woken sample_ext demo_start ?w1" demo_key]
    by (simp only: w1)
  have s3: "?step (?w1, {demo_key}) (world (snd second_demo_run), {})"
    using loop_step.run [OF _ run2, of "{demo_key}" "\<lambda>w. w"] w2 by simp
  from s1 s2 s3 show ?thesis by (meson r_into_rtranclp rtranclp_trans)
qed


end
