(* ===== verification/Yaml_Diff.thy ===== *)
theory Yaml_Diff
  imports Canonical_Json
begin

text \<open>
  The structural difference of two YAML values (pkg/yamldiff/diff.go).

  The values are those of \<open>yaml.UnmarshalWithOptions(.., yaml.UseOrderedMap())\<close>: nil, booleans,
  \<open>int64\<close> (negative numbers) and \<open>uint64\<close>, finite \<open>float64\<close>, strings, \<open>yaml.MapSlice\<close> (a list of
  entries in the order of the text) and \<open>[]interface{}\<close>; the decoder never shares or nests a value in
  itself. \<open>RMissing\<close> is the code's \<open>missingKey\<close>. A key that is not a string is kept by its text.

  \<open>fl\<close> is \<open>strconv\<close>'s shortest decimal form of a \<open>float64\<close>, which \<open>fmt.Sprint\<close> prints. Counts are the
  lengths of texts in memory, so \<open>math.MaxInt\<close>, the start of the search for the smallest difference,
  is above all of them: that start is \<open>None\<close> here.
\<close>

section \<open>Values\<close>

datatype rkey = KString string | KOther string

datatype raw = RNil | RMissing | RBool bool | RInt int64 | RUint "64 word" | RFloat rat
  | RString string | RMap "(rkey \<times> raw) list" | RArr "raw list"

definition fakeForMissingKey :: string where
  "fakeForMissingKey = ''000_unexpected-key_000''"

definition key_string :: "rkey \<Rightarrow> string" where
  "key_string k = (case k of KString s \<Rightarrow> s | KOther t \<Rightarrow> fakeForMissingKey)"

definition tryMap :: "raw \<Rightarrow> (rkey \<times> raw) list option" where
  "tryMap x = (case x of RMap m \<Rightarrow> Some m | _ \<Rightarrow> None)"

definition tryArray :: "raw \<Rightarrow> raw list option" where
  "tryArray x = (case x of RArr a \<Rightarrow> Some a | _ \<Rightarrow> None)"

lemma size_entry [termination_simp]: "(k, v) \<in> set m \<Longrightarrow> size v < Suc (size_list (size_prod (\<lambda>_. 0) size) m)"
  by (induction m) auto

lemma size_entry' [termination_simp]: "(k, v) \<in> set m \<Longrightarrow> size v < Suc (size_list (size_prod size size) m)"
  by (induction m) auto

lemma size_element: "v \<in> set vs \<Longrightarrow> size v < Suc (size_list size vs)"
  by (induction vs) auto

fun join :: "string \<Rightarrow> string list \<Rightarrow> string" where
  "join sep [] = []"
| "join sep [s] = s"
| "join sep (s # t # ss) = s @ sep @ join sep (t # ss)"

text \<open>\<open>fmt.Sprint\<close>\<close>

definition key_text :: "rkey \<Rightarrow> string" where
  "key_text k = (case k of KString s \<Rightarrow> s | KOther t \<Rightarrow> t)"

definition sprint_bool :: "bool \<Rightarrow> string" where
  "sprint_bool b = (if b then ''true'' else ''false'')"

fun sprint :: "(rat \<Rightarrow> string) \<Rightarrow> raw \<Rightarrow> string" where
  "sprint fl RNil = ''<nil>''"
| "sprint fl RMissing = ''{}''"
| "sprint fl (RBool b) = sprint_bool b"
| "sprint fl (RInt i) = go_itoa (sint i)"
| "sprint fl (RUint u) = go_itoa (uint u)"
| "sprint fl (RFloat r) = fl r"
| "sprint fl (RString s) = s"
| "sprint fl (RMap m) =
     ''['' @ join '' '' (map (\<lambda>(k, v). ''{'' @ key_text k @ '' '' @ sprint fl v @ ''}'') m) @ '']''"
| "sprint fl (RArr vs) = ''['' @ join '' '' (map (sprint fl) vs) @ '']''"

text \<open>\<open>[]rune(s)\<close>; a rune is its UTF-8 encoding.\<close>

function runes :: "string \<Rightarrow> string list" where
  "runes s =
     (if s = [] then []
      else if rune_length s = 0 then replacement # runes (tl s)
      else take (rune_length s) s # runes (drop (rune_length s) s))"
  by pat_completeness auto
termination
  by (relation "measure length") auto

declare runes.simps [simp del]

text \<open>\<open>reflect.ValueOf(x).IsValid() && reflect.ValueOf(x).IsZero()\<close>\<close>

fun is_zero :: "raw \<Rightarrow> bool" where
  "is_zero (RBool b) = (\<not> b)"
| "is_zero (RInt i) = (i = 0)"
| "is_zero (RUint u) = (u = 0)"
| "is_zero (RFloat r) = (r = 0)"
| "is_zero (RString s) = (s = [])"
| "is_zero RMissing = True"
| "is_zero _ = False"

section \<open>Differences\<close>

datatype DiffStatus = DiffStatusSame | DiffStatusDiff | DiffStatus1Missing | DiffStatus2Missing

datatype diff = Diff (d_a: raw) (d_b: raw) (d_children: children) (d_status: DiffStatus)
    (d_count: nat) (d_level: nat)
and children = NoChildren | ArrChildren "diff list" | MapChildren "(string, diff) fmap"

record do_options =
  emptyAsNull :: bool
  zeroAsNull :: bool

text \<open>The loop over the runes of A; \<open>None\<close> when it ends without \<open>break\<close>.\<close>

fun rune_loop :: "nat \<Rightarrow> string list \<Rightarrow> nat \<Rightarrow> string list \<Rightarrow> nat option" where
  "rune_loop maxLen strB nA [] = None"
| "rune_loop maxLen strB nA (a # rest) =
     (if length strB \<le> nA then Some (maxLen - nA)
      else if a \<noteq> strB ! nA then Some (maxLen - nA)
      else rune_loop maxLen strB (Suc nA) rest)"

definition diff_size :: "string list \<Rightarrow> string list \<Rightarrow> nat \<Rightarrow> nat" where
  "diff_size strA strB diffCount =
     (let maxLen = (if length strA < length strB then length strB else length strA);
          diffCount = (case rune_loop maxLen strB 0 strA of Some n \<Rightarrow> n | None \<Rightarrow> diffCount)
      in if diffCount = 0 then maxLen - length strA else diffCount)"

definition handlePrimitive ::
  "(rat \<Rightarrow> string) \<Rightarrow> do_options \<Rightarrow> raw \<Rightarrow> raw \<Rightarrow> nat \<Rightarrow> diff" where
  "handlePrimitive fl opt rawA rawB level =
     (let strA = runes (sprint fl rawA); strB = runes (sprint fl rawB);
          different = \<lambda>diffCount. Diff rawA rawB NoChildren DiffStatusDiff (diff_size strA strB diffCount) level;
          same = Diff rawA rawB NoChildren DiffStatusSame 0 level
      in
      if rawA = RNil \<and> rawB = RNil then same
      else if rawA = RMissing then
        (if emptyAsNull opt \<and> (rawB = RNil \<or> concat strB = ''{}'' \<or> concat strB = ''[]'') \<or>
            zeroAsNull opt \<and> is_zero rawB
         then same
         else Diff RNil rawB NoChildren DiffStatus1Missing (length strB) level)
      else if rawB = RMissing then
        (if emptyAsNull opt \<and> rawA = RNil \<or> zeroAsNull opt \<and> is_zero rawA
         then same
         else Diff rawA RNil NoChildren DiffStatus2Missing (length strA) level)
      else if rawA = RNil then different (length strB)
      else if rawB = RNil then different (length strA)
      else if rawA = rawB then same
      else different 0)"

section \<open>Maps\<close>

text \<open>The inner loops of \<open>handleMap\<close>: the first entry with the key.\<close>

fun find_value :: "string \<Rightarrow> (rkey \<times> raw) list \<Rightarrow> raw option" where
  "find_value key [] = None"
| "find_value key ((k, v) # m) = (if key_string k = key then Some v else find_value key m)"

text \<open>The children in the order in which they are computed: the entries of A, then those of B that A
  does not have.\<close>

definition map_pairs ::
  "(raw \<Rightarrow> raw \<Rightarrow> nat \<Rightarrow> diff) \<Rightarrow> (rkey \<times> raw) list \<Rightarrow> (rkey \<times> raw) list \<Rightarrow> nat \<Rightarrow> (string \<times> diff) list" where
  "map_pairs f mapA mapB level =
     map (\<lambda>(k, v). (key_string k,
       case find_value (key_string k) mapB of
         Some w \<Rightarrow> f v w (level + 1)
       | None \<Rightarrow> f v RMissing (level + 1))) mapA @
     map (\<lambda>(k, w). (key_string k, f RMissing w (level + 1)))
       (filter (\<lambda>(k, w). find_value (key_string k) mapA = None) mapB)"

definition store_children :: "(string \<times> diff) list \<Rightarrow> (string, diff) fmap" where
  "store_children ps = fold (\<lambda>(k, d) m. fmupd k d m) ps fmempty"

definition children_count :: "(string, diff) fmap \<Rightarrow> nat" where
  "children_count m = sum_list (map (\<lambda>(k, d). d_count d) (sorted_list_of_fmap m))"

definition handleMap ::
  "(raw \<Rightarrow> raw \<Rightarrow> nat \<Rightarrow> diff) \<Rightarrow> (rat \<Rightarrow> string) \<Rightarrow> do_options \<Rightarrow> raw \<Rightarrow> raw \<Rightarrow> nat \<Rightarrow> diff option" where
  "handleMap f fl opt rawA rawB level =
     (case (tryMap rawA, tryMap rawB) of
        (None, None) \<Rightarrow> None
      | (Some mapA, Some mapB) \<Rightarrow>
          (let ps = map_pairs f mapA mapB level in
           Some (Diff rawA rawB (MapChildren (store_children ps))
             (if \<exists>p \<in> set ps. d_status (snd p) \<noteq> DiffStatusSame then DiffStatusDiff else DiffStatusSame)
             (children_count (store_children ps)) level))
      | _ \<Rightarrow> Some (Diff rawA rawB NoChildren DiffStatusDiff
          (d_count (handlePrimitive fl opt rawA rawB level)) level))"

section \<open>Arrays\<close>

text \<open>The difference of each pair of elements is \<open>matrix ! keyA ! keyB\<close>, the value that the code stores
  under the key \<open>"keyA-keyB"\<close>; the code computes a row up to the first pair that is the same, and
  reads only what it has computed.\<close>

fun first_same :: "nat \<Rightarrow> diff list \<Rightarrow> (nat \<times> diff) option" where
  "first_same keyB [] = None"
| "first_same keyB (d # ds) =
     (if d_status d = DiffStatusSame then Some (keyB, d) else first_same (Suc keyB) ds)"

fun match_loop ::
  "nat \<Rightarrow> diff list list \<Rightarrow> diff list \<Rightarrow> nat set \<Rightarrow> nat set \<Rightarrow> diff list \<times> nat set \<times> nat set" where
  "match_loop keyA [] children foundA foundB = (children, foundA, foundB)"
| "match_loop keyA (row # rows) children foundA foundB =
     (case first_same 0 row of
        None \<Rightarrow> match_loop (Suc keyA) rows children foundA foundB
      | Some (keyB, d) \<Rightarrow>
          match_loop (Suc keyA) rows (children @ [d]) (insert keyA foundA) (insert keyB foundB))"

definition unfound :: "nat \<Rightarrow> nat set \<Rightarrow> nat list" where
  "unfound n found = filter (\<lambda>k. k \<notin> found) [0..<n]"

lemma set_unfound [simp]: "set (unfound n found) = {..<n} - found"
  by (auto simp: unfound_def)

lemma distinct_unfound [simp]: "distinct (unfound n found)"
  by (simp add: unfound_def)

lemma unfound_insert: "unfound n (insert k found) = filter (\<lambda>i. i \<noteq> k) (unfound n found)"
  unfolding unfound_def filter_filter by (rule filter_cong) auto

lemma unfound_shrinks:
  "k \<in> set (unfound n found) \<Longrightarrow> length (unfound n (insert k found)) < length (unfound n found)"
  unfolding unfound_insert by (rule length_filter_less) simp_all

fun smaller_of :: "diff list list \<Rightarrow> nat \<times> nat \<Rightarrow> (diff \<times> nat \<times> nat) option \<Rightarrow> (diff \<times> nat \<times> nat) option" where
  "smaller_of matrix (keyA, keyB) smallest =
     (let d = matrix ! keyA ! keyB in
      if d_status d = DiffStatusSame then smallest
      else (case smallest of
          None \<Rightarrow> Some (d, keyA, keyB)
        | Some (e, _) \<Rightarrow> if d_count e > d_count d then Some (d, keyA, keyB) else smallest))"

definition smallest_diff ::
  "diff list list \<Rightarrow> nat list \<Rightarrow> nat list \<Rightarrow> (diff \<times> nat \<times> nat) option" where
  "smallest_diff matrix keysA keysB = fold (smaller_of matrix) (List.product keysA keysB) None"

lemma smallest_diff_in:
  assumes "smallest_diff matrix keysA keysB = Some (d, i, j)"
  shows "i \<in> set keysA \<and> j \<in> set keysB \<and> d = matrix ! i ! j"
proof -
  have "fold (smaller_of matrix) ps best = Some (d, i, j) \<Longrightarrow>
      best = Some (d, i, j) \<or> (i, j) \<in> set ps \<and> d = matrix ! i ! j" for ps best
  proof (induction ps arbitrary: best)
    case (Cons p ps)
    then show ?case
      by (cases p) (fastforce simp: Let_def split: if_splits option.splits prod.splits)
  qed simp
  from this [of "List.product keysA keysB" None] assms show ?thesis
    by (simp add: smallest_diff_def)
qed

text \<open>The loop over the elements that are left. It ends when one side is used up; the case \<open>None\<close> of the
  search does not arise (\<open>smallest_diff_found\<close>).\<close>

function pair_loop ::
  "diff list list \<Rightarrow> diff list \<Rightarrow> diff list \<Rightarrow> diff list \<Rightarrow> nat set \<Rightarrow> nat set \<Rightarrow> diff list" where
  "pair_loop matrix onlyA onlyB children foundA foundB =
     (if unfound (length onlyA) foundA = [] then
        children @ map (\<lambda>k. onlyB ! k) (unfound (length onlyB) foundB)
      else if unfound (length onlyB) foundB = [] then
        children @ map (\<lambda>k. onlyA ! k) (unfound (length onlyA) foundA)
      else
        (case smallest_diff matrix (unfound (length onlyA) foundA) (unfound (length onlyB) foundB) of
           None \<Rightarrow> children
         | Some (d, keyA, keyB) \<Rightarrow>
             pair_loop matrix onlyA onlyB (children @ [d]) (insert keyA foundA) (insert keyB foundB)))"
  by pat_completeness auto
termination
proof (relation "measure (\<lambda>(matrix, onlyA, onlyB, children, foundA, foundB). length (unfound (length onlyA) foundA))")
  fix matrix :: "diff list list" and onlyA onlyB children :: "diff list" and foundA foundB
    and z p d keyA keyB
  assume "smallest_diff matrix (unfound (length onlyA) foundA) (unfound (length onlyB) foundB) = Some z"
    and "(d, p) = z" "(keyA, keyB) = p"
  then have "keyA \<in> set (unfound (length onlyA) foundA)" by (auto dest!: smallest_diff_in)
  then show "((matrix, onlyA, onlyB, children @ [d], insert keyA foundA, insert keyB foundB),
      matrix, onlyA, onlyB, children, foundA, foundB)
    \<in> measure (\<lambda>(matrix, onlyA, onlyB, children, foundA, foundB). length (unfound (length onlyA) foundA))"
    using unfound_shrinks by simp
qed simp

declare pair_loop.simps [simp del]

definition array_diff ::
  "raw \<Rightarrow> raw \<Rightarrow> diff list list \<Rightarrow> diff list \<Rightarrow> diff list \<Rightarrow> nat \<Rightarrow> diff" where
  "array_diff rawA rawB matrix onlyA onlyB level =
     (case match_loop 0 matrix [] {} {} of
        (children, foundA, foundB) \<Rightarrow>
          if unfound (length onlyA) foundA = [] \<and> unfound (length onlyB) foundB = [] then
            Diff rawA rawB (ArrChildren children) DiffStatusSame 0 level
          else
            (let children = pair_loop matrix onlyA onlyB children foundA foundB in
             Diff rawA rawB (ArrChildren children) DiffStatusDiff
               (sum_list (map d_count children)) level))"

definition handleArray ::
  "(raw \<Rightarrow> raw \<Rightarrow> nat \<Rightarrow> diff) \<Rightarrow> (rat \<Rightarrow> string) \<Rightarrow> do_options \<Rightarrow> raw \<Rightarrow> raw \<Rightarrow> nat \<Rightarrow> diff option" where
  "handleArray f fl opt rawA rawB level =
     (case (tryArray rawA, tryArray rawB) of
        (None, None) \<Rightarrow> None
      | (Some arrayA, Some arrayB) \<Rightarrow>
          Some (array_diff rawA rawB
            (map (\<lambda>valA. map (\<lambda>valB. f valA valB (level + 1)) arrayB) arrayA)
            (map (\<lambda>valA. f valA RNil (level + 1)) arrayA)
            (map (\<lambda>valB. f RNil valB (level + 1)) arrayB) level)
      | _ \<Rightarrow> Some (Diff rawA rawB NoChildren DiffStatusDiff
          (d_count (handlePrimitive fl opt rawA rawB level)) level))"

section \<open>The recursion\<close>

lemma find_value_size: "find_value key m = Some w \<Longrightarrow> size w < size (RMap m)"
  by (induction m) (auto split: if_splits)

lemma find_value_mem: "find_value key m = Some w \<Longrightarrow> \<exists>k. (k, w) \<in> set m \<and> key_string k = key"
  by (induction m) (auto split: if_splits)

lemma handleMap_cong [fundef_cong]:
  assumes "rawA = rawA'" "rawB = rawB'" "level = level'" "fl = fl'" "opt = opt'"
    and rec: "\<And>x y l. size x + size y < size rawA' + size rawB' \<Longrightarrow> f x y l = g x y l"
  shows "handleMap f fl opt rawA rawB level = handleMap g fl' opt' rawA' rawB' level'"
proof -
  have "map_pairs f mapA mapB level = map_pairs g mapA mapB level"
    if "rawA' = RMap mapA" "rawB' = RMap mapB" for mapA mapB
  proof -
    have A: "size v < size (RMap mapA)" if "(k, v) \<in> set mapA" for k v using size_entry [OF that] by simp
    have B: "size w < size (RMap mapB)" if "(k, w) \<in> set mapB" for k w using size_entry [OF that] by simp
    have "f v RMissing l = g v RMissing l" "find_value key mapB = Some w \<Longrightarrow> f v w l = g v w l"
      if "(k, v) \<in> set mapA" for k v w key l
      using A [OF that] find_value_size [of key mapB w] by (auto intro!: rec simp: \<open>rawA' = _\<close> \<open>rawB' = _\<close>)
    moreover have "f RMissing w l = g RMissing w l" if "(k, w) \<in> set mapB" for k w l
      using B [OF that] by (auto intro!: rec simp: \<open>rawA' = _\<close> \<open>rawB' = _\<close>)
    ultimately show ?thesis
      unfolding map_pairs_def by (intro arg_cong2 [where f = append] map_cong) (auto split: option.splits)
  qed
  with assms show ?thesis
    by (auto simp: handleMap_def tryMap_def split: raw.splits)
qed

lemma handleArray_cong [fundef_cong]:
  assumes "rawA = rawA'" "rawB = rawB'" "level = level'" "fl = fl'" "opt = opt'"
    and rec: "\<And>x y l. size x + size y < size rawA' + size rawB' \<Longrightarrow> f x y l = g x y l"
  shows "handleArray f fl opt rawA rawB level = handleArray g fl' opt' rawA' rawB' level'"
proof -
  have "f v w l = g v w l" "f v RNil l = g v RNil l" "f RNil w l = g RNil w l"
    if "rawA' = RArr arrayA" "rawB' = RArr arrayB" "v \<in> set arrayA" "w \<in> set arrayB" for arrayA arrayB v w l
    using size_element [OF that(3)] size_element [OF that(4)] by (auto intro!: rec simp: that(1,2))
  moreover have "f v RNil l = g v RNil l"
    if "rawA' = RArr arrayA" "rawB' = RArr arrayB" "v \<in> set arrayA" for arrayA arrayB v l
    using size_element [OF that(3)] by (auto intro!: rec simp: that(1,2))
  moreover have "f RNil w l = g RNil w l"
    if "rawA' = RArr arrayA" "rawB' = RArr arrayB" "w \<in> set arrayB" for arrayA arrayB w l
    using size_element [OF that(3)] by (auto intro!: rec simp: that(1,2))
  ultimately show ?thesis
    using assms(1-5) by (auto simp: handleArray_def tryArray_def cong: map_cong split: raw.splits)
qed

function performDiff :: "(rat \<Rightarrow> string) \<Rightarrow> do_options \<Rightarrow> raw \<Rightarrow> raw \<Rightarrow> nat \<Rightarrow> diff" where
  "performDiff fl opt rawA rawB level =
     (if rawA = RNil \<or> rawB = RNil \<or> rawA = RMissing \<or> rawB = RMissing
      then handlePrimitive fl opt rawA rawB level
      else
        (case handleMap (\<lambda>x y l. performDiff fl opt x y l) fl opt rawA rawB level of
           Some res \<Rightarrow> res
         | None \<Rightarrow>
             (case handleArray (\<lambda>x y l. performDiff fl opt x y l) fl opt rawA rawB level of
                Some res \<Rightarrow> res
              | None \<Rightarrow> handlePrimitive fl opt rawA rawB level)))"
  by pat_completeness auto
termination
  by (relation "measure (\<lambda>(fl, opt, rawA, rawB, level). size rawA + size rawB)") auto

declare performDiff.simps [simp del]

end
