(* ===== verification/Yaml_Diff_Laws.thy ===== *)
theory Yaml_Diff_Laws
  imports Yaml_Diff
begin

text \<open>
  What \<open>performDiff\<close> guarantees. The abstract relation \<open>alike\<close> says when two YAML values are the same
  up to the order of map entries and up to the order and repetition of array elements;
  \<open>DiffStatusSame\<close> implies it (soundness), and a value without repeated elements and without keys
  that collide is the same as itself (completeness). The report of an array or a map covers every element.
\<close>

section \<open>The equations of the recursion\<close>

lemma performDiff_map:
  "performDiff fl opt (RMap mapA) (RMap mapB) level =
     (let ps = map_pairs (performDiff fl opt) mapA mapB level in
      Diff (RMap mapA) (RMap mapB) (MapChildren (store_children ps))
        (if \<exists>p \<in> set ps. d_status (snd p) \<noteq> DiffStatusSame then DiffStatusDiff else DiffStatusSame)
        (children_count (store_children ps)) level)"
  by (subst performDiff.simps) (simp add: handleMap_def tryMap_def Let_def)

lemma performDiff_array:
  "performDiff fl opt (RArr arrayA) (RArr arrayB) level =
     array_diff (RArr arrayA) (RArr arrayB)
       (map (\<lambda>v. map (\<lambda>w. performDiff fl opt v w (level + 1)) arrayB) arrayA)
       (map (\<lambda>v. performDiff fl opt v RNil (level + 1)) arrayA)
       (map (\<lambda>w. performDiff fl opt RNil w (level + 1)) arrayB) level"
  by (subst performDiff.simps) (simp add: handleMap_def tryMap_def handleArray_def tryArray_def)

definition composite :: "raw \<Rightarrow> bool" where
  "composite x \<longleftrightarrow> tryMap x \<noteq> None \<or> tryArray x \<noteq> None"

lemma composite_simps [simp]:
  "composite (RMap m)" "composite (RArr vs)" "\<not> composite RNil" "\<not> composite RMissing" "\<not> composite (RBool b)"
  "\<not> composite (RInt i)" "\<not> composite (RUint u)" "\<not> composite (RFloat r)" "\<not> composite (RString s)"
  by (simp_all add: composite_def tryMap_def tryArray_def)

lemma performDiff_primitive:
  "a \<in> {RNil, RMissing} \<or> b \<in> {RNil, RMissing} \<or> \<not> composite a \<and> \<not> composite b \<Longrightarrow>
   performDiff fl opt a b level = handlePrimitive fl opt a b level"
  by (subst performDiff.simps)
    (auto simp: handleMap_def handleArray_def composite_def split: option.splits)

lemma performDiff_mixed:
  assumes "a \<notin> {RNil, RMissing}" "b \<notin> {RNil, RMissing}" "composite a \<or> composite b"
    and "\<nexists>ma mb. a = RMap ma \<and> b = RMap mb" "\<nexists>as bs. a = RArr as \<and> b = RArr bs"
  shows "\<exists>n. performDiff fl opt a b level = Diff a b NoChildren DiffStatusDiff n level"
  using assms
  by (cases a; cases b; subst performDiff.simps) (auto simp: handleMap_def handleArray_def tryMap_def tryArray_def)

text \<open>The cases of a comparison.\<close>

lemma diff_cases:
  obtains (primitive) "\<And>fl opt level. performDiff fl opt a b level = handlePrimitive fl opt a b level"
      "a \<in> {RNil, RMissing} \<or> b \<in> {RNil, RMissing} \<or> \<not> composite a \<and> \<not> composite b"
    | (mixed) "\<And>fl opt level. \<exists>n. performDiff fl opt a b level = Diff a b NoChildren DiffStatusDiff n level"
    | (maps) mapA mapB where "a = RMap mapA" "b = RMap mapB"
    | (arrays) arrayA arrayB where "a = RArr arrayA" "b = RArr arrayB"
  using performDiff_primitive performDiff_mixed by metis

section \<open>Primitives\<close>

lemma handlePrimitive_same_zero:
  "d_status (handlePrimitive fl opt a b level) = DiffStatusSame \<Longrightarrow> d_count (handlePrimitive fl opt a b level) = 0"
  by (auto simp: handlePrimitive_def Let_def split: if_splits)

lemma handlePrimitive_sides:
  "a \<noteq> RMissing \<Longrightarrow> b \<noteq> RMissing \<Longrightarrow>
   d_a (handlePrimitive fl opt a b level) = a \<and> d_b (handlePrimitive fl opt a b level) = b"
  by (simp add: handlePrimitive_def Let_def)

lemma handlePrimitive_same:
  "a \<noteq> RMissing \<Longrightarrow> b \<noteq> RMissing \<Longrightarrow>
   d_status (handlePrimitive fl opt a b level) = DiffStatusSame \<longleftrightarrow> a = b"
  by (auto simp: handlePrimitive_def Let_def)

lemma handlePrimitive_missing:
  assumes "\<not> emptyAsNull opt" "\<not> zeroAsNull opt"
  shows "a = RMissing \<or> b = RMissing \<Longrightarrow> d_status (handlePrimitive fl opt a b level) \<noteq> DiffStatusSame"
  using assms by (auto simp: handlePrimitive_def Let_def)

section \<open>Maps\<close>

lemma store_children_in: "fmlookup (store_children ps) k = Some d \<Longrightarrow> (k, d) \<in> set ps"
proof -
  have "fmlookup (fold (\<lambda>(k, d) m. fmupd k d m) ps m) k = Some d \<Longrightarrow> (k, d) \<in> set ps \<or> fmlookup m k = Some d" for m
  proof (induction ps arbitrary: m)
    case (Cons p ps)
    obtain a b where p: "p = (a, b)" by (cases p)
    with Cons.prems Cons.IH [of "fmupd a b m"] show ?case by (auto split: if_splits)
  qed simp
  then show "fmlookup (store_children ps) k = Some d \<Longrightarrow> (k, d) \<in> set ps"
    by (fastforce simp: store_children_def)
qed

lemma store_children_dom: "fset (fmdom (store_children ps)) = fst ` set ps"
proof -
  have "fset (fmdom (fold (\<lambda>(k, d) m. fmupd k d m) ps m)) = fst ` set ps \<union> fset (fmdom m)" for m
    by (induction ps arbitrary: m) auto
  then show ?thesis by (simp add: store_children_def)
qed

lemma store_children_distinct:
  assumes "distinct (map fst ps)" "(k, d) \<in> set ps"
  shows "fmlookup (store_children ps) k = Some d"
proof -
  have "k \<in> fst ` set ps" using assms(2) by force
  then obtain e where e: "fmlookup (store_children ps) k = Some e"
    by (metis store_children_dom fmlookup_dom_iff)
  with assms show ?thesis by (metis store_children_in eq_key_imp_eq_value)
qed

lemma children_count_zero:
  "(\<And>k d. fmlookup m k = Some d \<Longrightarrow> d_count d = 0) \<Longrightarrow> children_count m = 0"
  by (auto simp: children_count_def set_sorted_list_of_fmap)

abbreviation keys :: "(rkey \<times> raw) list \<Rightarrow> string list" where
  "keys m \<equiv> map (\<lambda>(k, v). key_string k) m"

lemma find_value_None: "find_value key m = None \<longleftrightarrow> key \<notin> set (keys m)"
proof -
  have "find_value key m = None \<longleftrightarrow> (\<forall>(k, v) \<in> set m. key_string k \<noteq> key)"
    by (induction m) (auto split: if_splits)
  then show ?thesis by force
qed

lemma find_value_distinct: "distinct (keys m) \<Longrightarrow> (k, v) \<in> set m \<Longrightarrow> find_value (key_string k) m = Some v"
  by (induction m) force+

lemma map_pairs_A:
  "(k, v) \<in> set mapA \<Longrightarrow> (key_string k, case find_value (key_string k) mapB of
     Some w \<Rightarrow> f v w (level + 1) | None \<Rightarrow> f v RMissing (level + 1)) \<in> set (map_pairs f mapA mapB level)"
  by (force simp: map_pairs_def)

lemma map_pairs_B:
  "(k, w) \<in> set mapB \<Longrightarrow> key_string k \<notin> set (keys mapA) \<Longrightarrow>
   (key_string k, f RMissing w (level + 1)) \<in> set (map_pairs f mapA mapB level)"
  by (force simp: map_pairs_def find_value_None)

lemma map_pairs_cases:
  assumes "(key, d) \<in> set (map_pairs f mapA mapB level)"
  obtains (both) k v w where "(k, v) \<in> set mapA" "key = key_string k" "find_value key mapB = Some w"
      "d = f v w (level + 1)"
    | (onlyA) k v where "(k, v) \<in> set mapA" "key = key_string k" "find_value key mapB = None"
      "d = f v RMissing (level + 1)"
    | (onlyB) k w where "(k, w) \<in> set mapB" "key = key_string k" "find_value key mapA = None"
      "d = f RMissing w (level + 1)"
  using assms unfolding map_pairs_def by (auto split: option.splits)

section \<open>Arrays\<close>

lemma first_same_Some:
  "first_same n ds = Some (j, d) \<Longrightarrow>
   n \<le> j \<and> j - n < length ds \<and> d = ds ! (j - n) \<and> d_status d = DiffStatusSame"
proof (induction ds arbitrary: n)
  case (Cons e ds)
  show ?case
  proof (cases "d_status e = DiffStatusSame")
    case False
    with Cons have "Suc n \<le> j \<and> j - Suc n < length ds \<and> d = ds ! (j - Suc n) \<and> d_status d = DiffStatusSame"
      by simp
    then have "j - n = Suc (j - Suc n)" by arith
    with \<open>Suc n \<le> j \<and> _\<close> show ?thesis by auto
  qed (use Cons.prems in simp)
qed simp

lemma first_same_None: "first_same n ds = None \<longleftrightarrow> (\<forall>d \<in> set ds. d_status d \<noteq> DiffStatusSame)"
  by (induction ds arbitrary: n) auto

text \<open>What the first phase has confirmed: \<open>cover\<close> says that the children account for the found elements.\<close>

definition cover :: "raw list \<Rightarrow> raw list \<Rightarrow> diff list \<Rightarrow> nat set \<Rightarrow> nat set \<Rightarrow> bool" where
  "cover arrayA arrayB children foundA foundB \<longleftrightarrow>
     (\<forall>i \<in> foundA. \<exists>d \<in> set children. d_a d = arrayA ! i) \<and>
     (\<forall>j \<in> foundB. \<exists>d \<in> set children. d_b d = arrayB ! j)"

definition array_inv :: "diff list list \<Rightarrow> nat \<Rightarrow> nat \<Rightarrow> diff list \<Rightarrow> nat set \<Rightarrow> nat set \<Rightarrow> bool" where
  "array_inv matrix nA nB children foundA foundB \<longleftrightarrow>
     foundA \<subseteq> {..<nA} \<and> foundB \<subseteq> {..<nB} \<and>
     length children = card foundA \<and> card foundB \<le> card foundA"

lemma match_loop_spec:
  assumes "match_loop i rows children foundA foundB = (children', foundA', foundB')"
  shows "foundA' = foundA \<union> {i + r |r. r < length rows \<and> first_same 0 (rows ! r) \<noteq> None} \<and>
    foundB' = foundB \<union> {j. \<exists>r d. r < length rows \<and> first_same 0 (rows ! r) = Some (j, d)} \<and>
    children' = children @ map (\<lambda>row. snd (the (first_same 0 row))) (filter (\<lambda>row. first_same 0 row \<noteq> None) rows)"
  using assms
proof (induction rows arbitrary: i children foundA foundB)
  case (Cons row rows)
  have split: "{i + r |r. r < length (row # rows) \<and> first_same 0 ((row # rows) ! r) \<noteq> None} =
      (if first_same 0 row \<noteq> None then {i} else {}) \<union>
      {Suc i + r |r. r < length rows \<and> first_same 0 (rows ! r) \<noteq> None}" (is "?L = ?R")
  proof (intro set_eqI iffI)
    fix x assume "x \<in> ?L"
    then obtain r where "x = i + r" "r < Suc (length rows)" "first_same 0 ((row # rows) ! r) \<noteq> None" by auto
    then show "x \<in> ?R" by (cases r) auto
  next
    fix x assume "x \<in> ?R"
    then show "x \<in> ?L" by (force split: if_splits)
  qed
  have splitB: "{j. \<exists>r d. r < length (row # rows) \<and> first_same 0 ((row # rows) ! r) = Some (j, d)} =
      {j. \<exists>d. first_same 0 row = Some (j, d)} \<union>
      {j. \<exists>r d. r < length rows \<and> first_same 0 (rows ! r) = Some (j, d)}" (is "?L = ?R")
  proof (intro set_eqI iffI)
    fix j assume "j \<in> ?L"
    then obtain r d where "r < Suc (length rows)" "first_same 0 ((row # rows) ! r) = Some (j, d)" by auto
    then show "j \<in> ?R" by (cases r) auto
  next
    fix j assume "j \<in> ?R"
    then show "j \<in> ?L" by force
  qed
  show ?case
  proof (cases "first_same 0 row")
    case None
    with Cons.prems Cons.IH [of "Suc i" children foundA foundB] split splitB show ?thesis by simp
  next
    case (Some jd)
    obtain j d where jd: "jd = (j, d)" by (cases jd)
    with Some Cons.prems have "match_loop (Suc i) rows (children @ [d]) (insert i foundA) (insert j foundB) =
        (children', foundA', foundB')" by simp
    from Cons.IH [OF this] split splitB Some jd show ?thesis by auto
  qed
qed simp

text \<open>The pairs of elements as \<open>performDiff\<close> builds them: none of the sides is missing.\<close>

lemma performDiff_sides:
  assumes "a \<noteq> RMissing" "b \<noteq> RMissing"
  shows "d_a (performDiff fl opt a b level) = a \<and> d_b (performDiff fl opt a b level) = b"
proof (cases a b rule: diff_cases)
  case primitive
  then show ?thesis by (simp add: handlePrimitive_sides assms)
next
  case mixed
  then obtain n where "performDiff fl opt a b level = Diff a b NoChildren DiffStatusDiff n level" by blast
  then show ?thesis by simp
next
  case maps
  then show ?thesis by (simp add: performDiff_map Let_def)
next
  case arrays
  then show ?thesis by (simp add: performDiff_array array_diff_def Let_def split: prod.splits)
qed

text \<open>The differences of two arrays, as \<open>performDiff\<close> passes them to the two phases.\<close>

definition pair_diffs ::
  "raw list \<Rightarrow> raw list \<Rightarrow> diff list list \<Rightarrow> diff list \<Rightarrow> diff list \<Rightarrow> bool" where
  "pair_diffs arrayA arrayB matrix onlyA onlyB \<longleftrightarrow>
     length matrix = length arrayA \<and> length onlyA = length arrayA \<and> length onlyB = length arrayB \<and>
     (\<forall>i < length arrayA. length (matrix ! i) = length arrayB \<and> d_a (onlyA ! i) = arrayA ! i \<and>
       (\<forall>j < length arrayB. d_a (matrix ! i ! j) = arrayA ! i \<and> d_b (matrix ! i ! j) = arrayB ! j)) \<and>
     (\<forall>j < length arrayB. d_b (onlyB ! j) = arrayB ! j)"

text \<open>What holds between two rounds: the children account for the found elements, and an element of A
  that is not found has no equal in B.\<close>

definition settled ::
  "raw list \<Rightarrow> raw list \<Rightarrow> diff list list \<Rightarrow> diff list \<Rightarrow> nat set \<Rightarrow> nat set \<Rightarrow> bool" where
  "settled arrayA arrayB matrix children foundA foundB \<longleftrightarrow>
     foundA \<subseteq> {..<length arrayA} \<and> foundB \<subseteq> {..<length arrayB} \<and>
     length children = card foundA \<and> card foundB \<le> card foundA \<and>
     (\<forall>i < length arrayA. i \<notin> foundA \<longrightarrow> (\<forall>d \<in> set (matrix ! i). d_status d \<noteq> DiffStatusSame)) \<and>
     (\<forall>i \<in> foundA. \<exists>d \<in> set children. d_a d = arrayA ! i) \<and>
     (\<forall>j \<in> foundB. \<exists>d \<in> set children. d_b d = arrayB ! j)"

lemma row_match:
  assumes "pair_diffs arrayA arrayB matrix onlyA onlyB"
    and "r < length arrayA" "first_same 0 (matrix ! r) = Some (j, d)"
  shows "j < length arrayB \<and> d = matrix ! r ! j \<and> d_a d = arrayA ! r \<and> d_b d = arrayB ! j \<and>
    d_status d = DiffStatusSame"
  using first_same_Some [OF assms(3)] assms(1,2) by (auto simp: pair_diffs_def)

lemma card_rows: "card {r. r < length xs \<and> P (xs ! r)} = length (filter P xs)"
  by (simp add: length_filter_conv_card)

lemma match_loop_settled:
  assumes pd: "pair_diffs arrayA arrayB matrix onlyA onlyB"
    and run: "match_loop 0 matrix [] {} {} = (children, foundA, foundB)"
  shows "settled arrayA arrayB matrix children foundA foundB"
proof -
  let ?first = "\<lambda>r. first_same 0 (matrix ! r)"
  have rows: "length matrix = length arrayA" using pd by (simp add: pair_diffs_def)
  have A: "foundA = {r. r < length arrayA \<and> ?first r \<noteq> None}"
    and B: "foundB = {j. \<exists>r d. r < length arrayA \<and> ?first r = Some (j, d)}"
    and C: "children = map (\<lambda>row. snd (the (first_same 0 row))) (filter (\<lambda>row. first_same 0 row \<noteq> None) matrix)"
    using match_loop_spec [OF run] rows by auto
  have child: "d \<in> set children" if "r < length arrayA" "?first r = Some (j, d)" for r j d
    using that rows unfolding C by (force simp: in_set_conv_nth)
  have "foundB = (\<lambda>r. fst (the (?first r))) ` foundA" unfolding A B by force
  then have "card foundB \<le> card foundA" by (metis A card_image_le finite_Collect_conjI finite_Collect_less_nat)
  moreover have "length children = card foundA"
    using card_rows [of matrix "\<lambda>row. first_same 0 row \<noteq> None"] unfolding A C rows by simp
  moreover have "\<forall>i < length arrayA. i \<notin> foundA \<longrightarrow> (\<forall>d \<in> set (matrix ! i). d_status d \<noteq> DiffStatusSame)"
    unfolding A using first_same_None by auto
  moreover have "\<forall>i \<in> foundA. \<exists>d \<in> set children. d_a d = arrayA ! i"
    unfolding A using child row_match [OF pd] by fastforce
  moreover have "\<forall>j \<in> foundB. \<exists>d \<in> set children. d_b d = arrayB ! j"
    unfolding B using child row_match [OF pd] by fastforce
  moreover have "foundB \<subseteq> {..<length arrayB}" unfolding B using row_match [OF pd] by auto
  ultimately show ?thesis unfolding settled_def A by auto
qed

text \<open>While both sides have elements left, the search finds a pair.\<close>

lemma smallest_diff_found:
  assumes pd: "pair_diffs arrayA arrayB matrix onlyA onlyB"
    and inv: "settled arrayA arrayB matrix children foundA foundB"
    and left: "unfound (length onlyA) foundA \<noteq> []" "unfound (length onlyB) foundB \<noteq> []"
  shows "smallest_diff matrix (unfound (length onlyA) foundA) (unfound (length onlyB) foundB) \<noteq> None"
proof -
  have keep: "fold (smaller_of matrix) ps (Some best) \<noteq> None" for ps best
  proof (induction ps arbitrary: best)
    case (Cons p ps)
    then show ?case by (cases p) (auto simp: Let_def split: option.splits prod.splits)
  qed simp
  obtain i as where i: "unfound (length onlyA) foundA = i # as" using left(1) by (cases "unfound (length onlyA) foundA") auto
  obtain j bs where j: "unfound (length onlyB) foundB = j # bs" using left(2) by (cases "unfound (length onlyB) foundB") auto
  have "i \<in> set (unfound (length onlyA) foundA)" "j \<in> set (unfound (length onlyB) foundB)"
    by (simp_all add: i j del: set_unfound)
  then have "i < length arrayA" "i \<notin> foundA" "j < length arrayB" using pd by (auto simp: pair_diffs_def)
  then have "d_status (matrix ! i ! j) \<noteq> DiffStatusSame"
    using inv pd by (auto simp: settled_def pair_diffs_def)
  then have "smallest_diff matrix (i # as) (j # bs) =
      fold (smaller_of matrix) (map (Pair i) bs @ List.product as (j # bs)) (Some (matrix ! i ! j, i, j))"
    by (simp add: smallest_diff_def Let_def)
  with keep show ?thesis unfolding i j by (simp only: not_False_eq_True)
qed

lemma unfound_empty: "found \<subseteq> {..<n} \<Longrightarrow> unfound n found = [] \<Longrightarrow> found = {..<n}"
  by (metis set_unfound list.set(1) Diff_eq_empty_iff subset_antisym)

lemma length_unfound: "found \<subseteq> {..<n} \<Longrightarrow> length (unfound n found) = n - card found"
  by (metis distinct_card distinct_unfound set_unfound card_Diff_subset card_lessThan finite_lessThan finite_subset)

definition full_report :: "raw list \<Rightarrow> raw list \<Rightarrow> diff list \<Rightarrow> bool" where
  "full_report arrayA arrayB children \<longleftrightarrow>
     (\<forall>v \<in> set arrayA. \<exists>d \<in> set children. d_a d = v) \<and> (\<forall>w \<in> set arrayB. \<exists>d \<in> set children. d_b d = w) \<and>
     length arrayA \<le> length children \<and> length arrayB \<le> length children \<and>
     length children \<le> length arrayA + length arrayB"

lemma settled_left:
  assumes pd: "pair_diffs arrayA arrayB matrix onlyA onlyB"
    and inv: "settled arrayA arrayB matrix children foundA foundB"
  shows "unfound (length onlyA) foundA = [] \<Longrightarrow>
      full_report arrayA arrayB (children @ map (\<lambda>k. onlyB ! k) (unfound (length onlyB) foundB))"
    and "unfound (length onlyB) foundB = [] \<Longrightarrow>
      full_report arrayA arrayB (children @ map (\<lambda>k. onlyA ! k) (unfound (length onlyA) foundA))"
proof -
  have len: "length onlyA = length arrayA" "length onlyB = length arrayB" using pd by (simp_all add: pair_diffs_def)
  have sub: "foundA \<subseteq> {..<length arrayA}" "foundB \<subseteq> {..<length arrayB}"
    and card: "length children = card foundA" "card foundB \<le> card foundA"
    and cov: "\<And>i. i \<in> foundA \<Longrightarrow> \<exists>d \<in> set children. d_a d = arrayA ! i"
      "\<And>j. j \<in> foundB \<Longrightarrow> \<exists>d \<in> set children. d_b d = arrayB ! j"
    using inv by (auto simp: settled_def)
  have cardA: "card foundA \<le> length arrayA" and cardB: "card foundB \<le> length arrayB"
    using sub by (metis card_lessThan card_mono finite_lessThan)+
  {
    assume "unfound (length onlyA) foundA = []"
    with sub len have A: "foundA = {..<length arrayA}" by (metis unfound_empty)
    have "\<exists>d \<in> set children. d_a d = v" if "v \<in> set arrayA" for v
      using that cov(1) unfolding A by (metis in_set_conv_nth lessThan_iff)
    moreover have "\<exists>d \<in> set (children @ map (\<lambda>k. onlyB ! k) (unfound (length onlyB) foundB)). d_b d = w"
      if w: "w \<in> set arrayB" for w
    proof -
      obtain j where j: "j < length arrayB" "w = arrayB ! j" using w by (metis in_set_conv_nth)
      show ?thesis
      proof (cases "j \<in> foundB")
        case True
        with cov(2) j show ?thesis by fastforce
      next
        case False
        with j pd have "onlyB ! j \<in> set (map (\<lambda>k. onlyB ! k) (unfound (length onlyB) foundB))" "d_b (onlyB ! j) = w"
          by (auto simp: pair_diffs_def)
        then show ?thesis by auto
      qed
    qed
    ultimately show "full_report arrayA arrayB (children @ map (\<lambda>k. onlyB ! k) (unfound (length onlyB) foundB))"
      using card cardB A length_unfound [OF sub(2)] len by (auto simp: full_report_def)
  }
  {
    assume "unfound (length onlyB) foundB = []"
    with sub len have B: "foundB = {..<length arrayB}" by (metis unfound_empty)
    have "\<exists>d \<in> set children. d_b d = w" if "w \<in> set arrayB" for w
      using that cov(2) unfolding B by (metis in_set_conv_nth lessThan_iff)
    moreover have "\<exists>d \<in> set (children @ map (\<lambda>k. onlyA ! k) (unfound (length onlyA) foundA)). d_a d = v"
      if v: "v \<in> set arrayA" for v
    proof -
      obtain i where i: "i < length arrayA" "v = arrayA ! i" using v by (metis in_set_conv_nth)
      show ?thesis
      proof (cases "i \<in> foundA")
        case True
        with cov(1) i show ?thesis by fastforce
      next
        case False
        with i pd have "onlyA ! i \<in> set (map (\<lambda>k. onlyA ! k) (unfound (length onlyA) foundA))" "d_a (onlyA ! i) = v"
          by (auto simp: pair_diffs_def)
        then show ?thesis by auto
      qed
    qed
    ultimately show "full_report arrayA arrayB (children @ map (\<lambda>k. onlyA ! k) (unfound (length onlyA) foundA))"
      using card cardA B length_unfound [OF sub(1)] len by (auto simp: full_report_def)
  }
qed

lemma pair_loop_report:
  assumes "pair_diffs arrayA arrayB matrix onlyA onlyB" "settled arrayA arrayB matrix children foundA foundB"
  shows "full_report arrayA arrayB (pair_loop matrix onlyA onlyB children foundA foundB)"
  using assms
proof (induction matrix onlyA onlyB children foundA foundB rule: pair_loop.induct)
  case (1 matrix onlyA onlyB children foundA foundB)
  note pd = 1(2) and inv = 1(3)
  show ?case
  proof (cases "unfound (length onlyA) foundA = [] \<or> unfound (length onlyB) foundB = []")
    case True
    with settled_left [OF pd inv] show ?thesis by (subst pair_loop.simps) auto
  next
    case False
    then obtain d i j where
      s: "smallest_diff matrix (unfound (length onlyA) foundA) (unfound (length onlyB) foundB) = Some (d, i, j)"
      using smallest_diff_found [OF pd inv] by fastforce
    from smallest_diff_in [OF s] pd
    have i: "i < length arrayA" "i \<notin> foundA" and j: "j < length arrayB" "j \<notin> foundB" and d: "d = matrix ! i ! j"
      by (auto simp: pair_diffs_def)
    have "finite foundA" "finite foundB" using inv by (auto simp: settled_def intro: finite_subset)
    with inv pd i j d have "settled arrayA arrayB matrix (children @ [d]) (insert i foundA) (insert j foundB)"
      by (auto simp: settled_def pair_diffs_def)
    with 1(1) False s pd show ?thesis by (subst pair_loop.simps) auto
  qed
qed

lemma performDiff_pairs:
  assumes "RMissing \<notin> set arrayA" "RMissing \<notin> set arrayB"
  shows "pair_diffs arrayA arrayB
    (map (\<lambda>v. map (\<lambda>w. performDiff fl opt v w level) arrayB) arrayA)
    (map (\<lambda>v. performDiff fl opt v RNil level) arrayA) (map (\<lambda>w. performDiff fl opt RNil w level) arrayB)"
proof -
  have "\<And>i. i < length arrayA \<Longrightarrow> arrayA ! i \<noteq> RMissing" "\<And>j. j < length arrayB \<Longrightarrow> arrayB ! j \<noteq> RMissing"
    using assms by (metis nth_mem)+
  then show ?thesis by (simp add: pair_diffs_def performDiff_sides)
qed

lemma same_count:
  assumes "d_status (performDiff fl opt a b level) = DiffStatusSame"
  shows "d_count (performDiff fl opt a b level) = 0"
  using assms
proof (induction "size a + size b" arbitrary: a b level rule: less_induct)
  case less
  show ?case
  proof (cases a b rule: diff_cases)
    case primitive
    with less.prems handlePrimitive_same_zero show ?thesis by simp
  next
    case mixed
    then obtain n where "performDiff fl opt a b level = Diff a b NoChildren DiffStatusDiff n level" by blast
    with less.prems show ?thesis by simp
  next
    case (maps mapA mapB)
    let ?ps = "map_pairs (performDiff fl opt) mapA mapB level"
    have "d_count d = 0" if d: "(k, d) \<in> set ?ps" for k d
    proof -
      have "d_status d = DiffStatusSame"
        using less.prems d maps by (fastforce simp: performDiff_map Let_def split: if_splits)
      with d show ?thesis
        by (cases rule: map_pairs_cases)
          (fastforce intro!: less.hyps simp: maps dest: size_entry find_value_size)+
    qed
    then have "children_count (store_children ?ps) = 0"
      by (intro children_count_zero) (blast dest: store_children_in)
    with maps show ?thesis by (simp add: performDiff_map Let_def)
  next
    case (arrays arrayA arrayB)
    with less.prems show ?thesis
      by (auto simp: performDiff_array array_diff_def Let_def split: prod.splits if_splits)
  qed
qed

text \<open>Samples for the witnesses; they contain no floating point number.\<close>

definition no_floats :: "rat \<Rightarrow> string" where
  "no_floats r = []"

definition default_options :: do_options where
  "default_options = \<lparr>emptyAsNull = False, zeroAsNull = False\<rparr>"

section \<open>Properties\<close>

text \<open>C36. The report of two arrays is complete: every element of either array is a side of some
  child, and there are at least as many children as either array has elements and at most as many
  as both together, so the pairing always ends.\<close>

theorem array_report_complete:
  assumes "RMissing \<notin> set arrayA" "RMissing \<notin> set arrayB"
  shows "\<exists>children. d_children (performDiff fl opt (RArr arrayA) (RArr arrayB) level) = ArrChildren children \<and>
    (\<forall>v \<in> set arrayA. \<exists>d \<in> set children. d_a d = v) \<and>
    (\<forall>w \<in> set arrayB. \<exists>d \<in> set children. d_b d = w) \<and>
    length arrayA \<le> length children \<and> length arrayB \<le> length children \<and>
    length children \<le> length arrayA + length arrayB"
proof -
  let ?m = "map (\<lambda>v. map (\<lambda>w. performDiff fl opt v w (level + 1)) arrayB) arrayA"
    and ?a = "map (\<lambda>v. performDiff fl opt v RNil (level + 1)) arrayA"
    and ?b = "map (\<lambda>w. performDiff fl opt RNil w (level + 1)) arrayB"
  obtain children foundA foundB where m: "match_loop 0 ?m [] {} {} = (children, foundA, foundB)"
    by (cases "match_loop 0 ?m [] {} {}") auto
  note pd = performDiff_pairs [OF assms, of fl opt "level + 1"]
  note inv = match_loop_settled [OF pd m]
  have "full_report arrayA arrayB children" if "unfound (length ?a) foundA = []" "unfound (length ?b) foundB = []"
    using settled_left(1) [OF pd inv that(1)] that(2) by simp
  with m pair_loop_report [OF pd inv] show ?thesis
    unfolding performDiff_array array_diff_def by (auto simp: full_report_def Let_def)
qed

theorem array_report_complete_witness:
  "\<exists>children. d_children (performDiff no_floats default_options (RArr [RString ''a''])
     (RArr [RString ''b'', RNil]) 0) = ArrChildren children \<and> 2 \<le> length children"
  using array_report_complete [of "[RString ''a'']" "[RString ''b'', RNil]" no_floats default_options 0]
  by auto



text \<open>A difference that is reported as the same has size 0.\<close>

theorem same_has_no_size:
  assumes "d_status (performDiff fl opt a b level) = DiffStatusSame"
  shows "d_count (performDiff fl opt a b level) = 0"
  by (rule same_count [OF assms])

theorem same_has_no_size_witness:
  "d_count (performDiff no_floats default_options (RArr [RNil, RUint 2]) (RArr [RUint 2, RNil]) 0) = 0"
  by (rule same_has_no_size) code_simp

section \<open>Values that are the same\<close>

inductive alike :: "raw \<Rightarrow> raw \<Rightarrow> bool" where
  alike_primitive: "\<not> composite a \<Longrightarrow> alike a a"
| alike_map: "(\<forall>k v. (k, v) \<in> set mapA \<longrightarrow> (\<exists>w. find_value (key_string k) mapB = Some w \<and> alike v w)) \<Longrightarrow>
    set (keys mapB) \<subseteq> set (keys mapA) \<Longrightarrow> alike (RMap mapA) (RMap mapB)"
| alike_array: "(\<forall>v \<in> set arrayA. \<exists>w \<in> set arrayB. alike v w) \<Longrightarrow>
    (\<forall>w \<in> set arrayB. \<exists>v \<in> set arrayA. alike v w) \<Longrightarrow> alike (RArr arrayA) (RArr arrayB)"

inductive_simps alike_primitive_simps [simp]:
  "alike RNil b" "alike (RBool x) b" "alike (RInt i) b" "alike (RUint u) b" "alike (RFloat r) b" "alike (RString s) b"

inductive_simps alike_composite_simps:
  "alike (RMap m) b" "alike (RArr vs) b"

text \<open>A decoded value: \<open>missingKey\<close> does not occur in it.\<close>

fun present :: "raw \<Rightarrow> bool" where
  "present RMissing = False"
| "present (RMap m) = (\<forall>(k, v) \<in> set m. present v)"
| "present (RArr vs) = (\<forall>v \<in> set vs. present v)"
| "present _ = True"

definition plain :: "do_options \<Rightarrow> bool" where
  "plain opt \<longleftrightarrow> \<not> emptyAsNull opt \<and> \<not> zeroAsNull opt"

lemma missing_not_same:
  assumes "plain opt"
  shows "d_status (performDiff fl opt v RMissing level) \<noteq> DiffStatusSame"
    and "d_status (performDiff fl opt RMissing v level) \<noteq> DiffStatusSame"
  using assms handlePrimitive_missing by (auto simp: performDiff_primitive plain_def)

lemma array_same:
  assumes "array_diff a b matrix onlyA onlyB level = d" "d_status d = DiffStatusSame"
    and len: "length matrix = length onlyA"
  shows "\<forall>r < length onlyA. first_same 0 (matrix ! r) \<noteq> None"
    and "\<forall>j < length onlyB. \<exists>r d. r < length onlyA \<and> first_same 0 (matrix ! r) = Some (j, d)"
proof -
  obtain children foundA foundB where m: "match_loop 0 matrix [] {} {} = (children, foundA, foundB)"
    by (cases "match_loop 0 matrix [] {} {}") auto
  with assms(1,2) have "unfound (length onlyA) foundA = []" "unfound (length onlyB) foundB = []"
    by (auto simp: array_diff_def Let_def split: if_splits)
  then have "{..<length onlyA} \<subseteq> foundA" "{..<length onlyB} \<subseteq> foundB"
    by (metis set_unfound list.set(1) Diff_eq_empty_iff)+
  with match_loop_spec [OF m] len
  show "\<forall>r < length onlyA. first_same 0 (matrix ! r) \<noteq> None"
    and "\<forall>j < length onlyB. \<exists>r d. r < length onlyA \<and> first_same 0 (matrix ! r) = Some (j, d)"
    by auto
qed

lemma same_alike:
  assumes "plain opt" "present a" "present b" "d_status (performDiff fl opt a b level) = DiffStatusSame"
  shows "alike a b"
  using assms(2-4)
proof (induction "size a + size b" arbitrary: a b level rule: less_induct)
  case less
  show ?case
  proof (cases a b rule: diff_cases)
    case primitive
    with less.prems have "a = b" by (cases a; cases b) (auto simp: handlePrimitive_same)
    with primitive(2) less.prems show ?thesis by (auto intro: alike_primitive)
  next
    case mixed
    then obtain n where "performDiff fl opt a b level = Diff a b NoChildren DiffStatusDiff n level" by blast
    with less.prems show ?thesis by simp
  next
    case (maps mapA mapB)
    let ?ps = "map_pairs (performDiff fl opt) mapA mapB level"
    have same: "d_status d = DiffStatusSame" if "(k, d) \<in> set ?ps" for k d
      using less.prems(3) that maps by (fastforce simp: performDiff_map Let_def split: if_splits)
    have "\<exists>w. find_value (key_string k) mapB = Some w \<and> alike v w" if kv: "(k, v) \<in> set mapA" for k v
    proof (cases "find_value (key_string k) mapB")
      case None
      with same [OF map_pairs_A [OF kv]] missing_not_same [OF assms(1)] show ?thesis by simp
    next
      case (Some w)
      have "present v" "present w"
        using less.prems kv find_value_mem [OF Some] maps by auto
      moreover have "size v + size w < size a + size b"
        using size_entry [OF kv] find_value_size [OF Some] maps by simp
      moreover have "d_status (performDiff fl opt v w (level + 1)) = DiffStatusSame"
        using same [OF map_pairs_A [OF kv, where mapB = mapB and f = "performDiff fl opt" and level = level]] Some by simp
      ultimately have "alike v w" by (blast intro: less.hyps)
      with Some show ?thesis by blast
    qed
    moreover have "set (keys mapB) \<subseteq> set (keys mapA)"
    proof
      fix key assume "key \<in> set (keys mapB)"
      then obtain k w where kw: "(k, w) \<in> set mapB" "key = key_string k" by auto
      show "key \<in> set (keys mapA)"
        using same [OF map_pairs_B [OF kw(1), where mapA = mapA and f = "performDiff fl opt" and level = level]] missing_not_same(2) [OF assms(1)] kw(2) by blast
    qed
    ultimately show ?thesis unfolding maps by (intro alike_map) blast+
  next
    case (arrays arrayA arrayB)
    let ?m = "map (\<lambda>v. map (\<lambda>w. performDiff fl opt v w (level + 1)) arrayB) arrayA"
      and ?a = "map (\<lambda>v. performDiff fl opt v RNil (level + 1)) arrayA"
      and ?b = "map (\<lambda>w. performDiff fl opt RNil w (level + 1)) arrayB"
    have run: "array_diff (RArr arrayA) (RArr arrayB) ?m ?a ?b level = performDiff fl opt a b level"
      by (simp only: arrays performDiff_array)
    note found = array_same [OF run less.prems(3), simplified]
    have pair: "j < length arrayB \<and> alike (arrayA ! r) (arrayB ! j)"
      if r: "r < length arrayA" and f: "first_same 0 (?m ! r) = Some (j, d)" for r j d
    proof -
      from first_same_Some [OF f] r have j: "j < length arrayB"
        and s: "d_status (performDiff fl opt (arrayA ! r) (arrayB ! j) (level + 1)) = DiffStatusSame" by auto
      have "size (arrayA ! r) + size (arrayB ! j) < size a + size b"
        using size_element [OF nth_mem [OF r]] size_element [OF nth_mem [OF j]] arrays by simp
      moreover have "present (arrayA ! r)" "present (arrayB ! j)"
        using less.prems(1,2) arrays nth_mem [OF r] nth_mem [OF j] by auto
      ultimately show ?thesis using s j less.hyps by blast
    qed
    have "\<exists>w \<in> set arrayB. alike v w" if v: "v \<in> set arrayA" for v
    proof -
      obtain r where r: "r < length arrayA" "v = arrayA ! r" using v by (metis in_set_conv_nth)
      then obtain j d where "first_same 0 (?m ! r) = Some (j, d)" using found(1) by fastforce
      from pair [OF r(1) this] r show ?thesis by auto
    qed
    moreover have "\<exists>v \<in> set arrayA. alike v w" if w: "w \<in> set arrayB" for w
    proof -
      obtain j where j: "j < length arrayB" "w = arrayB ! j" using w by (metis in_set_conv_nth)
      then obtain r d where r: "r < length arrayA" "first_same 0 (?m ! r) = Some (j, d)" using found(2) by fastforce
      from pair [OF this] r j show ?thesis by auto
    qed
    ultimately show ?thesis unfolding arrays by (intro alike_array) blast+
  qed
qed

lemma first_same_at:
  "i < length ds \<Longrightarrow> d_status (ds ! i) = DiffStatusSame \<Longrightarrow>
   (\<And>j. j < i \<Longrightarrow> d_status (ds ! j) \<noteq> DiffStatusSame) \<Longrightarrow> first_same n ds = Some (n + i, ds ! i)"
proof (induction i arbitrary: n ds)
  case 0
  then show ?case by (cases ds) auto
next
  case (Suc i)
  then obtain d es where ds: "ds = d # es" by (cases ds) auto
  have "d_status (es ! j) \<noteq> DiffStatusSame" if "j < i" for j
    using Suc.prems(3) [of "Suc j"] that ds by simp
  with Suc.IH [of es "Suc n"] Suc.prems(1,2) Suc.prems(3) [of 0] ds show ?case by simp
qed

text \<open>Values on which the comparison is reflexive: distinct keys, and no element of an array is alike to
  an earlier one.\<close>

fun tidy :: "raw \<Rightarrow> bool" where
  "tidy RMissing = False"
| "tidy (RMap m) = (distinct (keys m) \<and> (\<forall>(k, v) \<in> set m. tidy v))"
| "tidy (RArr vs) = (sorted_wrt (\<lambda>v w. \<not> alike w v) vs \<and> (\<forall>v \<in> set vs. tidy v))"
| "tidy _ = True"

lemma tidy_present: "tidy a \<Longrightarrow> present a"
  by (induction a rule: present.induct) auto

text \<open>C33. The comparison is sound: with the default options, two decoded values are reported as the same only
  if they are alike, that is the maps have the same keys with alike values and each element of an
  array has an alike one in the other.\<close>

theorem same_is_alike:
  assumes "plain opt" "present a" "present b" "d_status (performDiff fl opt a b level) = DiffStatusSame"
  shows "alike a b"
  by (rule same_alike [OF assms])

lemma plain_default: "plain default_options"
  by (simp add: plain_def default_options_def)

theorem same_is_alike_witness:
  "alike (RMap [(KString ''a'', RUint 1), (KString ''b'', RNil)]) (RMap [(KString ''b'', RNil), (KString ''a'', RUint 1)])"
proof (rule same_is_alike [OF plain_default])
  show "d_status (performDiff no_floats default_options (RMap [(KString ''a'', RUint 1), (KString ''b'', RNil)])
      (RMap [(KString ''b'', RNil), (KString ''a'', RUint 1)]) 0) = DiffStatusSame" by code_simp
qed simp_all

text \<open>C38. A document without colliding keys and without repeated elements is the same as itself.\<close>

theorem tidy_is_same:
  assumes "plain opt" "tidy a"
  shows "d_status (performDiff fl opt a a level) = DiffStatusSame"
  using assms(2)
proof (induction "size a" arbitrary: a level rule: less_induct)
  case less
  show ?case
  proof (cases a a rule: diff_cases)
    case primitive
    moreover have "a \<noteq> RMissing" using less.prems by auto
    ultimately show ?thesis by (simp add: handlePrimitive_same)
  next
    case mixed
    show ?thesis
    proof (cases "composite a")
      case True
      then consider m where "a = RMap m" | vs where "a = RArr vs" by (cases a) simp_all
      then show ?thesis
      proof cases
        case 1
        with mixed show ?thesis by (force simp: performDiff_map Let_def)
      next
        case 2
        with mixed show ?thesis by (force simp: performDiff_array array_diff_def Let_def split: prod.splits)
      qed
    next
      case False
      have "a \<noteq> RMissing" using less.prems by auto
      with False show ?thesis by (simp add: performDiff_primitive handlePrimitive_same)
    qed
  next
    case (maps m m')
    then have m: "a = RMap m" "m' = m" by auto
    have "d_status d = DiffStatusSame" if "(key, d) \<in> set (map_pairs (performDiff fl opt) m m level)" for key d
      using that
    proof (cases rule: map_pairs_cases)
      case (both k v w)
      with less.prems m have "w = v" using find_value_distinct [of m k v] by simp
      with both less.prems less.hyps [of v "level + 1"] size_entry [OF both(1)] m show ?thesis by auto
    next
      case (onlyA k v)
      with less.prems m show ?thesis using find_value_distinct [of m k v] by simp
    next
      case (onlyB k w)
      with less.prems m show ?thesis using find_value_distinct [of m k w] by simp
    qed
    then show ?thesis unfolding m performDiff_map by (fastforce simp: Let_def)
  next
    case (arrays vs vs')
    then have vs: "a = RArr vs" "vs' = vs" by auto
    let ?m = "map (\<lambda>v. map (\<lambda>w. performDiff fl opt v w (level + 1)) vs) vs"
      and ?o = "map (\<lambda>v. performDiff fl opt v RNil (level + 1)) vs"
    have first: "first_same 0 (?m ! i) = Some (i, ?m ! i ! i)" if i: "i < length vs" for i
    proof -
      have "tidy (vs ! i)" using less.prems vs nth_mem [OF i] by auto
      moreover have "size (vs ! i) < size a" using size_element [OF nth_mem [OF i]] vs by simp
      ultimately have "d_status (performDiff fl opt (vs ! i) (vs ! i) (level + 1)) = DiffStatusSame"
        by (intro less.hyps)
      moreover have "d_status (performDiff fl opt (vs ! i) (vs ! j) (level + 1)) \<noteq> DiffStatusSame" if j: "j < i" for j
      proof
        assume "d_status (performDiff fl opt (vs ! i) (vs ! j) (level + 1)) = DiffStatusSame"
        moreover have "present (vs ! i)" "present (vs ! j)"
          using less.prems vs nth_mem [OF i] nth_mem [of j vs] j i tidy_present by auto
        ultimately have "alike (vs ! i) (vs ! j)" by (metis same_alike [OF assms(1)])
        with less.prems vs j i show False by (auto simp: sorted_wrt_iff_nth_less)
      qed
      ultimately show ?thesis
        using first_same_at [of i "?m ! i" 0] i by simp
    qed
    obtain children foundA foundB where m: "match_loop 0 ?m [] {} {} = (children, foundA, foundB)"
      by (cases "match_loop 0 ?m [] {} {}") auto
    have "foundA = {i. i < length vs}" "{j. j < length vs} \<subseteq> foundB"
      using match_loop_spec [OF m] first by force+
    then have "unfound (length vs) foundA = []" "unfound (length vs) foundB = []"
      by (auto simp: unfound_def filter_empty_conv)
    with m show ?thesis unfolding vs performDiff_array by (simp add: array_diff_def)
  qed
qed

theorem tidy_is_same_witness:
  "d_status (performDiff no_floats default_options (RMap [(KString ''args'', RArr [RString ''-v'', RString ''-q''])])
    (RMap [(KString ''args'', RArr [RString ''-v'', RString ''-q''])]) 0) = DiffStatusSame"
  by (rule tidy_is_same [OF plain_default]) simp

text \<open>Repeated elements defeat the array comparison: with a value \<open>v\<close> that is the same as itself, \<open>[v, v]\<close>
  differs from itself, and is reported as the same as \<open>[v]\<close>, though not the other way round.\<close>

theorem repeated_elements:
  assumes "d_status (performDiff fl opt v v (level + 1)) = DiffStatusSame"
  shows "d_status (performDiff fl opt (RArr [v, v]) (RArr [v, v]) level) = DiffStatusDiff \<and>
    d_status (performDiff fl opt (RArr [v, v]) (RArr [v]) level) = DiffStatusSame \<and>
    d_status (performDiff fl opt (RArr [v]) (RArr [v, v]) level) = DiffStatusDiff"
  using assms by (simp add: performDiff_array array_diff_def unfound_def Let_def)

theorem repeated_elements_witness:
  "d_status (performDiff no_floats default_options (RArr [RString ''-v'', RString ''-v''])
    (RArr [RString ''-v'', RString ''-v'']) 0) = DiffStatusDiff"
proof -
  have "d_status (performDiff no_floats default_options (RString ''-v'') (RString ''-v'') (0 + 1)) = DiffStatusSame"
    by code_simp
  from repeated_elements [OF this] show ?thesis by blast
qed

text \<open>All keys that are not strings share one slot: a map with two of them is compared with the first
  value for both, and differs from itself when the two values differ.\<close>

theorem other_keys_collide:
  assumes "d_status (performDiff fl opt w v (level + 1)) \<noteq> DiffStatusSame"
  shows "d_status (performDiff fl opt (RMap [(KOther s, v), (KOther t, w)])
    (RMap [(KOther s, v), (KOther t, w)]) level) = DiffStatusDiff"
  using assms by (simp add: performDiff_map map_pairs_def key_string_def Let_def)

theorem other_keys_collide_witness:
  "d_status (performDiff no_floats default_options (RMap [(KOther ''80'', RString ''http''), (KOther ''443'', RString ''https'')])
    (RMap [(KOther ''80'', RString ''http''), (KOther ''443'', RString ''https'')]) 0) = DiffStatusDiff"
  by (rule other_keys_collide) code_simp

text \<open>The option \<open>emptyAsNull\<close> is one-sided: an empty map or list that only B has counts as nothing, one that
  only A has is a difference.\<close>

theorem empty_as_null_one_sided:
  assumes "emptyAsNull opt" "e \<in> {RMap [], RArr []}"
  shows "d_status (performDiff fl opt (RMap []) (RMap [(KString k, e)]) level) = DiffStatusSame \<and>
    d_status (performDiff fl opt (RMap [(KString k, e)]) (RMap []) level) = DiffStatusDiff"
proof -
  have "concat (runes ''[]'') = ''[]''" by code_simp
  with assms show ?thesis
    by (auto simp: performDiff_map map_pairs_def key_string_def performDiff_primitive handlePrimitive_def Let_def)
qed

theorem empty_as_null_one_sided_witness:
  "d_status (performDiff no_floats \<lparr>emptyAsNull = True, zeroAsNull = False\<rparr>
    (RMap [(KString ''labels'', RMap [])]) (RMap []) 0) = DiffStatusDiff"
proof -
  have "emptyAsNull \<lparr>emptyAsNull = True, zeroAsNull = False\<rparr>" "RMap [] \<in> {RMap [], RArr []}" by simp_all
  from empty_as_null_one_sided [OF this] show ?thesis by blast
qed

end
