(* ===== verification/Yaml_Select.thy ===== *)
theory Yaml_Select
  imports Yaml_Diff_Laws Effects
begin

text \<open>
  Which documents of two YAML streams are compared with which (pkg/yamldiff/yaml.go): splitting the
  text, comparing all pairs, choosing the smallest differences and putting them in order.

  Parameters: \<open>unmarshal\<close> is the YAML decoder; \<open>fresh n\<close> is the text of the n-th identifier (a time and
  a random number); \<open>srt less\<close> is \<open>sort.Slice\<close> with the comparison \<open>less\<close>. The comparison of
  \<open>findMinimumDiffs\<close> is not a strict weak order (two diffs of status same precede each other), for which
  the library promises only that the elements are permuted; the results below need no more.
\<close>

section \<open>Texts\<close>

text \<open>\<open>strings.Cut\<close> and \<open>strings.Split\<close>, for separators that are not empty.\<close>

fun cut :: "string \<Rightarrow> string \<Rightarrow> (string \<times> string) option" where
  "cut sep s =
     (case strip_prefix sep s of
        Some rest \<Rightarrow> Some ([], rest)
      | None \<Rightarrow>
          (case s of
             [] \<Rightarrow> None
           | c # cs \<Rightarrow> (case cut sep cs of None \<Rightarrow> None | Some (a, b) \<Rightarrow> Some (c # a, b))))"

declare cut.simps [simp del]

lemma strip_prefix_eq: "strip_prefix p s = Some r \<longleftrightarrow> s = p @ r"
  by (induction p s rule: strip_prefix.induct) auto

lemma cut_eq: "cut sep s = Some (a, b) \<Longrightarrow> s = a @ sep @ b"
proof (induction sep s arbitrary: a rule: cut.induct)
  case (1 sep s)
  then show ?case
    by (subst (asm) (2) cut.simps) (auto simp: strip_prefix_eq split: option.splits list.splits)
qed

function split :: "string \<Rightarrow> string \<Rightarrow> string list" where
  "split sep s =
     (if sep = [] then [s]
      else (case cut sep s of None \<Rightarrow> [s] | Some (a, b) \<Rightarrow> a # split sep b))"
  by pat_completeness auto
termination
  by (relation "measure (\<lambda>(sep, s). length s)") (auto dest: cut_eq)

declare split.simps [simp del]

lemma split_not_Nil [simp]: "split sep s \<noteq> []"
  by (subst split.simps) (auto split: option.splits)

lemma join_split: "join sep (split sep s) = s"
proof (induction sep s rule: split.induct)
  case (1 sep s)
  show ?case
  proof (cases "sep = [] \<or> cut sep s = None")
    case True
    then show ?thesis by (subst split.simps) auto
  next
    case False
    then obtain a b where c: "cut sep s = Some (a, b)" by auto
    with False have "split sep s = a # split sep b" by (subst split.simps) simp
    moreover obtain t ts where "split sep b = t # ts" by (cases "split sep b") auto
    ultimately show ?thesis using 1 [of "(a, b)" a b] False c cut_eq [OF c] by simp
  qed
qed

section \<open>Loading\<close>

record raw_yaml =
  ry_raw :: raw
  ry_id :: string

definition doc_separator :: string where
  "doc_separator = char_of (10 :: nat) # ''---'' @ [char_of (10 :: nat)]"

fun load_all ::
  "(string \<Rightarrow> go_error + raw) \<Rightarrow> (nat \<Rightarrow> string) \<Rightarrow> nat \<Rightarrow> string list \<Rightarrow> raw_yaml list \<Rightarrow> go_error + raw_yaml list" where
  "load_all unmarshal fresh n [] results = Inr results"
| "load_all unmarshal fresh n (y # yamls) results =
     (case unmarshal y of
        Inl err \<Rightarrow> Inl (Wrapf ''yamldiff: failed to unmarshal yaml'' err)
      | Inr out \<Rightarrow>
          load_all unmarshal fresh (n + 1) yamls (results @ [\<lparr>ry_raw = out, ry_id = fresh n\<rparr>]))"

definition Load :: "(string \<Rightarrow> go_error + raw) \<Rightarrow> (nat \<Rightarrow> string) \<Rightarrow> nat \<Rightarrow> string \<Rightarrow> go_error + raw_yaml list" where
  "Load unmarshal fresh n s = load_all unmarshal fresh n (split doc_separator s) []"

section \<open>Comparing and choosing\<close>

record yaml_diff =
  yd_d :: diff
  yd_idA :: string
  yd_idB :: string

definition empty_id :: "(nat \<Rightarrow> string) \<Rightarrow> nat \<Rightarrow> string" where
  "empty_id fresh k = ''empty-'' @ fresh k"

text \<open>Identifiers of empty documents are drawn from \<open>n\<close> on, first for those beside A.\<close>

definition performAllDiff ::
  "(rat \<Rightarrow> string) \<Rightarrow> do_options \<Rightarrow> (nat \<Rightarrow> string) \<Rightarrow> nat \<Rightarrow> raw_yaml list \<Rightarrow> raw_yaml list \<Rightarrow> yaml_diff list" where
  "performAllDiff fl opt fresh n rawA rawB =
     concat (map (\<lambda>a. map (\<lambda>b.
       \<lparr>yd_d = performDiff fl opt (ry_raw a) (ry_raw b) 0, yd_idA = ry_id a, yd_idB = ry_id b\<rparr>) rawB) rawA) @
     map2 (\<lambda>a k. \<lparr>yd_d = performDiff fl opt (ry_raw a) RNil 0, yd_idA = ry_id a,
       yd_idB = empty_id fresh k\<rparr>) rawA [n..<n + length rawA] @
     map2 (\<lambda>b k. \<lparr>yd_d = performDiff fl opt RNil (ry_raw b) 0, yd_idA = empty_id fresh k,
       yd_idB = ry_id b\<rparr>) rawB [n + length rawA..<n + length rawA + length rawB]"

definition less_diff :: "yaml_diff \<Rightarrow> yaml_diff \<Rightarrow> bool" where
  "less_diff i j =
     (if d_status (yd_d i) = DiffStatusSame then True else d_count (yd_d i) < d_count (yd_d j))"

fun pick :: "yaml_diff list \<Rightarrow> yaml_diff list \<Rightarrow> string set \<Rightarrow> yaml_diff list" where
  "pick [] result checked = result"
| "pick (d # ds) result checked =
     (if yd_idA d \<in> checked then pick ds result checked
      else if yd_idB d \<in> checked then pick ds result checked
      else pick ds (result @ [d]) (insert (yd_idB d) (insert (yd_idA d) checked)))"

definition findMinimumDiffs ::
  "((yaml_diff \<Rightarrow> yaml_diff \<Rightarrow> bool) \<Rightarrow> yaml_diff list \<Rightarrow> yaml_diff list) \<Rightarrow> yaml_diff list \<Rightarrow> yaml_diff list" where
  "findMinimumDiffs srt diffs = pick (srt less_diff diffs) [] {}"

text \<open>The body of the inner loops of \<open>sortResult\<close>; \<open>side\<close> is \<open>idA\<close> in the first nest and \<open>idB\<close> in the
  second.\<close>

definition take_diff ::
  "(yaml_diff \<Rightarrow> string) \<Rightarrow> string \<Rightarrow> yaml_diff \<Rightarrow> yaml_diff list \<times> string set \<Rightarrow> yaml_diff list \<times> string set" where
  "take_diff side doc d st =
     (case st of (result, checked) \<Rightarrow>
        if doc \<noteq> side d then (result, checked)
        else if yd_idA d \<in> checked then (result, checked)
        else if yd_idB d \<in> checked then (result, checked)
        else (result @ [d], insert (yd_idB d) (insert (yd_idA d) checked)))"

definition sortResult :: "raw_yaml list \<Rightarrow> raw_yaml list \<Rightarrow> yaml_diff list \<Rightarrow> yaml_diff list" where
  "sortResult rawA rawB diffs =
     (let st = fold (\<lambda>b st. fold (take_diff yd_idA (ry_id b)) diffs st) rawA ([], {});
          st = fold (\<lambda>b st. fold (take_diff yd_idB (ry_id b)) diffs st) rawB st
      in fst st)"

definition Do ::
  "((yaml_diff \<Rightarrow> yaml_diff \<Rightarrow> bool) \<Rightarrow> yaml_diff list \<Rightarrow> yaml_diff list) \<Rightarrow> (rat \<Rightarrow> string) \<Rightarrow>
   (nat \<Rightarrow> string) \<Rightarrow> nat \<Rightarrow> do_options \<Rightarrow> raw_yaml list \<Rightarrow> raw_yaml list \<Rightarrow> yaml_diff list" where
  "Do srt fl fresh n opt rawA rawB =
     (let diffs = performAllDiff fl opt fresh n rawA rawB;
          diffs = findMinimumDiffs srt diffs
      in sortResult rawA rawB diffs)"

text \<open>\<open>EmptyAsNull\<close>, \<open>ZeroAsNull\<close> and the loop over the options.\<close>

definition EmptyAsNull :: "do_options \<Rightarrow> do_options" where
  "EmptyAsNull opt = opt\<lparr>emptyAsNull := True\<rparr>"

definition ZeroAsNull :: "do_options \<Rightarrow> do_options" where
  "ZeroAsNull opt = opt\<lparr>zeroAsNull := True\<rparr>"

definition make_options :: "(do_options \<Rightarrow> do_options) list \<Rightarrow> do_options" where
  "make_options options = fold (\<lambda>f opt. f opt) options \<lparr>emptyAsNull = False, zeroAsNull = False\<rparr>"

section \<open>Choosing\<close>

abbreviation ids :: "yaml_diff \<Rightarrow> string set" where
  "ids d \<equiv> {yd_idA d, yd_idB d}"

text \<open>No two diffs of the list share a document.\<close>

definition apart :: "yaml_diff list \<Rightarrow> bool" where
  "apart ds \<longleftrightarrow> sorted_wrt (\<lambda>d e. ids d \<inter> ids e = {}) ds"

lemma apart_simps [simp]:
  "apart []" "apart (d # ds) \<longleftrightarrow> (\<forall>e \<in> set ds. ids d \<inter> ids e = {}) \<and> apart ds"
  by (auto simp: apart_def)

lemma apart_snoc: "apart (ds @ [d]) \<longleftrightarrow> apart ds \<and> (\<forall>e \<in> set ds. ids d \<inter> ids e = {})"
  by (auto simp: apart_def sorted_wrt_append)

lemma apart_eq: "apart ds \<Longrightarrow> d \<in> set ds \<Longrightarrow> e \<in> set ds \<Longrightarrow> ids d \<inter> ids e \<noteq> {} \<Longrightarrow> d = e"
  by (induction ds) auto

lemma apart_distinct: "apart ds \<Longrightarrow> distinct ds"
  by (induction ds) auto

lemma pick_apart: "apart result \<Longrightarrow> checked = \<Union> (ids ` set result) \<Longrightarrow> apart (pick ds result checked)"
proof (induction ds arbitrary: result checked)
  case (Cons d ds)
  show ?case
  proof (cases "yd_idA d \<in> checked \<or> yd_idB d \<in> checked")
    case False
    then have "apart (result @ [d])" using Cons.prems by (auto simp: apart_snoc)
    moreover have "insert (yd_idB d) (insert (yd_idA d) checked) = \<Union> (ids ` set (result @ [d]))"
      using Cons.prems(2) by auto
    ultimately have "apart (pick ds (result @ [d]) (insert (yd_idB d) (insert (yd_idA d) checked)))"
      by (rule Cons.IH)
    with False show ?thesis by simp
  qed (use Cons in auto)
qed simp

lemma pick_subset: "set (pick ds result checked) \<subseteq> set result \<union> set ds"
proof (induction ds arbitrary: result checked)
  case (Cons d ds)
  from Cons [of result checked] Cons [of "result @ [d]" "insert (yd_idB d) (insert (yd_idA d) checked)"]
  show ?case by auto
qed simp

lemma pick_result: "set result \<subseteq> set (pick ds result checked)"
proof (induction ds arbitrary: result checked)
  case (Cons d ds)
  have "set result \<subseteq> set (pick ds (result @ [d]) c)" for c
    using Cons [of "result @ [d]" c] by auto
  with Cons show ?case by simp
qed simp

text \<open>The choice is maximal: a diff that is passed over shares a document with a chosen one.\<close>

lemma pick_maximal:
  assumes "checked = \<Union> (ids ` set result)" "d \<in> set ds"
  shows "\<exists>e \<in> set (pick ds result checked). ids d \<inter> ids e \<noteq> {}"
  using assms
proof (induction ds arbitrary: result checked)
  case (Cons c ds)
  show ?case
  proof (cases "d = c")
    case False
    with Cons.prems have d: "d \<in> set ds" by simp
    have "insert (yd_idB c) (insert (yd_idA c) checked) = \<Union> (ids ` set (result @ [c]))"
      using Cons.prems(1) by auto
    with Cons.IH [OF Cons.prems(1) d] Cons.IH [OF this d] show ?thesis by simp
  next
    case True
    show ?thesis
    proof (cases "yd_idA c \<in> checked \<or> yd_idB c \<in> checked")
      case True
      then obtain e where "e \<in> set result" "ids c \<inter> ids e \<noteq> {}" using Cons.prems(1) by auto
      with pick_result have "e \<in> set (pick ds result checked)" by blast
      with True \<open>ids c \<inter> ids e \<noteq> {}\<close> \<open>d = c\<close> show ?thesis by auto
    next
      case False
      have "c \<in> set (pick ds (result @ [c]) (insert (yd_idB c) (insert (yd_idA c) checked)))"
        using pick_result [of "result @ [c]" ds] by auto
      with False \<open>d = c\<close> show ?thesis by auto
    qed
  qed
qed simp

section \<open>Ordering\<close>

lemma take_diff_loop:
  assumes "apart ds"
  shows "fold (take_diff side doc) ds (result, checked) =
    (result @ filter (\<lambda>d. side d = doc \<and> ids d \<inter> checked = {}) ds,
     checked \<union> \<Union> (ids ` set (filter (\<lambda>d. side d = doc \<and> ids d \<inter> checked = {}) ds)))"
  using assms
proof (induction ds arbitrary: result checked)
  case (Cons d ds)
  show ?case
  proof (cases "side d = doc \<and> ids d \<inter> checked = {}")
    case True
    let ?c = "insert (yd_idB d) (insert (yd_idA d) checked)"
    let ?F = "filter (\<lambda>e. side e = doc \<and> ids e \<inter> checked = {}) ds"
    have "filter (\<lambda>e. side e = doc \<and> ids e \<inter> ?c = {}) ds = ?F"
      using Cons.prems by (intro filter_cong) auto
    then have "fold (take_diff side doc) ds (result @ [d], ?c) = ((result @ [d]) @ ?F, ?c \<union> \<Union> (ids ` set ?F))"
      using Cons.IH [of "result @ [d]" ?c] Cons.prems by simp
    moreover have "take_diff side doc d (result, checked) = (result @ [d], ?c)"
      using True by (auto simp: take_diff_def)
    moreover have "filter (\<lambda>e. side e = doc \<and> ids e \<inter> checked = {}) (d # ds) = d # ?F"
      using True by simp
    moreover have "?c \<union> \<Union> (ids ` set ?F) = checked \<union> \<Union> (ids ` set (d # ?F))" by auto
    ultimately show ?thesis by (simp only: fold_simps append_assoc append_Cons append_Nil)
  next
    case False
    then have "take_diff side doc d (result, checked) = (result, checked)"
      by (auto simp: take_diff_def)
    moreover have "filter (\<lambda>e. side e = doc \<and> ids e \<inter> checked = {}) (d # ds) =
        filter (\<lambda>e. side e = doc \<and> ids e \<inter> checked = {}) ds"
      using False by (simp only: filter.simps if_False)
    ultimately show ?thesis using Cons by (simp only: fold_simps apart_simps)
  qed
qed simp

lemma side_loop:
  assumes "apart ds" and side: "\<And>d. side d \<in> ids d" and "distinct docs"
  shows "fold (\<lambda>doc st. fold (take_diff side doc) ds st) docs (result, checked) =
    (result @ concat (map (\<lambda>doc. filter (\<lambda>d. side d = doc \<and> ids d \<inter> checked = {}) ds) docs),
     checked \<union> \<Union> (ids ` {d \<in> set ds. side d \<in> set docs \<and> ids d \<inter> checked = {}}))"
  using assms(3)
proof (induction docs arbitrary: result checked)
  case (Cons doc docs)
  let ?F = "\<lambda>c doc. filter (\<lambda>d. side d = doc \<and> ids d \<inter> c = {}) ds"
  let ?c = "checked \<union> \<Union> (ids ` set (?F checked doc))"
  have same: "ids d \<inter> ?c = {} \<longleftrightarrow> ids d \<inter> checked = {}" if d: "d \<in> set ds" "side d \<in> set docs" for d
  proof -
    have "ids d \<inter> ids e = {}" if e: "e \<in> set (?F checked doc)" for e
    proof (rule ccontr)
      assume "ids d \<inter> ids e \<noteq> {}"
      with e d(1) have "d = e" by (intro apart_eq [OF assms(1)]) auto
      with e d(2) Cons.prems show False by auto
    qed
    then show ?thesis by fastforce
  qed
  have maps: "map (?F ?c) docs = map (?F checked) docs"
    by (intro map_cong filter_cong refl) (use same in blast)
  have sets: "{d \<in> set ds. side d \<in> set docs \<and> ids d \<inter> ?c = {}} = {d \<in> set ds. side d \<in> set docs \<and> ids d \<inter> checked = {}}"
    using same by blast
  have "distinct docs" using Cons.prems by simp
  then have "fold (\<lambda>doc st. fold (take_diff side doc) ds st) docs (result @ ?F checked doc, ?c) =
      ((result @ ?F checked doc) @ concat (map (?F checked) docs),
       ?c \<union> \<Union> (ids ` {d \<in> set ds. side d \<in> set docs \<and> ids d \<inter> checked = {}}))"
    by (rule Cons.IH [of "result @ ?F checked doc" ?c, unfolded maps sets])
  moreover have "?c \<union> \<Union> (ids ` {d \<in> set ds. side d \<in> set docs \<and> ids d \<inter> checked = {}}) =
      checked \<union> \<Union> (ids ` {d \<in> set ds. side d \<in> set (doc # docs) \<and> ids d \<inter> checked = {}})"
    by auto
  moreover have "(result @ ?F checked doc) @ concat (map (?F checked) docs) =
      result @ concat (map (?F checked) (doc # docs))" by simp
  ultimately show ?case by (simp only: fold_simps take_diff_loop [OF assms(1)])
qed simp

lemma sortResult_eq:
  assumes "apart ds" "distinct (map ry_id rawA)" "distinct (map ry_id rawB)"
  shows "sortResult rawA rawB ds =
    concat (map (\<lambda>a. filter (\<lambda>d. yd_idA d = ry_id a) ds) rawA) @
    concat (map (\<lambda>b. filter (\<lambda>d. yd_idB d = ry_id b \<and>
      (\<forall>e \<in> set ds. yd_idA e \<in> set (map ry_id rawA) \<longrightarrow> ids d \<inter> ids e = {})) ds) rawB)"
proof -
  have docs: "fold (\<lambda>b st. fold (take_diff side (ry_id b)) ds st) raws st =
      fold (\<lambda>doc st. fold (take_diff side doc) ds st) (map ry_id raws) st" for side raws st
    by (simp add: fold_map comp_def)
  let ?c = "\<Union> (ids ` {d \<in> set ds. yd_idA d \<in> set (map ry_id rawA)})"
  have "filter (\<lambda>d. yd_idB d = doc \<and> ids d \<inter> ?c = {}) ds = filter (\<lambda>d. yd_idB d = doc \<and>
      (\<forall>e \<in> set ds. yd_idA e \<in> set (map ry_id rawA) \<longrightarrow> ids d \<inter> ids e = {})) ds" for doc
    by (intro filter_cong refl) blast
  then show ?thesis
    unfolding sortResult_def docs side_loop [where side = yd_idA, OF assms(1) _ assms(2), simplified]
    by (simp add: side_loop [where side = yd_idB, OF assms(1) _ assms(3), simplified] comp_def)
qed

section \<open>Every document is reported once\<close>

text \<open>All identifiers of a run: of the documents and of the empty documents they are compared with.\<close>

definition run_ids :: "(nat \<Rightarrow> string) \<Rightarrow> nat \<Rightarrow> raw_yaml list \<Rightarrow> raw_yaml list \<Rightarrow> string list" where
  "run_ids fresh n rawA rawB = map ry_id rawA @ map ry_id rawB @
     map (empty_id fresh) [n..<n + length rawA + length rawB]"

definition permutes :: "((yaml_diff \<Rightarrow> yaml_diff \<Rightarrow> bool) \<Rightarrow> yaml_diff list \<Rightarrow> yaml_diff list) \<Rightarrow> bool" where
  "permutes srt \<longleftrightarrow> (\<forall>less ds. mset (srt less ds) = mset ds)"

lemma all_diffs_cases:
  assumes "d \<in> set (performAllDiff fl opt fresh n rawA rawB)"
  obtains (pair) a b where "a \<in> set rawA" "b \<in> set rawB" "yd_idA d = ry_id a" "yd_idB d = ry_id b"
      "yd_d d = performDiff fl opt (ry_raw a) (ry_raw b) 0"
    | (onlyA) i where "i < length rawA" "yd_idA d = ry_id (rawA ! i)" "yd_idB d = empty_id fresh (n + i)"
      "yd_d d = performDiff fl opt (ry_raw (rawA ! i)) RNil 0"
    | (onlyB) j where "j < length rawB" "yd_idB d = ry_id (rawB ! j)"
      "yd_idA d = empty_id fresh (n + length rawA + j)" "yd_d d = performDiff fl opt RNil (ry_raw (rawB ! j)) 0"
proof -
  have map2: "\<exists>i < length xs. z = f (xs ! i) (m + i)" if mem: "z \<in> set (map2 f xs [m..<m + length xs])"
    for z f m and xs :: "raw_yaml list"
  proof -
    obtain i where "i < length (map2 f xs [m..<m + length xs])" "z = map2 f xs [m..<m + length xs] ! i"
      using iffD1 [OF in_set_conv_nth mem] by auto
    moreover from this have "i < length xs" by simp
    moreover from this have "map2 f xs [m..<m + length xs] ! i = f (xs ! i) (m + i)" by simp
    ultimately have "i < length xs \<and> z = f (xs ! i) (m + i)" by simp
    then show ?thesis by (rule exI [of _ i])
  qed
  from assms consider
      "d \<in> set (concat (map (\<lambda>a. map (\<lambda>b. \<lparr>yd_d = performDiff fl opt (ry_raw a) (ry_raw b) 0,
        yd_idA = ry_id a, yd_idB = ry_id b\<rparr>) rawB) rawA))"
    | "d \<in> set (map2 (\<lambda>a k. \<lparr>yd_d = performDiff fl opt (ry_raw a) RNil 0, yd_idA = ry_id a,
        yd_idB = empty_id fresh k\<rparr>) rawA [n..<n + length rawA])"
    | "d \<in> set (map2 (\<lambda>b k. \<lparr>yd_d = performDiff fl opt RNil (ry_raw b) 0, yd_idA = empty_id fresh k,
        yd_idB = ry_id b\<rparr>) rawB [n + length rawA..<n + length rawA + length rawB])"
    unfolding performAllDiff_def set_append by (elim UnE)
  then show thesis
  proof cases
    case 1
    then show ?thesis using pair by auto
  next
    case 2
    from map2 [OF this] obtain i where "i < length rawA" "d = \<lparr>yd_d = performDiff fl opt (ry_raw (rawA ! i)) RNil 0,
        yd_idA = ry_id (rawA ! i), yd_idB = empty_id fresh (n + i)\<rparr>" by blast
    then show ?thesis by (intro onlyA [of i]) simp_all
  next
    case 3
    from map2 [OF this] obtain j where "j < length rawB" "d = \<lparr>yd_d = performDiff fl opt RNil (ry_raw (rawB ! j)) 0,
        yd_idA = empty_id fresh (n + length rawA + j), yd_idB = ry_id (rawB ! j)\<rparr>" by blast
    then show ?thesis by (intro onlyB [of j]) simp_all
  qed
qed

lemma map2_in: "i < length xs \<Longrightarrow> i < length ys \<Longrightarrow> f (xs ! i) (ys ! i) \<in> set (map2 f xs ys)"
  using nth_mem [of i "map2 f xs ys"] by simp

lemma onlyA_in:
  assumes "i < length rawA"
  shows "\<exists>d. d \<in> set (performAllDiff fl opt fresh n rawA rawB) \<and> yd_idA d = ry_id (rawA ! i) \<and>
    yd_idB d = empty_id fresh (n + i)"
proof -
  let ?f = "\<lambda>a k. \<lparr>yd_d = performDiff fl opt (ry_raw a) RNil 0, yd_idA = ry_id a, yd_idB = empty_id fresh k\<rparr>"
  have "?f (rawA ! i) (n + i) \<in> set (performAllDiff fl opt fresh n rawA rawB)"
    using map2_in [of i rawA "[n..<n + length rawA]" ?f] assms unfolding performAllDiff_def by simp
  then show ?thesis by (intro exI [of _ "?f (rawA ! i) (n + i)"]) simp
qed

lemma onlyB_in:
  assumes "j < length rawB"
  shows "\<exists>d. d \<in> set (performAllDiff fl opt fresh n rawA rawB) \<and> yd_idB d = ry_id (rawB ! j) \<and>
    yd_idA d = empty_id fresh (n + length rawA + j)"
proof -
  let ?f = "\<lambda>b k. \<lparr>yd_d = performDiff fl opt RNil (ry_raw b) 0, yd_idA = empty_id fresh k, yd_idB = ry_id b\<rparr>"
  have "?f (rawB ! j) (n + length rawA + j) \<in> set (performAllDiff fl opt fresh n rawA rawB)"
    using map2_in [of j rawB "[n + length rawA..<n + length rawA + length rawB]" ?f] assms
    unfolding performAllDiff_def by simp
  then show ?thesis by (intro exI [of _ "?f (rawB ! j) (n + length rawA + j)"]) simp
qed

lemma run_ids_distinct:
  assumes "distinct (run_ids fresh n rawA rawB)"
  shows "\<And>a b. a \<in> set rawA \<Longrightarrow> b \<in> set rawB \<Longrightarrow> ry_id a \<noteq> ry_id b"
    and "\<And>a k. a \<in> set rawA \<union> set rawB \<Longrightarrow> n \<le> k \<Longrightarrow> k < n + length rawA + length rawB \<Longrightarrow>
      ry_id a \<noteq> empty_id fresh k"
    and "\<And>j k. n \<le> j \<Longrightarrow> n \<le> k \<Longrightarrow> j < n + length rawA + length rawB \<Longrightarrow> k < n + length rawA + length rawB \<Longrightarrow>
      empty_id fresh j = empty_id fresh k \<Longrightarrow> j = k"
    and "distinct (map ry_id rawA)" "distinct (map ry_id rawB)"
proof -
  let ?E = "empty_id fresh" and ?R = "[n..<n + length rawA + length rawB]"
  from assms show "distinct (map ry_id rawA)" "distinct (map ry_id rawB)" by (simp_all add: run_ids_def)
  show "ry_id a \<noteq> ry_id b" if "a \<in> set rawA" "b \<in> set rawB" for a b
    using assms that by (auto simp: run_ids_def)
  show "ry_id a \<noteq> ?E k" if "a \<in> set rawA \<union> set rawB" "n \<le> k" "k < n + length rawA + length rawB" for a k
    using assms that by (auto simp: run_ids_def)
  have "inj_on ?E (set ?R)" using assms by (simp add: run_ids_def distinct_map)
  then show "j = k" if "n \<le> j" "n \<le> k" "j < n + length rawA + length rawB" "k < n + length rawA + length rawB"
    "?E j = ?E k" for j k
    using that by (auto simp: inj_on_def)
qed

lemma chosen_partner:
  fixes fl :: "rat \<Rightarrow> string" and opt :: do_options
  assumes dist: "distinct (run_ids fresh n rawA rawB)" and perm: "permutes srt"
  defines "ds \<equiv> findMinimumDiffs srt (performAllDiff fl opt fresh n rawA rawB)"
  shows "apart ds" and "set ds \<subseteq> set (performAllDiff fl opt fresh n rawA rawB)"
    and "a \<in> set rawA \<Longrightarrow> \<exists>d \<in> set ds. yd_idA d = ry_id a"
    and "b \<in> set rawB \<Longrightarrow> \<exists>d \<in> set ds. yd_idB d = ry_id b"
proof -
  let ?all = "performAllDiff fl opt fresh n rawA rawB"
  note D = run_ids_distinct [OF dist]
  have set: "set (srt less_diff ?all) = set ?all"
    using perm by (metis permutes_def mset_eq_setD)
  show "apart ds" by (simp add: ds_def findMinimumDiffs_def pick_apart)
  show sub: "set ds \<subseteq> set ?all"
    using pick_subset [of "srt less_diff ?all" "[]" "{}"] set by (simp add: ds_def findMinimumDiffs_def)
  have max: "\<exists>e \<in> set ds. ids d \<inter> ids e \<noteq> {}" if "d \<in> set ?all" for d
    using pick_maximal [of "{}" "[]" d "srt less_diff ?all"] that set by (simp add: ds_def findMinimumDiffs_def)
  show "\<exists>d \<in> set ds. yd_idA d = ry_id a" if a: "a \<in> set rawA"
  proof -
    obtain i where i: "i < length rawA" "a = rawA ! i" using a by (metis in_set_conv_nth)
    obtain d where d: "d \<in> set ?all" "yd_idA d = ry_id a" "yd_idB d = empty_id fresh (n + i)"
      using onlyA_in [OF i(1), of fl opt fresh n rawB] i(2) by auto
    from max [OF d(1)] obtain e where e: "e \<in> set ds" "{ry_id a, empty_id fresh (n + i)} \<inter> ids e \<noteq> {}"
      unfolding d(2,3) by blast
    have "e \<in> set ?all" using e(1) sub by blast
    then have "yd_idA e = ry_id a"
    proof (cases rule: all_diffs_cases)
      case (pair a' b')
      have "ry_id a \<noteq> ry_id b'" "empty_id fresh (n + i) \<noteq> ry_id a'" "empty_id fresh (n + i) \<noteq> ry_id b'"
        using D(1) [OF a pair(2)] D(2) [of a' "n + i"] D(2) [of b' "n + i"] pair(1,2) i by auto
      with e(2) pair(3,4) show ?thesis by auto
    next
      case (onlyA i')
      have "rawA ! i' \<in> set rawA" using onlyA(1) by simp
      then have "ry_id a \<noteq> empty_id fresh (n + i')" "empty_id fresh (n + i) \<noteq> ry_id (rawA ! i')"
        using D(2) [of a "n + i'"] D(2) [of "rawA ! i'" "n + i"] a i(1) onlyA(1) by auto
      moreover have "empty_id fresh (n + i) = empty_id fresh (n + i') \<Longrightarrow> i = i'"
        using D(3) [of "n + i" "n + i'"] i(1) onlyA(1) by simp
      moreover have "ry_id a = yd_idA e \<or> ry_id a = yd_idB e \<or> empty_id fresh (n + i) = yd_idA e \<or>
          empty_id fresh (n + i) = yd_idB e"
        using e(2) by blast
      ultimately show ?thesis unfolding i(2) onlyA(2,3) by metis
    next
      case (onlyB j)
      have b: "rawB ! j \<in> set rawB" using onlyB(1) by simp
      then have "ry_id a \<noteq> ry_id (rawB ! j)" "ry_id a \<noteq> empty_id fresh (n + length rawA + j)"
        "empty_id fresh (n + i) \<noteq> ry_id (rawB ! j)"
        using D(1) [OF a b] D(2) [of a "n + length rawA + j"] D(2) [of "rawB ! j" "n + i"] a i(1) onlyB(1) by auto
      moreover have "empty_id fresh (n + i) \<noteq> empty_id fresh (n + length rawA + j)"
        using D(3) [of "n + i" "n + length rawA + j"] i(1) onlyB(1) by auto
      ultimately show ?thesis using e(2) onlyB(2,3) by auto
    qed
    with e(1) show ?thesis by blast
  qed
  show "\<exists>d \<in> set ds. yd_idB d = ry_id b" if b: "b \<in> set rawB"
  proof -
    obtain j where j: "j < length rawB" "b = rawB ! j" using b by (metis in_set_conv_nth)
    obtain d where d: "d \<in> set ?all" "yd_idB d = ry_id b" "yd_idA d = empty_id fresh (n + length rawA + j)"
      using onlyB_in [OF j(1), of fl opt fresh n rawA] j(2) by auto
    from max [OF d(1)] obtain e where e: "e \<in> set ds" "{empty_id fresh (n + length rawA + j), ry_id b} \<inter> ids e \<noteq> {}"
      unfolding d(2,3) by blast
    have "e \<in> set ?all" using e(1) sub by blast
    then have "yd_idB e = ry_id b"
    proof (cases rule: all_diffs_cases)
      case (pair a' b')
      have "ry_id a' \<noteq> ry_id b" "empty_id fresh (n + length rawA + j) \<noteq> ry_id a'"
        "empty_id fresh (n + length rawA + j) \<noteq> ry_id b'"
        using D(1) [OF pair(1) b] D(2) [of a' "n + length rawA + j"] D(2) [of b' "n + length rawA + j"] pair(1,2) j
        by auto
      with e(2) pair(3,4) show ?thesis by auto
    next
      case (onlyA i)
      have a: "rawA ! i \<in> set rawA" using onlyA(1) by simp
      then have "ry_id (rawA ! i) \<noteq> ry_id b" "ry_id b \<noteq> empty_id fresh (n + i)"
        "empty_id fresh (n + length rawA + j) \<noteq> ry_id (rawA ! i)"
        using D(1) [OF a b] D(2) [of b "n + i"] D(2) [of "rawA ! i" "n + length rawA + j"] b j(1) onlyA(1) by auto
      moreover have "empty_id fresh (n + length rawA + j) \<noteq> empty_id fresh (n + i)"
        using D(3) [of "n + i" "n + length rawA + j"] j(1) onlyA(1) by auto
      ultimately show ?thesis using e(2) onlyA(2,3) by auto
    next
      case (onlyB j')
      have "rawB ! j' \<in> set rawB" using onlyB(1) by simp
      then have "ry_id b \<noteq> empty_id fresh (n + length rawA + j')" "empty_id fresh (n + length rawA + j) \<noteq> ry_id (rawB ! j')"
        using D(2) [of b "n + length rawA + j'"] D(2) [of "rawB ! j'" "n + length rawA + j"] b j(1) onlyB(1) by auto
      moreover have "empty_id fresh (n + length rawA + j) = empty_id fresh (n + length rawA + j') \<Longrightarrow> j = j'"
        using D(3) [of "n + length rawA + j" "n + length rawA + j'"] j(1) onlyB(1) by simp
      moreover have "ry_id b = yd_idA e \<or> ry_id b = yd_idB e \<or> empty_id fresh (n + length rawA + j) = yd_idA e \<or>
          empty_id fresh (n + length rawA + j) = yd_idB e"
        using e(2) by blast
      ultimately show ?thesis unfolding j(2) onlyB(2,3) by metis
    qed
    with e(1) show ?thesis by blast
  qed
qed

lemma filter_single:
  "distinct xs \<Longrightarrow> x \<in> set xs \<Longrightarrow> (\<And>y. y \<in> set xs \<Longrightarrow> P y \<longleftrightarrow> y = x) \<Longrightarrow> filter P xs = [x]"
proof (induction xs)
  case (Cons y ys)
  show ?case
  proof (cases "y = x")
    case True
    with Cons.prems have "filter P ys = []" by (auto simp: filter_empty_conv)
    with True Cons.prems(3) [of y] show ?thesis by simp
  next
    case False
    with Cons show ?thesis by simp
  qed
qed simp


text \<open>What \<open>sort.Slice\<close> does with at most 12 elements: insertion sort. \<open>sift\<close> inserts into the sorted
  prefix, which it holds in reverse.\<close>

fun sift :: "('a \<Rightarrow> 'a \<Rightarrow> bool) \<Rightarrow> 'a \<Rightarrow> 'a list \<Rightarrow> 'a list" where
  "sift lt x [] = [x]"
| "sift lt x (y # ys) = (if lt x y then y # sift lt x ys else x # y # ys)"

definition insertion_sort :: "('a \<Rightarrow> 'a \<Rightarrow> bool) \<Rightarrow> 'a list \<Rightarrow> 'a list" where
  "insertion_sort lt xs = rev (fold (sift lt) xs [])"

lemma mset_sift: "mset (sift lt x ys) = add_mset x (mset ys)"
  by (induction ys) auto

lemma insertion_sort_permutes: "permutes insertion_sort"
proof -
  have "mset (fold (sift lt) xs ys) = mset xs + mset ys" for lt :: "yaml_diff \<Rightarrow> yaml_diff \<Rightarrow> bool" and xs ys
    by (induction xs arbitrary: ys) (simp_all add: mset_sift)
  then show ?thesis by (simp add: permutes_def insertion_sort_def)
qed

text \<open>Two small streams: two documents against one, which is the same as the second.\<close>

definition doc :: "string \<Rightarrow> raw \<Rightarrow> raw_yaml" where
  "doc i v = \<lparr>ry_raw = v, ry_id = i\<rparr>"

definition sample_fresh :: "nat \<Rightarrow> string" where
  "sample_fresh k = go_itoa (int k)"

definition sampleA :: "raw_yaml list" where
  "sampleA = [doc ''a1'' (RMap [(KString ''kind'', RString ''Service'')]),
     doc ''a2'' (RMap [(KString ''kind'', RString ''ConfigMap''), (KString ''data'', RNil)])]"

definition sampleB :: "raw_yaml list" where
  "sampleB = [doc ''b1'' (RMap [(KString ''data'', RNil), (KString ''kind'', RString ''ConfigMap'')])]"

lemma sample_ids: "distinct (run_ids sample_fresh 0 sampleA sampleB)"
  by code_simp


abbreviation same :: "yaml_diff \<Rightarrow> bool" where
  "same d \<equiv> d_status (yd_d d) = DiffStatusSame"

lemma sift_same:
  assumes "sorted_wrt (\<lambda>d e. same d \<longrightarrow> same e) ys" "\<forall>y \<in> set ys. same y \<longrightarrow> d_count (yd_d y) = 0"
  shows "sorted_wrt (\<lambda>d e. same d \<longrightarrow> same e) (sift less_diff x ys)"
  using assms
proof (induction ys)
  case (Cons y ys)
  have "set (sift less_diff x ys) = insert x (set ys)"
    using arg_cong [OF mset_sift [of less_diff x ys], of set_mset] by simp
  moreover have "less_diff x y \<longleftrightarrow> same x \<or> d_count (yd_d x) < d_count (yd_d y)"
    by (simp add: less_diff_def)
  ultimately show ?case using Cons by auto
qed simp

lemma insertion_sort_same_first:
  assumes "\<forall>d \<in> set ds. same d \<longrightarrow> d_count (yd_d d) = 0"
  shows "sorted_wrt (\<lambda>d e. same e \<longrightarrow> same d) (insertion_sort less_diff ds)"
proof -
  have "sorted_wrt (\<lambda>d e. same d \<longrightarrow> same e) (fold (sift less_diff) xs ys)"
    if "\<forall>d \<in> set xs \<union> set ys. same d \<longrightarrow> d_count (yd_d d) = 0" "sorted_wrt (\<lambda>d e. same d \<longrightarrow> same e) ys" for xs ys
    using that
  proof (induction xs arbitrary: ys)
    case (Cons x xs)
    have "set (sift less_diff x ys) = insert x (set ys)"
      using arg_cong [OF mset_sift [of less_diff x ys], of set_mset] by simp
    with Cons sift_same [of ys x] show ?case by auto
  qed simp
  from this [of ds "[]"] assms show ?thesis by (simp add: insertion_sort_def sorted_wrt_rev)
qed

lemma pick_append: "pick (xs @ ys) [] {} = pick ys (pick xs [] {}) (\<Union> (ids ` set (pick xs [] {})))"
proof -
  have "pick (xs @ ys) result checked = pick ys (pick xs result checked) (\<Union> (ids ` set (pick xs result checked)))"
    if "checked = \<Union> (ids ` set result)" for result checked
    using that
  proof (induction xs arbitrary: result checked)
    case (Cons x xs)
    have "insert (yd_idB x) (insert (yd_idA x) checked) = \<Union> (ids ` set (result @ [x]))"
      using Cons.prems by auto
    from Cons.IH [OF this] Cons.IH [OF Cons.prems] show ?case by simp
  qed simp
  from this [of "{}" "[]"] show ?thesis by simp
qed

lemma chosen_reported:
  assumes dist: "distinct (run_ids fresh n rawA rawB)" and perm: "permutes srt"
    and d: "d \<in> set (findMinimumDiffs srt (performAllDiff fl opt fresh n rawA rawB))"
  shows "d \<in> set (Do srt fl fresh n opt rawA rawB)"
proof -
  define ds where "ds = findMinimumDiffs srt (performAllDiff fl opt fresh n rawA rawB)"
  note C = chosen_partner [OF dist perm, where fl = fl and opt = opt, folded ds_def]
  note D = run_ids_distinct [OF dist]
  have dd: "d \<in> set ds" using d by (simp add: ds_def)
  then have "d \<in> set (performAllDiff fl opt fresh n rawA rawB)" using C(2) by blast
  then have sides: "yd_idA d \<in> set (map ry_id rawA) \<or> yd_idB d \<in> set (map ry_id rawB)"
    by (cases rule: all_diffs_cases) auto
  have "d \<in> set (sortResult rawA rawB ds)"
  proof (cases "yd_idA d \<in> set (map ry_id rawA)")
    case True
    with dd show ?thesis by (auto simp: sortResult_eq [OF C(1) D(4,5)])
  next
    case False
    with dd have "\<forall>e \<in> set ds. yd_idA e \<in> set (map ry_id rawA) \<longrightarrow> ids d \<inter> ids e = {}"
      using apart_eq [OF C(1)] by blast
    moreover from False sides obtain b where b: "b \<in> set rawB" "yd_idB d = ry_id b"
      by (metis imageE list.set_map)
    ultimately have "d \<in> set (filter (\<lambda>d. yd_idB d = ry_id b \<and>
        (\<forall>e \<in> set ds. yd_idA e \<in> set (map ry_id rawA) \<longrightarrow> ids d \<inter> ids e = {})) ds)"
      using dd by simp
    with b(1) show ?thesis unfolding sortResult_eq [OF C(1) D(4,5)] set_append set_concat set_map by blast
  qed
  then show ?thesis by (simp add: Do_def Let_def ds_def)
qed

text \<open>Identical documents find each other, as long as \<open>sort.Slice\<close> sorts by insertion (at most 12 diffs): if
  a document of A is the same as one of B, the report contains a diff of status same for one of the two.\<close>

theorem identical_documents_paired:
  assumes dist: "distinct (run_ids fresh n rawA rawB)"
    and ab: "a \<in> set rawA" "b \<in> set rawB"
    and same: "d_status (performDiff fl opt (ry_raw a) (ry_raw b) 0) = DiffStatusSame"
  shows "\<exists>d \<in> set (Do insertion_sort fl fresh n opt rawA rawB). d_status (yd_d d) = DiffStatusSame \<and>
    (yd_idA d = ry_id a \<or> yd_idB d = ry_id b)"
proof -
  let ?all = "performAllDiff fl opt fresh n rawA rawB"
  let ?d = "\<lparr>yd_d = performDiff fl opt (ry_raw a) (ry_raw b) 0, yd_idA = ry_id a, yd_idB = ry_id b\<rparr>"
  let ?sorted = "insertion_sort less_diff ?all"
  note D = run_ids_distinct [OF dist]
  have "?d \<in> set ?all" using ab by (force simp: performAllDiff_def)
  moreover have set: "set ?sorted = set ?all"
    using insertion_sort_permutes by (metis permutes_def mset_eq_setD)
  ultimately obtain pre post where split: "?sorted = pre @ ?d # post" by (metis split_list)
  have "\<forall>d \<in> set ?all. same d \<longrightarrow> d_count (yd_d d) = 0"
  proof (intro ballI impI)
    fix d assume "d \<in> set ?all" "same d"
    then obtain x y where "yd_d d = performDiff fl opt x y 0" by (cases rule: all_diffs_cases) auto
    with \<open>same d\<close> show "d_count (yd_d d) = 0" by (simp add: same_count)
  qed
  from insertion_sort_same_first [OF this] split same
  have front: "same e" if "e \<in> set (pre @ [?d])" for e
    using that by (auto simp: sorted_wrt_append)
  obtain e where e: "e \<in> set (pick (pre @ [?d]) [] {})" "ids ?d \<inter> ids e \<noteq> {}"
    using pick_maximal [of "{}" "[]" ?d "pre @ [?d]"] by auto
  have "e \<in> set (pre @ [?d])" using e(1) pick_subset [of "pre @ [?d]" "[]" "{}"] by auto
  moreover from this have "e \<in> set ?all" using split set by auto
  moreover have "e \<in> set (findMinimumDiffs insertion_sort ?all)"
  proof -
    have "findMinimumDiffs insertion_sort ?all = pick ((pre @ [?d]) @ post) [] {}"
      using split by (simp add: findMinimumDiffs_def)
    moreover have "set (pick (pre @ [?d]) [] {}) \<subseteq> set (pick ((pre @ [?d]) @ post) [] {})"
      unfolding pick_append [of "pre @ [?d]" post] by (rule pick_result)
    ultimately show ?thesis using e(1) by auto
  qed
  moreover have "yd_idA e = ry_id a \<or> yd_idB e = ry_id b"
    using \<open>e \<in> set ?all\<close>
  proof (cases rule: all_diffs_cases)
    case (pair a' b')
    with e(2) D(1) [OF ab(1) pair(2)] D(1) [OF pair(1) ab(2)] show ?thesis by auto
  next
    case (onlyA i)
    have "rawA ! i \<in> set rawA" using onlyA(1) by simp
    with D(1) [OF _ ab(2), of "rawA ! i"] D(2) [of a "n + i"] D(2) [of b "n + i"] ab onlyA(1)
    have "ry_id (rawA ! i) \<noteq> ry_id b" "ry_id a \<noteq> empty_id fresh (n + i)" "ry_id b \<noteq> empty_id fresh (n + i)" by auto
    with e(2) onlyA(2,3) show ?thesis by auto
  next
    case (onlyB j)
    have "rawB ! j \<in> set rawB" using onlyB(1) by simp
    with D(1) [OF ab(1), of "rawB ! j"] D(2) [of a "n + length rawA + j"] D(2) [of b "n + length rawA + j"] ab onlyB(1)
    have "ry_id a \<noteq> ry_id (rawB ! j)" "ry_id a \<noteq> empty_id fresh (n + length rawA + j)"
      "ry_id b \<noteq> empty_id fresh (n + length rawA + j)" by auto
    with e(2) onlyB(2,3) show ?thesis by auto
  qed
  ultimately show ?thesis
    using front chosen_reported [OF dist insertion_sort_permutes, of e fl opt] by blast
qed

theorem identical_documents_paired_witness:
  "\<exists>d \<in> set (Do insertion_sort no_floats sample_fresh 0 default_options sampleA sampleB).
     d_status (yd_d d) = DiffStatusSame \<and> (yd_idA d = ''a2'' \<or> yd_idB d = ''b1'')"
proof -
  let ?a = "doc ''a2'' (RMap [(KString ''kind'', RString ''ConfigMap''), (KString ''data'', RNil)])"
  let ?b = "doc ''b1'' (RMap [(KString ''data'', RNil), (KString ''kind'', RString ''ConfigMap'')])"
  have "?a \<in> set sampleA" "?b \<in> set sampleB" by (simp_all add: sampleA_def sampleB_def)
  moreover have "d_status (performDiff no_floats default_options (ry_raw ?a) (ry_raw ?b) 0) = DiffStatusSame"
    by code_simp
  ultimately show ?thesis
    using identical_documents_paired [OF sample_ids, of ?a ?b no_floats default_options] by (simp add: doc_def)
qed

lemma load_all_result:
  "case load_all unmarshal fresh n ys results of
     Inl err \<Rightarrow> \<exists>y e. y \<in> set ys \<and> unmarshal y = Inl e \<and> err = Wrapf ''yamldiff: failed to unmarshal yaml'' e
   | Inr docs \<Rightarrow> \<exists>new. docs = results @ new \<and> map (\<lambda>d. Inr (ry_raw d)) new = map unmarshal ys \<and>
       map ry_id new = map fresh [n..<n + length ys]"
proof (induction ys arbitrary: n results)
  case (Cons y ys)
  show ?case
  proof (cases "unmarshal y")
    case (Inl e)
    then show ?thesis by auto
  next
    case (Inr v)
    let ?d = "\<lparr>ry_raw = v, ry_id = fresh n\<rparr>"
    show ?thesis
    proof (cases "load_all unmarshal fresh (n + 1) ys (results @ [?d])")
      case (Inl err)
      with Cons.IH [where n = "n + 1" and results = "results @ [?d]"] Inr show ?thesis by auto
    next
      case (Inr docs)
      with Cons.IH [where n = "n + 1" and results = "results @ [?d]"] obtain new where "docs = results @ ?d # new"
        "map (\<lambda>d. Inr (ry_raw d)) new = map unmarshal ys" "map ry_id new = map fresh [Suc n..<Suc n + length ys]"
        by auto
      moreover have "[n..<n + length (y # ys)] = n # [Suc n..<Suc n + length ys]"
        by (simp add: upt_conv_Cons del: upt_Suc)
      ultimately have "docs = results @ (?d # new) \<and> map (\<lambda>d. Inr (ry_raw d)) (?d # new) = map unmarshal (y # ys) \<and>
          map ry_id (?d # new) = map fresh [n..<n + length (y # ys)]"
        using \<open>unmarshal y = Inr v\<close> by (simp del: upt_Suc)
      then show ?thesis using Inr \<open>unmarshal y = Inr v\<close> by auto
    qed
  qed
qed simp


end
