(* ===== verification/Yaml_Print.thy ===== *)
theory Yaml_Print
  imports Yaml_Select
begin

text \<open>
  Printing a difference (pkg/yamldiff/printer.go) and the entry point of the package
  (pkg/yamldiff/main.go). A function that writes to a \<open>strings.Builder\<close> returns the text it writes.

  A map entry is printed by \<open>dumpMapItem\<close> on its value: the code passes the entry itself, which the third
  test of the function unwraps. \<open>dumpPrimitive\<close> is never given a map or a list.
\<close>

section \<open>Values\<close>

abbreviation nl :: char where
  "nl \<equiv> CHR 0x0A"

definition indent :: "nat \<Rightarrow> string" where
  "indent level = concat (replicate level ''  '')"

text \<open>\<open>%f\<close>: six digits after the point, rounded to even.\<close>

definition round_half_even :: "rat \<Rightarrow> int" where
  "round_half_even r =
     (let q = \<lfloor>r\<rfloor>; rest = r - of_int q in
      if rest > 1/2 \<or> rest = 1/2 \<and> odd q then q + 1 else q)"

definition format_f :: "rat \<Rightarrow> string" where
  "format_f r =
     (let n = round_half_even (\<bar>r\<bar> * 1000000); frac = go_itoa (n mod 1000000) in
      (if r < 0 then ''-'' else []) @ go_itoa (n div 1000000) @ ''.'' @
      replicate (6 - length frac) (CHR ''0'') @ frac)"

definition dump_line :: "string \<Rightarrow> nat \<Rightarrow> string \<Rightarrow> string" where
  "dump_line diffPrefix level text = diffPrefix @ '' '' @ indent level @ text @ [nl]"

fun dumpPrimitive :: "string \<Rightarrow> nat \<Rightarrow> string \<Rightarrow> raw \<Rightarrow> string" where
  "dumpPrimitive diffPrefix level something RNil = dump_line diffPrefix level something"
| "dumpPrimitive diffPrefix level something RMissing = dump_line diffPrefix level something"
| "dumpPrimitive diffPrefix level something (RInt i) =
     dump_line diffPrefix level (something @ go_itoa (sint i))"
| "dumpPrimitive diffPrefix level something (RUint u) =
     dump_line diffPrefix level (something @ go_itoa (uint u))"
| "dumpPrimitive diffPrefix level something (RFloat r) =
     dump_line diffPrefix level (something @ format_f r)"
| "dumpPrimitive diffPrefix level something (RString s) =
     dump_line diffPrefix level (something @ [CHR 0x22] @ s @ [CHR 0x22])"
| "dumpPrimitive diffPrefix level something (RBool b) =
     dump_line diffPrefix level (something @ sprint_bool b)"
| "dumpPrimitive diffPrefix level something _ = []"

definition entry_key :: "rkey \<Rightarrow> string" where
  "entry_key k = (case k of KString s \<Rightarrow> s | KOther t \<Rightarrow> [])"

function (sequential) dumpData :: "string \<Rightarrow> nat \<Rightarrow> raw \<Rightarrow> string"
  and dumpArrayItem :: "string \<Rightarrow> nat \<Rightarrow> raw \<Rightarrow> string"
  and dumpMapItem :: "string \<Rightarrow> nat \<Rightarrow> string \<Rightarrow> raw \<Rightarrow> string" where
  "dumpData diffPrefix level (RMap m) =
     concat (map (\<lambda>(k, v). dumpMapItem diffPrefix level (entry_key k) v) m)"
| "dumpData diffPrefix level (RArr vs) = concat (map (\<lambda>v. dumpArrayItem diffPrefix level v) vs)"
| "dumpData diffPrefix level v = dumpPrimitive diffPrefix level [] v"
| "dumpArrayItem diffPrefix level (RMap m) =
     dump_line diffPrefix level ''-'' @ dumpData diffPrefix (level + 1) (RMap m)"
| "dumpArrayItem diffPrefix level (RArr vs) =
     dump_line diffPrefix level ''-'' @ dumpData diffPrefix (level + 1) (RArr vs)"
| "dumpArrayItem diffPrefix level v = dumpPrimitive diffPrefix level ''- '' v"
| "dumpMapItem diffPrefix level k (RMap m) =
     dump_line diffPrefix level (k @ '':'') @ dumpData diffPrefix (level + 1) (RMap m)"
| "dumpMapItem diffPrefix level k (RArr vs) =
     dump_line diffPrefix level (k @ '':'') @ dumpData diffPrefix (level + 1) (RArr vs)"
| "dumpMapItem diffPrefix level k v =
     (if v = RNil then dumpPrimitive diffPrefix level (k @ '':'') v
      else dumpPrimitive diffPrefix level (k @ '': '') v)"
  by pat_completeness auto
termination
  by (relation "measure (\<lambda>x. case x of Inl (p, l, v) \<Rightarrow> 2 * size v
        | Inr (Inl (p, l, v)) \<Rightarrow> Suc (2 * size v) | Inr (Inr (p, l, k, v)) \<Rightarrow> Suc (2 * size v))")
    (auto dest: size_entry size_element)

section \<open>Differences\<close>

definition dump_leaf :: "raw \<Rightarrow> raw \<Rightarrow> DiffStatus \<Rightarrow> nat \<Rightarrow> string" where
  "dump_leaf a b status level =
     (case status of
        DiffStatusSame \<Rightarrow> dumpData '' '' level a
      | DiffStatusDiff \<Rightarrow>
          (if a \<noteq> RNil then dumpData ''-'' level a else []) @ (if b \<noteq> RNil then dumpData ''+'' level b else [])
      | DiffStatus1Missing \<Rightarrow> dumpData ''+'' level b
      | DiffStatus2Missing \<Rightarrow> dumpData ''-'' level a)"

text \<open>One round of the loops of \<open>dumpTryArray\<close> and \<open>dumpTryMap\<close>: the child \<open>v\<close> and its own \<open>dump\<close>.\<close>

definition dump_array_child :: "nat \<Rightarrow> diff \<times> (nat \<Rightarrow> string) \<Rightarrow> string" where
  "dump_array_child level vf =
     (case vf of (v, dump_v) \<Rightarrow>
        if d_children v \<noteq> NoChildren then ''  '' @ indent level @ ''-'' @ [nl] @ dump_v (level + 1)
        else (case d_status v of
            DiffStatusSame \<Rightarrow> dumpArrayItem '' '' level (d_a v)
          | DiffStatusDiff \<Rightarrow> dumpArrayItem ''-'' level (d_a v) @ dumpArrayItem ''+'' level (d_b v)
          | DiffStatus1Missing \<Rightarrow> dumpArrayItem ''+'' level (d_b v)
          | DiffStatus2Missing \<Rightarrow> dumpArrayItem ''-'' level (d_a v)))"

definition dump_map_child :: "nat \<Rightarrow> string \<times> diff \<times> (nat \<Rightarrow> string) \<Rightarrow> string" where
  "dump_map_child level kvf =
     (case kvf of (k, v, dump_v) \<Rightarrow>
        if d_children v \<noteq> NoChildren then ''  '' @ indent level @ k @ '':'' @ [nl] @ dump_v (level + 1)
        else (case d_status v of
            DiffStatusSame \<Rightarrow> dumpMapItem '' '' level k (d_a v)
          | DiffStatusDiff \<Rightarrow> dumpMapItem ''-'' level k (d_a v) @ dumpMapItem ''+'' level k (d_b v)
          | DiffStatus1Missing \<Rightarrow> dumpMapItem ''+'' level k (d_b v)
          | DiffStatus2Missing \<Rightarrow> dumpMapItem ''-'' level k (d_a v)))"

text \<open>\<open>appendSorted\<close>: the children in the order of the entries of a map.\<close>

fun append_sorted ::
  "(string, 'v) fmap \<Rightarrow> (rkey \<times> raw) list \<Rightarrow> (string \<times> 'v) list \<times> string set \<Rightarrow> (string \<times> 'v) list \<times> string set" where
  "append_sorted m [] st = st"
| "append_sorted m ((KString k, w) # rest) (done_so, checked) =
     (case fmlookup m k of
        Some v \<Rightarrow>
          if k \<in> checked then append_sorted m rest (done_so, checked)
          else append_sorted m rest (done_so @ [(k, v)], insert k checked)
      | None \<Rightarrow> append_sorted m rest (done_so, checked))"
| "append_sorted m ((KOther t, w) # rest) st = append_sorted m rest st"

text \<open>The last loop ranges over the children that are left: at most the slot of the keys that are not
  strings, so its order does not matter.\<close>

definition child_order :: "raw \<Rightarrow> raw \<Rightarrow> (string, 'v) fmap \<Rightarrow> (string \<times> 'v) list" where
  "child_order a b m =
     (let st = (case tryMap a of None \<Rightarrow> ([], {}) | Some entries \<Rightarrow> append_sorted m entries ([], {}));
          (done_so, checked) = (case tryMap b of None \<Rightarrow> st | Some entries \<Rightarrow> append_sorted m entries st)
      in done_so @ filter (\<lambda>(k, v). k \<notin> checked) (sorted_list_of_fmap m))"

primrec dump :: "diff \<Rightarrow> nat \<Rightarrow> string" and dump_children :: "children \<Rightarrow> raw \<Rightarrow> raw \<Rightarrow> nat \<Rightarrow> string" where
  "dump (Diff a b children status diffCount treeLevel) =
     (\<lambda>level. if children \<noteq> NoChildren then dump_children children a b level
       else dump_leaf a b status level)"
| "dump_children NoChildren = (\<lambda>a b level. [])"
| "dump_children (ArrChildren ds) =
     (\<lambda>a b level. concat (map (dump_array_child level) (map (\<lambda>v. (v, dump v)) ds)))"
| "dump_children (MapChildren m) =
     (\<lambda>a b level. concat (map (dump_map_child level) (child_order a b (fmmap (\<lambda>v. (v, dump v)) m))))"

definition Dump :: "diff \<Rightarrow> string" where
  "Dump d = dump d (d_level d)"

section \<open>The entry point\<close>

definition colorize_line :: "string \<Rightarrow> string" where
  "colorize_line line =
     (if take 1 line = ''-'' then [CHR 0x1B] @ ''[31m'' @ line @ [CHR 0x1B] @ ''[0m''
      else if take 1 line = ''+'' then [CHR 0x1B] @ ''[32m'' @ line @ [CHR 0x1B] @ ''[0m''
      else line)"

definition colorizeDiff :: "string \<Rightarrow> string" where
  "colorizeDiff text = join [nl] (map colorize_line (split [nl] text))"

text \<open>The result and what is written to the standard error; \<open>shown\<close> is the format \<open>%+v\<close> of an error.\<close>

definition Diff_text ::
  "(string \<Rightarrow> go_error + raw) \<Rightarrow> ((yaml_diff \<Rightarrow> yaml_diff \<Rightarrow> bool) \<Rightarrow> yaml_diff list \<Rightarrow> yaml_diff list) \<Rightarrow>
   (rat \<Rightarrow> string) \<Rightarrow> (nat \<Rightarrow> string) \<Rightarrow> nat \<Rightarrow> (go_error \<Rightarrow> string) \<Rightarrow> string \<Rightarrow> string \<Rightarrow> string \<times> string" where
  "Diff_text unmarshal srt fl fresh n shown desired current =
     (case Load unmarshal fresh n desired of
        Inl err \<Rightarrow> ([], shown err)
      | Inr yamlsA \<Rightarrow>
          (case Load unmarshal fresh (n + length yamlsA) current of
             Inl err \<Rightarrow> ([], shown err)
           | Inr yamlsB \<Rightarrow>
               (join [nl, nl] (map (\<lambda>d. colorizeDiff (Dump (yd_d d)))
                  (Do srt fl fresh (n + length yamlsA + length yamlsB) (make_options []) yamlsA yamlsB)), [])))"

end
