(* ===== verification/Yaml_Print_Laws.thy ===== *)
theory Yaml_Print_Laws
  imports Yaml_Print
begin

text \<open>
  What a reader of a printed difference may rely on. Two values that compare as the same print as the
  first of them; dropping the added lines of a report gives back the desired value; and colouring adds
  escape codes to the marked lines and changes nothing else. The last section holds the two cases in
  which a printed report misleads.
\<close>

section \<open>Lines\<close>

abbreviation one_line :: "string \<Rightarrow> bool" where
  "one_line s \<equiv> nl \<notin> set s"

definition unlines :: "string list \<Rightarrow> string" where
  "unlines ls = concat (map (\<lambda>l. l @ [nl]) ls)"

lemma unlines_simps [simp]:
  "unlines [] = []" "unlines (l # ls) = l @ nl # unlines ls" "unlines (ks @ ls) = unlines ks @ unlines ls"
  by (simp_all add: unlines_def)

lemma cut_one_line: "one_line l \<Longrightarrow> cut [nl] l = None"
  by (induction l) (subst cut.simps; simp)+

lemma cut_line: "one_line l \<Longrightarrow> cut [nl] (l @ nl # s) = Some (l, s)"
  by (induction l) (subst cut.simps; simp)+

lemma split_one_line: "one_line l \<Longrightarrow> split [nl] l = [l]"
  by (subst split.simps) (simp add: cut_one_line)

lemma split_line: "one_line l \<Longrightarrow> split [nl] (l @ nl # s) = l # split [nl] s"
  by (subst split.simps) (simp add: cut_line)

lemma split_unlines: "\<forall>l \<in> set ls. one_line l \<Longrightarrow> split [nl] (unlines ls) = ls @ [[]]"
  by (induction ls) (simp_all add: split_line split_one_line)

lemma split_join: "ls \<noteq> [] \<Longrightarrow> \<forall>l \<in> set ls. one_line l \<Longrightarrow> split [nl] (join [nl] ls) = ls"
proof (induction "[nl]" ls rule: join.induct)
  case (3 s t ss)
  then show ?case by (simp add: split_line)
qed (simp_all add: split_one_line)

lemma join_unlines: "join [nl] (ls @ [[]]) = unlines ls"
proof (induction ls)
  case (Cons l ls)
  then show ?case by (cases ls) simp_all
qed simp

lemma cut_none: "cut [nl] s = None \<Longrightarrow> one_line s"
  by (induction s) (subst (asm) cut.simps; auto split: option.splits if_splits)+

lemma cut_head: "cut [nl] s = Some (a, b) \<Longrightarrow> one_line a"
  by (induction s arbitrary: a) (subst (asm) cut.simps; auto split: option.splits if_splits)+

lemma split_lines: "\<forall>l \<in> set (split [nl] s). one_line l"
proof (induction "[nl]" s rule: split.induct)
  case (1 s)
  show ?case
  proof (cases "cut [nl] s")
    case None
    then show ?thesis by (subst split.simps) (simp add: cut_none)
  next
    case (Some p)
    then obtain a b where ab: "cut [nl] s = Some (a, b)" by (cases p) auto
    with 1 [of "(a, b)" a b] show ?thesis by (subst split.simps) (simp add: cut_head)
  qed
qed

section \<open>Colours\<close>

lemma colorize_line_one_line: "one_line l \<Longrightarrow> one_line (colorize_line l)"
  by (simp add: colorize_line_def)

text \<open>Colouring works line by line: the lines of the coloured text are the coloured lines of the text.\<close>

theorem colorize_lines: "split [nl] (colorizeDiff text) = map colorize_line (split [nl] text)"
  unfolding colorizeDiff_def
  by (rule split_join) (use split_lines colorize_line_one_line in auto)

section \<open>Printed values\<close>

text \<open>\<open>printed p text text'\<close>: \<open>text\<close> is a sequence of lines marked with \<open>p\<close>, and \<open>text'\<close> is the same
  sequence marked with a space.\<close>

definition printed :: "char \<Rightarrow> string \<Rightarrow> string \<Rightarrow> bool" where
  "printed p text text' \<longleftrightarrow> (\<exists>ls. (\<forall>l \<in> set ls. one_line l) \<and>
     text = unlines (map (Cons p) ls) \<and> text' = unlines (map (Cons (CHR '' '')) ls))"

lemma printed_Nil: "printed p [] []"
  unfolding printed_def by (rule exI [of _ "[]"]) simp

lemma printed_append: "printed p s s' \<Longrightarrow> printed p t t' \<Longrightarrow> printed p (s @ t) (s' @ t')"
  unfolding printed_def
proof (elim exE conjE)
  fix ks ls
  assume "\<forall>l \<in> set ks. one_line l" "\<forall>l \<in> set ls. one_line l"
    and "s = unlines (map (Cons p) ks)" "s' = unlines (map (Cons (CHR '' '')) ks)"
    and "t = unlines (map (Cons p) ls)" "t' = unlines (map (Cons (CHR '' '')) ls)"
  then show "\<exists>ls. (\<forall>l \<in> set ls. one_line l) \<and> s @ t = unlines (map (Cons p) ls) \<and>
      s' @ t' = unlines (map (Cons (CHR '' '')) ls)"
    by (intro exI [of _ "ks @ ls"]) auto
qed

lemma printed_concat:
  "(\<And>x. x \<in> set xs \<Longrightarrow> printed p (f x) (g x)) \<Longrightarrow> printed p (concat (map f xs)) (concat (map g xs))"
  by (induction xs) (auto intro: printed_append printed_Nil)

lemma one_line_indent: "one_line (indent level)"
  by (auto simp: indent_def)

lemma printed_line: "one_line text \<Longrightarrow> printed p (dump_line [p] level text) (dump_line '' '' level text)"
  unfolding printed_def
  by (rule exI [of _ "['' '' @ indent level @ text]"]) (simp add: dump_line_def one_line_indent)

lemma digit_no_newline: "n < 10 \<Longrightarrow> nl \<noteq> char_of (48 + n :: nat)"
proof
  assume "n < 10" "nl = char_of (48 + n)"
  then have "of_char nl = (48 + n) mod (256 :: nat)" by (simp only: of_char_of)
  with \<open>n < 10\<close> show False by simp
qed

lemma one_line_digits: "one_line (dec_digits n)"
  by (induction n rule: dec_digits.induct) (subst dec_digits.simps; simp add: digit_no_newline)

lemma one_line_itoa: "one_line (go_itoa i)"
  by (simp add: go_itoa_def one_line_digits)

lemma one_line_format_f: "one_line (format_f r)"
  by (auto simp: format_f_def Let_def one_line_itoa)

text \<open>Values whose strings and keys are on one line each.\<close>

fun flat_key :: "rkey \<Rightarrow> bool" where
  "flat_key (KString s) = one_line s"
| "flat_key (KOther t) = True"

fun flat :: "raw \<Rightarrow> bool" where
  "flat (RString s) = one_line s"
| "flat (RMap m) = (\<forall>(k, v) \<in> set m. flat_key k \<and> flat v)"
| "flat (RArr vs) = (\<forall>v \<in> set vs. flat v)"
| "flat _ = True"

lemma one_line_entry_key: "flat_key k \<Longrightarrow> one_line (entry_key k)"
  by (cases k) (simp_all add: entry_key_def)

lemma printed_primitive:
  "one_line something \<Longrightarrow> flat v \<Longrightarrow>
   printed p (dumpPrimitive [p] level something v) (dumpPrimitive '' '' level something v)"
  by (cases v) (auto intro!: printed_line printed_Nil simp: one_line_itoa one_line_format_f sprint_bool_def)

lemma printed_data:
  "flat v \<Longrightarrow> printed p (dumpData [p] level v) (dumpData '' '' level v)"
  "flat v \<Longrightarrow> printed p (dumpArrayItem [p] level v) (dumpArrayItem '' '' level v)"
  "flat v \<Longrightarrow> one_line k \<Longrightarrow> printed p (dumpMapItem [p] level k v) (dumpMapItem '' '' level k v)"
proof (induction "[p]" level v and "[p]" level v and "[p]" level k v
    rule: dumpData_dumpArrayItem_dumpMapItem.induct)
  case (1 level m)
  then show ?case by (auto intro!: printed_concat simp: one_line_entry_key)
qed (auto intro!: printed_concat printed_append printed_line printed_primitive
    simp: one_line_itoa one_line_format_f sprint_bool_def)

section \<open>Reading a report\<close>

text \<open>The lines of a text without those marked with \<open>mark\<close>, the other mark erased.\<close>

definition erase_mark :: "string \<Rightarrow> string" where
  "erase_mark line = (if line = [] then [] else CHR '' '' # tl line)"

definition without :: "char \<Rightarrow> string list \<Rightarrow> string list" where
  "without mark ls = map erase_mark (filter (\<lambda>l. take 1 l \<noteq> [mark]) ls)"

definition side_of :: "char \<Rightarrow> string \<Rightarrow> string" where
  "side_of mark text = join [nl] (without mark (split [nl] text))"

definition reads :: "char \<Rightarrow> string \<Rightarrow> string \<Rightarrow> bool" where
  "reads mark text side \<longleftrightarrow>
     (\<exists>ls. (\<forall>l \<in> set ls. one_line l) \<and> text = unlines ls \<and> side = unlines (without mark ls))"

lemma without_simps [simp]:
  "without mark [] = []" "without mark (ks @ ls) = without mark ks @ without mark ls"
  by (simp_all add: without_def)

lemma without_marked [simp]:
  "without mark (map (Cons p) ls) = (if p = mark then [] else map (Cons (CHR '' '')) ls)"
  by (induction ls) (simp_all add: without_def erase_mark_def)

lemma reads_side: "reads mark text side \<Longrightarrow> side_of mark text = side"
  unfolding reads_def side_of_def
  by (auto simp: split_unlines without_def erase_mark_def join_unlines simp flip: unlines_def)

lemma reads_append: "reads mark s s' \<Longrightarrow> reads mark t t' \<Longrightarrow> reads mark (s @ t) (s' @ t')"
  unfolding reads_def
proof (elim exE conjE)
  fix ks ls
  assume "\<forall>l \<in> set ks. one_line l" "\<forall>l \<in> set ls. one_line l" "s = unlines ks" "t = unlines ls"
    "s' = unlines (without mark ks)" "t' = unlines (without mark ls)"
  then show "\<exists>ls. (\<forall>l \<in> set ls. one_line l) \<and> s @ t = unlines ls \<and> s' @ t' = unlines (without mark ls)"
    by (intro exI [of _ "ks @ ls"]) auto
qed

lemma reads_Nil [simp]: "reads mark [] []"
  unfolding reads_def by (rule exI [of _ "[]"]) simp

lemma reads_concat:
  "(\<And>x. x \<in> set xs \<Longrightarrow> reads mark (f x) (g x)) \<Longrightarrow> reads mark (concat (map f xs)) (concat (map g xs))"
  by (induction xs) (auto intro: reads_append)

lemma reads_nothing: "(\<And>x. x \<in> set xs \<Longrightarrow> reads mark (f x) []) \<Longrightarrow> reads mark (concat (map f xs)) []"
  using reads_append by (induction xs) fastforce+

lemma reads_printed:
  assumes "printed p text text'" "p \<noteq> nl"
  shows "reads mark text (if p = mark then [] else text')"
  using assms unfolding printed_def reads_def
proof (elim exE conjE)
  fix ls assume "\<forall>l \<in> set ls. one_line l" "text = unlines (map (Cons p) ls)"
    "text' = unlines (map (Cons (CHR '' '')) ls)"
  with assms(2) show "\<exists>ls. (\<forall>l \<in> set ls. one_line l) \<and> text = unlines ls \<and>
      (if p = mark then [] else text') = unlines (without mark ls)"
    by (intro exI [of _ "map (Cons p) ls"]) auto
qed

section \<open>The children of a map\<close>

lemma child_of:
  assumes "distinct (keys mapA)" "(k, v) \<in> set mapA"
  shows "fmlookup (store_children (map_pairs f mapA mapB level)) (key_string k) =
    Some (case find_value (key_string k) mapB of Some w \<Rightarrow> f v w (level + 1) | None \<Rightarrow> f v RMissing (level + 1))"
proof -
  let ?m = "store_children (map_pairs f mapA mapB level)"
  have "key_string k \<in> fst ` set (map_pairs f mapA mapB level)"
    using map_pairs_A [OF assms(2)] by (metis fst_conv imageI)
  then obtain d where d: "fmlookup ?m (key_string k) = Some d"
    by (metis store_children_dom fmlookup_dom_iff)
  from store_children_in [OF d] show ?thesis
  proof (cases rule: map_pairs_cases)
    case (both k' v' w)
    with assms have "v' = v" by (metis find_value_distinct option.inject)
    with d both show ?thesis by simp
  next
    case (onlyA k' v')
    with assms have "v' = v" by (metis find_value_distinct option.inject)
    with d onlyA show ?thesis by simp
  next
    case (onlyB k' w)
    with assms show ?thesis by (metis find_value_distinct option.distinct(1))
  qed
qed

lemma child_added:
  assumes "fmlookup (store_children (map_pairs f mapA mapB level)) key = Some d" "key \<notin> set (keys mapA)"
  shows "\<exists>k w. (k, w) \<in> set mapB \<and> key = key_string k \<and> d = f RMissing w (level + 1)"
  using store_children_in [OF assms(1)]
proof (cases rule: map_pairs_cases)
  case (both k v w)
  with assms(2) show ?thesis by force
next
  case (onlyA k v)
  with assms(2) show ?thesis by force
qed blast

text \<open>The keys of a map are distinct strings, as in a decoded document of Kubernetes.\<close>

definition string_keys :: "(rkey \<times> raw) list \<Rightarrow> bool" where
  "string_keys m \<longleftrightarrow> distinct (keys m) \<and> (\<forall>(k, v) \<in> set m. case k of KString s \<Rightarrow> True | KOther t \<Rightarrow> False)"

lemma string_keys_iff: "string_keys m \<longleftrightarrow> distinct (keys m) \<and> (\<forall>(k, v) \<in> set m. \<exists>s. k = KString s)"
  by (fastforce simp: string_keys_def split: rkey.splits)

lemma append_sorted_new:
  "append_sorted m entries (acc, checked) = (acc', checked') \<Longrightarrow>
   \<exists>rest. acc' = acc @ rest \<and> checked \<subseteq> checked' \<and> (\<forall>(k, v) \<in> set rest. k \<notin> checked \<and> fmlookup m k = Some v)"
proof (induction m entries "(acc, checked)" arbitrary: acc checked rule: append_sorted.induct)
  case (2 m k w rest acc checked)
  show ?case
  proof (cases "fmlookup m k")
    case None
    with 2 show ?thesis by simp
  next
    case (Some v)
    show ?thesis
    proof (cases "k \<in> checked")
      case True
      with 2(2) [OF Some True] 2(4) Some show ?thesis by simp
    next
      case False
      with 2(3) [OF Some False] 2(4) Some show ?thesis by fastforce
    qed
  qed
qed auto

lemma append_sorted_front:
  assumes "string_keys entries" "\<forall>(k, v) \<in> set entries. fmlookup m (key_string k) = Some (f (k, v))"
    "set (keys entries) \<inter> checked = {}"
  shows "append_sorted m entries (acc, checked) =
    (acc @ map (\<lambda>(k, v). (key_string k, f (k, v))) entries, checked \<union> set (keys entries))"
  using assms
proof (induction entries arbitrary: acc checked)
  case (Cons e entries)
  obtain s v where e: "e = (KString s, v)" using Cons.prems(1) by (cases e) (auto simp: string_keys_iff)
  have "string_keys entries" "set (keys entries) \<inter> insert s checked = {}"
    using Cons.prems(1,3) e by (auto simp: string_keys_iff key_string_def)
  with Cons e show ?case by (simp add: key_string_def string_keys_iff)
qed simp

lemma child_order_front:
  assumes "string_keys mapA" "\<forall>(k, v) \<in> set mapA. fmlookup m (key_string k) = Some (f (k, v))"
  shows "\<exists>rest. child_order (RMap mapA) (RMap mapB) m = map (\<lambda>(k, v). (key_string k, f (k, v))) mapA @ rest \<and>
    (\<forall>(k, v) \<in> set rest. k \<notin> set (keys mapA) \<and> fmlookup m k = Some v)"
proof -
  let ?front = "map (\<lambda>(k, v). (key_string k, f (k, v))) mapA"
  obtain acc checked where "append_sorted m mapB (?front, set (keys mapA)) = (acc, checked)"
    by (cases "append_sorted m mapB (?front, set (keys mapA))") auto
  moreover from append_sorted_new [OF this] obtain rest where
    "acc = ?front @ rest" "set (keys mapA) \<subseteq> checked"
    "\<forall>(k, v) \<in> set rest. k \<notin> set (keys mapA) \<and> fmlookup m k = Some v" by blast
  moreover have "\<forall>(k, v) \<in> set (filter (\<lambda>(k, v). k \<notin> checked) (sorted_list_of_fmap m)).
      k \<notin> checked \<and> fmlookup m k = Some v"
    by (auto simp: sorted_list_of_fmap_def fmlookup_dom_iff)
  ultimately show ?thesis
    using append_sorted_front [OF assms, of "{}" "[]"]
    by (fastforce simp: child_order_def tryMap_def Let_def)
qed

section \<open>Values that are the same\<close>

fun keyed :: "raw \<Rightarrow> bool" where
  "keyed RMissing = False"
| "keyed (RMap m) = (string_keys m \<and> (\<forall>(k, v) \<in> set m. keyed v))"
| "keyed (RArr vs) = (\<forall>v \<in> set vs. keyed v)"
| "keyed _ = True"

lemma children_composite:
  assumes "d_children (performDiff fl opt a b level) \<noteq> NoChildren"
  shows "composite a"
proof (cases a b rule: diff_cases)
  case primitive
  with assms show ?thesis by (auto simp: handlePrimitive_def Let_def split: if_splits)
next
  case mixed
  then obtain n where "performDiff fl opt a b level = Diff a b NoChildren DiffStatusDiff n level" by blast
  with assms show ?thesis by simp
qed simp_all

lemma same_side:
  assumes "plain opt" "d_status (performDiff fl opt v w level) = DiffStatusSame"
  shows "d_a (performDiff fl opt v w level) = v"
  using assms missing_not_same performDiff_sides by metis

lemma composite_item:
  "composite v \<Longrightarrow> dumpMapItem p level k v = dump_line p level (k @ '':'') @ dumpData p (level + 1) v"
  "composite v \<Longrightarrow> dumpArrayItem p level v = dump_line p level ''-'' @ dumpData p (level + 1) v"
  by (cases v; simp)+

lemma same_item:
  assumes "plain opt" "d = performDiff fl opt v w l" "d_status d = DiffStatusSame"
    and "dump d (level + 1) = dumpData '' '' (level + 1) v"
  shows "dump_map_child level (k, d, dump d) = dumpMapItem '' '' level k v"
    and "dump_array_child level (d, dump d) = dumpArrayItem '' '' level v"
  using assms same_side [of opt fl v w l] children_composite [of fl opt v w l]
  by (auto simp: dump_map_child_def dump_array_child_def composite_item dump_line_def)

lemma dump_leaf_diff: "d_children d = NoChildren \<Longrightarrow> dump d level = dump_leaf (d_a d) (d_b d) (d_status d) level"
  by (cases d) simp

lemma match_loop_rows:
  assumes "\<forall>r < length rows. \<exists>j. first_same 0 (rows ! r) = Some (j, ds ! r)" "length ds = length rows"
  shows "fst (match_loop keyA rows children foundA foundB) = children @ ds"
  using assms
proof (induction rows arbitrary: keyA ds children foundA foundB)
  case (Cons row rows)
  then obtain d es where ds: "ds = d # es" by (cases ds) auto
  obtain j where "first_same 0 row = Some (j, d)" using Cons.prems(1) ds by fastforce
  moreover have "\<forall>r < length rows. \<exists>j. first_same 0 (rows ! r) = Some (j, es ! r)"
    using Cons.prems(1) ds by (metis Suc_less_eq length_Cons nth_Cons_Suc)
  ultimately show ?case using Cons.IH [of es] Cons.prems(2) ds by simp
qed simp

lemma array_same_children:
  assumes "array_diff a b matrix onlyA onlyB l = d" "d_status d = DiffStatusSame"
  shows "d_children d = ArrChildren (fst (match_loop 0 matrix [] {} {}))"
  using assms by (auto simp: array_diff_def Let_def split: prod.splits if_splits)

lemma same_dump:
  assumes "plain opt" "keyed a" "d_status (performDiff fl opt a b l) = DiffStatusSame"
  shows "dump (performDiff fl opt a b l) level = dumpData '' '' level a"
  using assms(2,3)
proof (induction "size a" arbitrary: a b l level rule: less_induct)
  case less
  show ?case
  proof (cases a b rule: diff_cases)
    case primitive
    then have "d_children (performDiff fl opt a b l) = NoChildren"
      by (simp add: handlePrimitive_def Let_def)
    with less.prems(2) same_side [OF assms(1) less.prems(2)] show ?thesis
      by (simp add: dump_leaf_diff dump_leaf_def)
  next
    case mixed
    then obtain n where "performDiff fl opt a b l = Diff a b NoChildren DiffStatusDiff n l" by blast
    with less.prems show ?thesis by simp
  next
    case (maps mapA mapB)
    let ?ps = "map_pairs (performDiff fl opt) mapA mapB l"
    let ?child = "\<lambda>(k, v). case find_value (key_string k) mapB of
        Some w \<Rightarrow> performDiff fl opt v w (l + 1) | None \<Rightarrow> performDiff fl opt v RMissing (l + 1)"
    have same: "d_status d = DiffStatusSame" if "(k, d) \<in> set ?ps" for k d
      using less.prems(2) that maps by (fastforce simp: performDiff_map Let_def split: if_splits)
    have keys: "string_keys mapA" "distinct (keys mapA)" using less.prems(1) maps by (auto simp: string_keys_iff)
    have child: "fmlookup (store_children ?ps) (key_string k) = Some (?child (k, v))" if "(k, v) \<in> set mapA" for k v
      using child_of [OF keys(2) that] by simp
    have item: "dump_map_child level (key_string k, ?child (k, v), dump (?child (k, v))) = dumpMapItem '' '' level (entry_key k) v"
      if kv: "(k, v) \<in> set mapA" for k v
    proof -
      have s: "d_status (?child (k, v)) = DiffStatusSame"
        using same [OF map_pairs_A [OF kv, where mapB = mapB and f = "performDiff fl opt" and level = l]] by simp
      then obtain w where w: "find_value (key_string k) mapB = Some w"
        using missing_not_same(1) [OF assms(1)] by (fastforce split: option.splits)
      have "keyed v" "size v < size a" using less.prems(1) kv size_entry [OF kv] maps by auto
      with less.hyps [of v w "l + 1" "level + 1"] s w
      have "dump (?child (k, v)) (level + 1) = dumpData '' '' (level + 1) v" by simp
      moreover have "key_string k = entry_key k"
        using keys(1) kv by (auto simp: string_keys_iff key_string_def entry_key_def)
      ultimately show ?thesis using same_item(1) [OF assms(1) _ s] w by simp
    qed
    have "\<forall>(k, v) \<in> set mapA. fmlookup (fmmap (\<lambda>v. (v, dump v)) (store_children ?ps)) (key_string k) =
        Some (?child (k, v), dump (?child (k, v)))"
      using child by (auto split: prod.splits)
    from child_order_front [OF keys(1), of _ "\<lambda>kv. (?child kv, dump (?child kv))", OF this, of mapB]
    obtain rest where
      order: "child_order a b (fmmap (\<lambda>v. (v, dump v)) (store_children ?ps)) =
        map (\<lambda>(k, v). (key_string k, ?child (k, v), dump (?child (k, v)))) mapA @ rest" and
      rest: "\<forall>(k, v) \<in> set rest. k \<notin> set (keys mapA) \<and>
        fmlookup (fmmap (\<lambda>v. (v, dump v)) (store_children ?ps)) k = Some v"
      unfolding maps by auto
    have "rest = []"
    proof (rule ccontr)
      assume "rest \<noteq> []"
      then obtain k v d where kd: "k \<notin> set (keys mapA)" "fmlookup (store_children ?ps) k = Some d"
        using rest by (cases rest) auto
      from child_added [OF kd(2,1)] same [OF store_children_in [OF kd(2)]] missing_not_same(2) [OF assms(1)]
      show False by metis
    qed
    with order item show ?thesis
      by (auto simp: maps performDiff_map Let_def o_def intro!: arg_cong [where f = concat] map_cong)
  next
    case (arrays arrayA arrayB)
    let ?m = "map (\<lambda>v. map (\<lambda>w. performDiff fl opt v w (l + 1)) arrayB) arrayA"
      and ?a = "map (\<lambda>v. performDiff fl opt v RNil (l + 1)) arrayA"
      and ?b = "map (\<lambda>w. performDiff fl opt RNil w (l + 1)) arrayB"
    define ds where "ds = map (\<lambda>r. snd (the (first_same 0 (?m ! r)))) [0..<length arrayA]"
    have run: "array_diff (RArr arrayA) (RArr arrayB) ?m ?a ?b l = performDiff fl opt a b l"
      by (simp only: arrays performDiff_array)
    have rows: "\<exists>j. first_same 0 (?m ! r) = Some (j, ds ! r)" if "r < length arrayA" for r
      using array_same(1) [OF run less.prems(2)] that by (fastforce simp: ds_def)
    have item: "dump_array_child level (ds ! r, dump (ds ! r)) = dumpArrayItem '' '' level (arrayA ! r)"
      if r: "r < length arrayA" for r
    proof -
      obtain j where j: "first_same 0 (?m ! r) = Some (j, ds ! r)" using rows [OF r] by blast
      with first_same_Some [OF this] r have d: "ds ! r = performDiff fl opt (arrayA ! r) (arrayB ! j) (l + 1)"
        and s: "d_status (ds ! r) = DiffStatusSame" by auto
      have "keyed (arrayA ! r)" "size (arrayA ! r) < size a"
        using less.prems(1) nth_mem [OF r] size_element [OF nth_mem [OF r]] arrays by auto
      with less.hyps [of "arrayA ! r" "arrayB ! j" "l + 1" "level + 1"] d s
      have "dump (ds ! r) (level + 1) = dumpData '' '' (level + 1) (arrayA ! r)" by simp
      then show ?thesis by (rule same_item(2) [OF assms(1) d s])
    qed
    have "fst (match_loop 0 ?m [] {} {}) = ds"
      using match_loop_rows [of ?m ds 0 "[]" "{}" "{}"] rows by (simp add: ds_def)
    then have "d_children (performDiff fl opt a b l) = ArrChildren ds"
      using array_same_children [OF run less.prems(2)] by simp
    moreover obtain x y cs s c n where D: "performDiff fl opt a b l = Diff x y cs s c n" by (cases "performDiff fl opt a b l") auto
    ultimately have "dump (performDiff fl opt a b l) level = concat (map (dump_array_child level) (map (\<lambda>v. (v, dump v)) ds))"
      by simp
    also have "map (dump_array_child level) (map (\<lambda>v. (v, dump v)) ds) = map (dumpArrayItem '' '' level) arrayA"
      using item by (intro nth_equalityI) (simp_all add: ds_def)
    finally show ?thesis by (simp add: arrays)
  qed
qed

section \<open>Values that differ\<close>

text \<open>A status does not depend on the level of the tree.\<close>

lemma first_same_status:
  "map d_status ds = map d_status es \<Longrightarrow> map_option fst (first_same n ds) = map_option fst (first_same n es)"
proof (induction ds arbitrary: es n)
  case (Cons d ds)
  then obtain e es' where "es = e # es'" by (cases es) auto
  with Cons show ?case by auto
qed simp

lemma match_loop_status:
  "map (map d_status) rows = map (map d_status) rows' \<Longrightarrow>
   snd (match_loop n rows children foundA foundB) = snd (match_loop n rows' children' foundA foundB)"
proof (induction rows arbitrary: rows' n children children' foundA foundB)
  case (Cons row rows)
  then obtain row' rest where r: "rows' = row' # rest" "map d_status row = map d_status row'"
      "map (map d_status) rows = map (map d_status) rest"
    by (cases rows') auto
  from first_same_status [OF r(2), of 0] Cons.IH [OF r(3)] show ?case
    by (auto simp: r(1) split: option.splits)
qed simp

lemma handlePrimitive_level:
  "d_status (handlePrimitive fl opt a b l) = d_status (handlePrimitive fl opt a b l')"
  by (simp add: handlePrimitive_def Let_def)

lemma status_level: "d_status (performDiff fl opt a b l) = d_status (performDiff fl opt a b l')"
proof (induction "size a + size b" arbitrary: a b l l' rule: less_induct)
  case less
  show ?case
  proof (cases a b rule: diff_cases)
    case primitive
    then show ?thesis by (simp add: handlePrimitive_def Let_def)
  next
    case mixed
    then show ?thesis by (metis diff.sel(4))
  next
    case (maps mapA mapB)
    have pair: "d_status (performDiff fl opt v w (Suc l)) = d_status (performDiff fl opt v w (Suc l'))"
      if "(k, v) \<in> set mapA" "find_value key mapB = Some w" for k v w key
      using less.hyps that size_entry [OF that(1)] find_value_size [OF that(2)] maps by simp
    have "d_status (performDiff fl opt v RMissing (Suc l)) = d_status (performDiff fl opt v RMissing (Suc l'))"
      "d_status (performDiff fl opt RMissing v (Suc l)) = d_status (performDiff fl opt RMissing v (Suc l'))" for v
      using handlePrimitive_level [of fl opt _ _ "Suc l" "Suc l'"] by (simp_all add: performDiff_primitive)
    with pair have "map (\<lambda>p. d_status (snd p)) (map_pairs (performDiff fl opt) mapA mapB l) =
        map (\<lambda>p. d_status (snd p)) (map_pairs (performDiff fl opt) mapA mapB l')"
      by (auto simp: map_pairs_def split: option.splits)
    from arg_cong [OF this, of "\<lambda>ss. \<exists>s \<in> set ss. s \<noteq> DiffStatusSame"] show ?thesis
      by (simp add: maps performDiff_map Let_def)
  next
    case (arrays arrayA arrayB)
    let ?m = "\<lambda>l. map (\<lambda>v. map (\<lambda>w. performDiff fl opt v w (Suc l)) arrayB) arrayA"
    have "d_status (performDiff fl opt v w (Suc l)) = d_status (performDiff fl opt v w (Suc l'))"
      if "v \<in> set arrayA" "w \<in> set arrayB" for v w
      using less.hyps size_element [OF that(1)] size_element [OF that(2)] arrays by simp
    then have "map (map d_status) (?m l) = map (map d_status) (?m l')" by simp
    from match_loop_status [OF this, of 0 "[]" "{}" "{}" "[]"] show ?thesis
      by (auto simp: arrays performDiff_array array_diff_def Let_def split: prod.splits)
  qed
qed

text \<open>Where both values have a list, the two lists compare as the same.\<close>

function lists_settled :: "(rat \<Rightarrow> string) \<Rightarrow> do_options \<Rightarrow> raw \<Rightarrow> raw \<Rightarrow> bool" where
  "lists_settled fl opt a b =
     (case (a, b) of
        (RMap mapA, RMap mapB) \<Rightarrow>
          (\<forall>(k, v) \<in> set mapA. lists_settled fl opt v
            (case find_value (key_string k) mapB of Some w \<Rightarrow> w | None \<Rightarrow> RMissing))
      | (RArr arrayA, RArr arrayB) \<Rightarrow> d_status (performDiff fl opt a b 0) = DiffStatusSame
      | _ \<Rightarrow> True)"
  by pat_completeness auto
termination
  by (relation "measure (\<lambda>(fl, opt, a, b). size a)") (auto dest: size_entry)

declare lists_settled.simps [simp del]

lemma lists_settled_map:
  "lists_settled fl opt (RMap mapA) (RMap mapB) \<Longrightarrow> (k, v) \<in> set mapA \<Longrightarrow>
   lists_settled fl opt v (case find_value (key_string k) mapB of Some w \<Rightarrow> w | None \<Rightarrow> RMissing)"
  by (subst (asm) lists_settled.simps) auto

lemma lists_settled_array:
  "lists_settled fl opt (RArr arrayA) (RArr arrayB) \<Longrightarrow>
   d_status (performDiff fl opt (RArr arrayA) (RArr arrayB) l) = DiffStatusSame"
  by (subst (asm) lists_settled.simps) (auto simp: status_level [where l = l and l' = 0])

lemma desired_side:
  assumes "plain opt" "a \<noteq> RMissing" "flat a" "flat b"
  shows "d_a (performDiff fl opt a b l) = a" "d_status (performDiff fl opt a b l) \<noteq> DiffStatus1Missing"
    and "flat (d_b (performDiff fl opt a b l))"
proof -
  let ?d = "performDiff fl opt a b l"
  have "d_a ?d = a \<and> d_status ?d \<noteq> DiffStatus1Missing \<and> flat (d_b ?d)"
  proof (cases a b rule: diff_cases)
    case primitive
    with assms show ?thesis by (simp add: handlePrimitive_def Let_def plain_def)
  next
    case mixed
    then obtain n where "?d = Diff a b NoChildren DiffStatusDiff n l" by blast
    with assms show ?thesis by simp
  next
    case maps
    with assms show ?thesis by (simp add: performDiff_map Let_def)
  next
    case arrays
    with assms show ?thesis by (simp add: performDiff_array array_diff_def Let_def split: prod.splits)
  qed
  then show "d_a ?d = a" "d_status ?d \<noteq> DiffStatus1Missing" "flat (d_b ?d)" by simp_all
qed

lemma reads_printed_item:
  "flat v \<Longrightarrow> one_line k \<Longrightarrow> p \<noteq> nl \<Longrightarrow>
   reads mark (dumpMapItem [p] level k v) (if p = mark then [] else dumpMapItem '' '' level k v)"
  "flat v \<Longrightarrow> p \<noteq> nl \<Longrightarrow> reads mark (dumpData [p] level v) (if p = mark then [] else dumpData '' '' level v)"
  by (rule reads_printed [OF printed_data(3)] reads_printed [OF printed_data(1)]; assumption)+

lemma reads_item:
  assumes "plain opt" "v \<noteq> RMissing" "flat v" "flat w" "one_line k" and d: "d = performDiff fl opt v w l"
    and rec: "d_children d \<noteq> NoChildren \<Longrightarrow> reads (CHR ''+'') (dump d (level + 1)) (dumpData '' '' (level + 1) v)"
  shows "reads (CHR ''+'') (dump_map_child level (k, d, dump d)) (dumpMapItem '' '' level k v)"
proof (cases "d_children d = NoChildren")
  case True
  note side = desired_side [OF assms(1-4), of fl l, folded d]
  note item = reads_printed_item(1) [OF _ \<open>one_line k\<close>, where mark = "CHR ''+''" and level = level]
  have "reads (CHR ''+'') (dumpMapItem '' '' level k v) (dumpMapItem '' '' level k v)"
    "reads (CHR ''+'') (dumpMapItem ''-'' level k v) (dumpMapItem '' '' level k v)"
    "reads (CHR ''+'') (dumpMapItem ''+'' level k (d_b d)) []"
    using item [OF \<open>flat v\<close>, of "CHR '' ''"] item [OF \<open>flat v\<close>, of "CHR ''-''"]
      item [OF side(3), of "CHR ''+''"] by simp_all
  with side(1,2) True show ?thesis
    using reads_append [of "CHR ''+''" "dumpMapItem ''-'' level k v" "dumpMapItem '' '' level k v" _ "[]"]
    by (cases "d_status d") (simp_all add: dump_map_child_def)
next
  case False
  then have "composite v" using children_composite d by blast
  moreover have "reads (CHR ''+'') (dump_line '' '' level (k @ '':'')) (dump_line '' '' level (k @ '':''))"
    using reads_printed [OF printed_line, of "k @ '':''" "CHR '' ''" "CHR ''+''" level] \<open>one_line k\<close> by simp
  ultimately have "reads (CHR ''+'') (dump_line '' '' level (k @ '':'') @ dump d (level + 1)) (dumpMapItem '' '' level k v)"
    using reads_append [OF _ rec [OF False]] by (simp only: composite_item)
  with False show ?thesis by (simp add: dump_map_child_def dump_line_def)
qed

text \<open>An entry that only the current value has.\<close>

lemma reads_added:
  assumes "plain opt" "flat w" "one_line k" and d: "d = performDiff fl opt RMissing w l"
  shows "reads (CHR ''+'') (dump_map_child level (k, d, dump d)) []"
  using reads_printed_item(1) [OF assms(2,3), of "CHR ''+''" "CHR ''+''" level] assms(1) d
  by (simp add: performDiff_primitive handlePrimitive_def Let_def plain_def dump_map_child_def)

lemma reads_desired:
  assumes "plain opt" "keyed a" "a \<noteq> RNil" "flat a" "flat b" "lists_settled fl opt a b"
  shows "reads (CHR ''+'') (dump (performDiff fl opt a b l) level) (dumpData '' '' level a)"
  using assms(2-6)
proof (induction "size a" arbitrary: a b l level rule: less_induct)
  case less
  let ?d = "performDiff fl opt a b l"
  have a: "a \<noteq> RMissing" using less.prems(1) by auto
  note side = desired_side [OF assms(1) a less.prems(3,4), of fl l]
  note print = reads_printed_item(2) [where mark = "CHR ''+''" and level = level]
  have leaf: ?case if "d_children ?d = NoChildren"
  proof -
    have "reads (CHR ''+'') (dumpData '' '' level a) (dumpData '' '' level a)"
      "reads (CHR ''+'') (dumpData ''-'' level a) (dumpData '' '' level a)"
      "reads (CHR ''+'') (dumpData ''+'' level (d_b ?d)) []"
      using print [OF less.prems(3), of "CHR '' ''"] print [OF less.prems(3), of "CHR ''-''"]
        print [OF side(3), of "CHR ''+''"] by simp_all
    with side(1,2) less.prems(2) that show ?thesis
      using reads_append [of "CHR ''+''" "dumpData ''-'' level a" "dumpData '' '' level a" _ "[]"]
      by (cases "d_status ?d") (simp_all add: dump_leaf_diff dump_leaf_def)
  qed
  show ?case
  proof (cases a b rule: diff_cases)
    case primitive
    then show ?thesis by (intro leaf) (simp add: handlePrimitive_def Let_def)
  next
    case mixed
    then obtain n where "?d = Diff a b NoChildren DiffStatusDiff n l" by blast
    then show ?thesis by (intro leaf) simp
  next
    case (arrays arrayA arrayB)
    then have "d_status ?d = DiffStatusSame" using lists_settled_array less.prems(5) by simp
    from same_dump [OF assms(1) less.prems(1) this, of level] print [OF less.prems(3), of "CHR '' ''"]
    show ?thesis by simp
  next
    case (maps mapA mapB)
    let ?ps = "map_pairs (performDiff fl opt) mapA mapB l"
    let ?partner = "\<lambda>k. case find_value (key_string k) mapB of Some w \<Rightarrow> w | None \<Rightarrow> RMissing"
    let ?child = "\<lambda>(k, v). performDiff fl opt v (?partner k) (l + 1)"
    have keys: "string_keys mapA" "distinct (keys mapA)" using less.prems(1) maps by (auto simp: string_keys_iff)
    have child: "fmlookup (store_children ?ps) (key_string k) = Some (?child (k, v))" if "(k, v) \<in> set mapA" for k v
      using child_of [OF keys(2) that] by (simp split: option.splits)
    have item: "reads (CHR ''+'') (dump_map_child level (key_string k, ?child (k, v), dump (?child (k, v))))
        (dumpMapItem '' '' level (entry_key k) v)" if kv: "(k, v) \<in> set mapA" for k v
    proof -
      have v: "keyed v" "flat v" "flat_key k" "size v < size a" "v \<noteq> RMissing"
        using less.prems(1,3) kv size_entry [OF kv] maps by auto
      have w: "flat (?partner k)"
        using less.prems(4) find_value_mem [of "key_string k" mapB] maps by (auto split: option.splits)
      have key: "key_string k = entry_key k" "one_line (entry_key k)"
        using keys(1) kv v(3) one_line_entry_key by (auto simp: string_keys_iff key_string_def entry_key_def)
      have "reads (CHR ''+'') (dump (?child (k, v)) (level + 1)) (dumpData '' '' (level + 1) v)"
        if "d_children (?child (k, v)) \<noteq> NoChildren"
        using children_composite that less.hyps [OF v(4,1) _ v(2) w] lists_settled_map [OF less.prems(5) [unfolded maps] kv]
        by fastforce
      then show ?thesis using reads_item [OF assms(1) v(5,2) w key(2)] by (simp add: key(1))
    qed
    have "\<forall>(k, v) \<in> set mapA. fmlookup (fmmap (\<lambda>v. (v, dump v)) (store_children ?ps)) (key_string k) =
        Some (?child (k, v), dump (?child (k, v)))"
      using child by (auto split: prod.splits)
    from child_order_front [OF keys(1), of _ "\<lambda>kv. (?child kv, dump (?child kv))", OF this, of mapB]
    obtain rest where
      order: "child_order a b (fmmap (\<lambda>v. (v, dump v)) (store_children ?ps)) =
        map (\<lambda>(k, v). (key_string k, ?child (k, v), dump (?child (k, v)))) mapA @ rest" and
      rest: "\<forall>(k, v) \<in> set rest. k \<notin> set (keys mapA) \<and>
        fmlookup (fmmap (\<lambda>v. (v, dump v)) (store_children ?ps)) k = Some v"
      unfolding maps by auto
    have added: "reads (CHR ''+'') (dump_map_child level x) []" if "x \<in> set rest" for x
    proof -
      obtain key d f where x: "x = (key, d, f)" by (cases x)
      with rest that have f: "f = dump d" and kd: "key \<notin> set (keys mapA)" "fmlookup (store_children ?ps) key = Some d"
        by auto
      from child_added [OF kd(2,1)] obtain k w where kw: "(k, w) \<in> set mapB" "key = key_string k"
        and d: "d = performDiff fl opt RMissing w (l + 1)" by blast
      have "flat w" "flat_key k" using less.prems(4) kw(1) maps by auto
      then show ?thesis
        using reads_added [OF assms(1) _ _ d] kw(2) by (cases k) (auto simp: x f key_string_def fakeForMissingKey_def)
    qed
    let ?front = "map (\<lambda>(k, v). (key_string k, ?child (k, v), dump (?child (k, v)))) mapA"
    have "reads (CHR ''+'') (concat (map (dump_map_child level) ?front)) (dumpData '' '' level a)"
      using reads_concat [of mapA "CHR ''+''" "\<lambda>(k, v). dump_map_child level (key_string k, ?child (k, v), dump (?child (k, v)))"
          "\<lambda>(k, v). dumpMapItem '' '' level (entry_key k) v"] item
      by (auto simp: maps o_def split_def)
    moreover have "reads (CHR ''+'') (concat (map (dump_map_child level) rest)) []"
      using reads_nothing added by blast
    moreover have "dump ?d level = concat (map (dump_map_child level) (?front @ rest))"
      unfolding order [symmetric] by (simp add: maps performDiff_map Let_def)
    ultimately show ?thesis
      using reads_append [of "CHR ''+''" _ "dumpData '' '' level a" _ "[]"] by (simp del: map_map dumpData.simps)
  qed
qed

section \<open>Properties\<close>

lemma colorize_plain: "printed (CHR '' '') text text' \<Longrightarrow> colorizeDiff text = text"
  unfolding printed_def
proof (elim exE conjE)
  fix ls assume ls: "\<forall>l \<in> set ls. one_line l" "text = unlines (map (Cons (CHR '' '')) ls)"
  then have "split [nl] text = map (Cons (CHR '' '')) ls @ [[]]" by (simp add: split_unlines)
  then have "map colorize_line (split [nl] text) = map (Cons (CHR '' '')) ls @ [[]]"
    by (simp add: colorize_line_def)
  then show "colorizeDiff text = text" by (simp add: colorizeDiff_def join_unlines ls(2))
qed

text \<open>A desired value that the comparison reports as the same as the current one is printed as it is, without
  a mark and without a colour, whatever the order of the current value's entries and elements.\<close>

theorem same_prints_plain:
  assumes "plain opt" "keyed a" "flat a" "d_status (performDiff fl opt a b l) = DiffStatusSame"
  shows "dump (performDiff fl opt a b l) level = dumpData '' '' level a \<and>
    colorizeDiff (dump (performDiff fl opt a b l) level) = dump (performDiff fl opt a b l) level"
proof -
  have "dump (performDiff fl opt a b l) level = dumpData '' '' level a" by (rule same_dump [OF assms(1,2,4)])
  with colorize_plain [OF printed_data(1) [OF assms(3)]] show ?thesis by simp
qed

definition sample_desired :: raw where
  "sample_desired = RMap [(KString ''kind'', RString ''Service''),
     (KString ''spec'', RMap [(KString ''ports'', RArr [RMap [(KString ''port'', RUint 80)], RString ''http'']),
       (KString ''type'', RString ''ClusterIP'')])]"

definition sample_current :: raw where
  "sample_current = RMap [(KString ''status'', RNil),
     (KString ''spec'', RMap [(KString ''type'', RString ''NodePort''),
       (KString ''ports'', RArr [RString ''http'', RMap [(KString ''port'', RUint 80)]])]),
     (KString ''kind'', RString ''Service'')]"

definition sample_shuffled :: raw where
  "sample_shuffled = RMap [(KString ''spec'', RMap [(KString ''type'', RString ''ClusterIP''),
       (KString ''ports'', RArr [RString ''http'', RMap [(KString ''port'', RUint 80)]])]),
     (KString ''kind'', RString ''Service'')]"

lemma sample_conditions:
  "keyed sample_desired" "flat sample_desired" "flat sample_current" "sample_desired \<noteq> RNil"
  "d_status (performDiff no_floats default_options sample_desired sample_shuffled 0) = DiffStatusSame"
  "lists_settled no_floats default_options sample_desired sample_current"
  by code_simp+

theorem same_prints_plain_witness:
  "dump (performDiff no_floats default_options sample_desired sample_shuffled 0) 0 = dumpData '' '' 0 sample_desired \<and>
   colorizeDiff (dump (performDiff no_floats default_options sample_desired sample_shuffled 0) 0) =
     dump (performDiff no_floats default_options sample_desired sample_shuffled 0) 0"
  by (rule same_prints_plain [OF plain_default sample_conditions(1,2,5)])



section \<open>Reports that mislead\<close>

text \<open>A string is printed as it is, so that a line of its text that begins with a dash is coloured as a
  removed line of a document that has not changed.\<close>

theorem multi_line_string_marked:
  "let a = RMap [(KString ''data'', RString ([CHR ''a'', nl] @ ''- b''))];
       d = performDiff fl default_options a a 0
   in d_status d = DiffStatusSame \<and> colorizeDiff (Dump d) \<noteq> Dump d"
  by code_simp

text \<open>An element that only the current list has is printed beside a removed element that the desired list
  does not have.\<close>

theorem added_element_removes_nothing:
  "Dump (performDiff fl default_options (RArr []) (RArr [RString ''x'']) 0) =
     ''- - '' @ [nl] @ ''+ - '' @ [CHR 0x22] @ ''x'' @ [CHR 0x22, nl]"
  by (simp add: performDiff_array performDiff_primitive handlePrimitive_def array_diff_def unfound_def
    pair_loop.simps Let_def Dump_def dump_array_child_def dump_line_def indent_def)

end
