(* ===== verification/Validator.thy ===== *)
theory Validator
  imports Effects "HOL-Library.Finite_Map"
begin

text \<open>
  Comparing a desired YAML document with the current one (pkg/validator/validator.go).

  The values are those that yaml.v3 stores in an \<open>interface{}\<close>: nil, \<open>int\<close> (64 bits), finite \<open>float64\<close>,
  strings, \<open>map[string]interface{}\<close>, \<open>[]interface{}\<close>, and the rest (booleans, \<open>uint64\<close>, times, maps with
  other keys), which the code compares but does not look into. The decoder builds a tree: no map or list
  is shared, so that updating it in place is returning the updated value. A Go map is a finite map; the
  order in which its loops run does not matter, each round touches its own entry only. The document
  itself may be a nil map, which \<open>reflect.DeepEqual\<close> distinguishes from an empty one: \<open>None\<close>.

  \<open>unmarshal\<close>, the decoder, is a parameter.
\<close>

section \<open>Values\<close>

datatype 'x yval = YNil | YString string | YInt int64 | YFloat rat | YMap "(string, 'x yval) fmap"
  | YList "'x yval list" | YOther 'x

type_synonym 'x ymap = "(string, 'x yval) fmap"

section \<open>Filtering\<close>

text \<open>The cases in which \<open>filterEmptyFields\<close> deletes the entry, a map after its own entries are filtered.\<close>

fun empty_value :: "'x yval \<Rightarrow> bool" where
  "empty_value YNil = True"
| "empty_value (YString s) = (s = [])"
| "empty_value (YInt i) = (i = 0)"
| "empty_value (YFloat r) = (r = 0)"
| "empty_value (YMap m) = (m = fmempty)"
| "empty_value _ = False"

definition drop_empty :: "'x ymap \<Rightarrow> 'x ymap" where
  "drop_empty m = fmfilter (\<lambda>k. case fmlookup m k of Some v \<Rightarrow> \<not> empty_value v | None \<Rightarrow> False) m"

primrec filter_value :: "'x yval \<Rightarrow> 'x yval" where
  "filter_value YNil = YNil"
| "filter_value (YString s) = YString s"
| "filter_value (YInt i) = YInt i"
| "filter_value (YFloat r) = YFloat r"
| "filter_value (YMap m) = YMap (drop_empty (fmmap filter_value m))"
| "filter_value (YList vs) = YList vs"
| "filter_value (YOther x) = YOther x"

definition filterEmptyFields :: "'x ymap \<Rightarrow> 'x ymap" where
  "filterEmptyFields data = drop_empty (fmmap filter_value data)"

section \<open>Cleaning\<close>

text \<open>One round of the loop of \<open>cleanMapBasedOnAnother\<close>: what becomes of an entry \<open>v\<close> of the base map,
  \<open>None\<close> when it is deleted; \<open>clean w\<close> is \<open>v\<close> cleaned with the value \<open>w\<close> of the reference.\<close>

definition clean_entry :: "'x yval option \<Rightarrow> 'x yval \<times> ('x yval \<Rightarrow> 'x yval) \<Rightarrow> 'x yval option" where
  "clean_entry refVal entry =
     (case entry of (v, clean) \<Rightarrow>
       (case refVal of
          None \<Rightarrow> None
        | Some w \<Rightarrow>
            (case v of
               YMap baseSubMap \<Rightarrow>
                 (case w of
                    YMap refSubMap \<Rightarrow>
                      (if clean w = YMap fmempty \<and> refSubMap \<noteq> fmempty then None else Some (clean w))
                  | _ \<Rightarrow> None)
             | YList baseList \<Rightarrow> Some (clean w)
             | _ \<Rightarrow> Some v)))"

definition clean_entries :: "'x ymap \<Rightarrow> (string, 'x yval \<times> ('x yval \<Rightarrow> 'x yval)) fmap \<Rightarrow> 'x ymap" where
  "clean_entries referenceMap m =
     fmmap_keys (\<lambda>k e. the (clean_entry (fmlookup referenceMap k) e))
       (fmfilter (\<lambda>k. case fmlookup m k of
          Some e \<Rightarrow> clean_entry (fmlookup referenceMap k) e \<noteq> None | None \<Rightarrow> False) m)"

text \<open>The loop over a list: an item is cleaned when it and the item of the reference are maps.\<close>

fun clean_items :: "('x yval \<times> ('x yval \<Rightarrow> 'x yval)) list \<Rightarrow> 'x yval list \<Rightarrow> 'x yval list" where
  "clean_items [] ws = []"
| "clean_items ((v, clean) # items) [] = v # clean_items items []"
| "clean_items ((v, clean) # items) (w # ws) =
     (case (v, w) of (YMap m, YMap r) \<Rightarrow> clean w | _ \<Rightarrow> v) # clean_items items ws"

primrec clean_value :: "'x yval \<Rightarrow> 'x yval \<Rightarrow> 'x yval" where
  "clean_value YNil = (\<lambda>w. YNil)"
| "clean_value (YString s) = (\<lambda>w. YString s)"
| "clean_value (YInt i) = (\<lambda>w. YInt i)"
| "clean_value (YFloat r) = (\<lambda>w. YFloat r)"
| "clean_value (YMap m) = (\<lambda>w. case w of
     YMap r \<Rightarrow> YMap (clean_entries r (fmmap (\<lambda>v. (v, clean_value v)) m)) | _ \<Rightarrow> YMap m)"
| "clean_value (YList vs) = (\<lambda>w. case w of
     YList ws \<Rightarrow> YList (clean_items (map (\<lambda>v. (v, clean_value v)) vs) ws) | _ \<Rightarrow> YList vs)"
| "clean_value (YOther x) = (\<lambda>w. YOther x)"

definition cleanMapBasedOnAnother :: "'x ymap \<Rightarrow> 'x ymap \<Rightarrow> 'x ymap" where
  "cleanMapBasedOnAnother baseMap referenceMap =
     clean_entries referenceMap (fmmap (\<lambda>v. (v, clean_value v)) baseMap)"

section \<open>Validation\<close>

text \<open>A nil map has no entries, and stays nil when it is filtered or cleaned.\<close>

definition entries :: "'x ymap option \<Rightarrow> 'x ymap" where
  "entries m = (case m of None \<Rightarrow> fmempty | Some m \<Rightarrow> m)"

definition ValidateYaml ::
  "(string \<Rightarrow> go_error + 'x ymap option) \<Rightarrow> string \<Rightarrow> string \<Rightarrow> bool \<times> 'x ymap option \<times> 'x ymap option" where
  "ValidateYaml unmarshal desiredYaml currentYaml =
     (case unmarshal desiredYaml of
        Inl err \<Rightarrow> (False, Some fmempty, Some fmempty)
      | Inr DesiredMap \<Rightarrow>
          (case unmarshal currentYaml of
             Inl err \<Rightarrow> (False, DesiredMap, Some fmempty)
           | Inr CurrentMap \<Rightarrow>
               (let DesiredMap = map_option filterEmptyFields DesiredMap;
                    CurrentMap = map_option filterEmptyFields CurrentMap;
                    ModifiedCurrentMap = map_option (\<lambda>m. cleanMapBasedOnAnother m (entries DesiredMap)) CurrentMap
                in (ModifiedCurrentMap = DesiredMap, DesiredMap, ModifiedCurrentMap))))"

text \<open>\<open>marshal\<close> is \<open>yaml.Marshal\<close>.\<close>

definition PrintMap :: "('x ymap option \<Rightarrow> go_error + string) \<Rightarrow> 'x ymap option \<Rightarrow> string" where
  "PrintMap marshal data = (case marshal data of Inl err \<Rightarrow> [] | Inr bytes \<Rightarrow> bytes)"

section \<open>Entries of the results\<close>

lemma fmlookup_drop_empty:
  "fmlookup (drop_empty m) k = (case fmlookup m k of Some v \<Rightarrow> if empty_value v then None else Some v | None \<Rightarrow> None)"
  by (auto simp: drop_empty_def split: option.splits)

lemma fmlookup_filter:
  "fmlookup (filterEmptyFields m) k = (case fmlookup m k of
     Some v \<Rightarrow> if empty_value (filter_value v) then None else Some (filter_value v) | None \<Rightarrow> None)"
  by (simp add: filterEmptyFields_def fmlookup_drop_empty split: option.splits)

lemma filter_value_map [simp]: "filter_value (YMap m) = YMap (filterEmptyFields m)"
  by (simp add: filterEmptyFields_def)

lemma fmlookup_clean:
  "fmlookup (cleanMapBasedOnAnother m r) k = (case fmlookup m k of
     Some v \<Rightarrow> clean_entry (fmlookup r k) (v, clean_value v) | None \<Rightarrow> None)"
  by (auto simp: cleanMapBasedOnAnother_def clean_entries_def split: option.splits)

lemma clean_value_map [simp]: "clean_value (YMap m) (YMap r) = YMap (cleanMapBasedOnAnother m r)"
  by (simp add: cleanMapBasedOnAnother_def)

declare clean_value.simps(5,6) [simp del] filter_value.simps(5) [simp del]

end
