(* ===== verification/Validator_Laws.thy ===== *)
theory Validator_Laws
  imports Validator
begin

text \<open>
  What the validator decides. \<open>covers current desired\<close> is the abstract specification: every entry of the
  desired map is in the current one with a value that covers it, lists agree item by item, and everything
  else is equal. The code's filter-then-compare decides it; the filter is idempotent and leaves no empty
  entry; a document covers itself. The last section states what the filter hides.
\<close>

section \<open>The specification\<close>

abbreviation both_maps :: "'x yval \<Rightarrow> 'x yval \<Rightarrow> bool" where
  "both_maps v w \<equiv> \<exists>m r. v = YMap m \<and> w = YMap r"

inductive covers :: "'x yval \<Rightarrow> 'x yval \<Rightarrow> bool" where
  covers_map: "(\<forall>k w. fmlookup r k = Some w \<longrightarrow> (\<exists>v. fmlookup m k = Some v \<and> covers v w)) \<Longrightarrow>
    covers (YMap m) (YMap r)"
| covers_list: "list_all2 (\<lambda>v w. (both_maps v w \<longrightarrow> covers v w) \<and> (\<not> both_maps v w \<longrightarrow> v = w)) vs ws \<Longrightarrow> covers (YList vs) (YList ws)"
| covers_equal: "(\<nexists>m. v = YMap m) \<Longrightarrow> (\<nexists>vs. v = YList vs) \<Longrightarrow> covers v v"

inductive_simps covers_simps [simp]:
  "covers YNil w" "covers (YString s) w" "covers (YInt i) w" "covers (YFloat x) w" "covers (YOther y) w"
  "covers (YMap m) (YMap r)" "covers (YList vs) (YList ws)"
  "covers (YMap m) (YList ws)" "covers (YList vs) (YMap r)"

inductive_cases covers_mapE: "covers (YMap m) w"
inductive_cases covers_listE: "covers (YList vs) w"

lemma clean_entry_simps [simp]:
  "clean_entry None e = None"
  "clean_entry (Some w) (YNil, f) = Some YNil" "clean_entry (Some w) (YString s, f) = Some (YString s)"
  "clean_entry (Some w) (YInt i, f) = Some (YInt i)" "clean_entry (Some w) (YFloat x, f) = Some (YFloat x)"
  "clean_entry (Some w) (YOther y, f) = Some (YOther y)" "clean_entry (Some w) (YList vs, f) = Some (f w)"
  by (simp_all add: clean_entry_def)

lemma clean_entry_map:
  "clean_entry (Some (YMap r)) (YMap m, clean_value (YMap m)) =
     (if cleanMapBasedOnAnother m r = fmempty \<and> r \<noteq> fmempty then None else Some (YMap (cleanMapBasedOnAnother m r)))"
  by (simp add: clean_entry_def)

lemma clean_items_eq:
  "clean_items (map (\<lambda>v. (v, clean_value v)) vs) ws = ws \<longleftrightarrow>
     list_all2 (\<lambda>v w. if both_maps v w then clean_value v w = w else v = w) vs ws"
proof (induction vs arbitrary: ws)
  case (Cons v vs)
  then show ?case by (cases ws) (auto split: yval.splits)
qed (auto split: list.splits)

lemma clean_map_eq:
  "cleanMapBasedOnAnother m r = r \<longleftrightarrow> (\<forall>k w. fmlookup r k = Some w \<longrightarrow>
     (\<exists>v. fmlookup m k = Some v \<and> clean_entry (Some w) (v, clean_value v) = Some w))"
proof
  assume eq: "cleanMapBasedOnAnother m r = r"
  show "\<forall>k w. fmlookup r k = Some w \<longrightarrow>
     (\<exists>v. fmlookup m k = Some v \<and> clean_entry (Some w) (v, clean_value v) = Some w)"
  proof (intro allI impI)
    fix k w assume "fmlookup r k = Some w"
    with eq fmlookup_clean [of m r k] show "\<exists>v. fmlookup m k = Some v \<and> clean_entry (Some w) (v, clean_value v) = Some w"
      by (auto split: option.splits)
  qed
next
  assume A: "\<forall>k w. fmlookup r k = Some w \<longrightarrow>
     (\<exists>v. fmlookup m k = Some v \<and> clean_entry (Some w) (v, clean_value v) = Some w)"
  show "cleanMapBasedOnAnother m r = r"
  proof (rule fmap_ext)
    fix k
    show "fmlookup (cleanMapBasedOnAnother m r) k = fmlookup r k"
      using A by (cases "fmlookup r k") (fastforce simp: fmlookup_clean split: option.splits)+
  qed
qed

lemma clean_entry_covers: "clean_entry (Some w) (v, clean_value v) = Some w \<longleftrightarrow> covers v w"
proof (induction v arbitrary: w)
  case (YMap m)
  show ?case
  proof (cases w)
    case (YMap r)
    have "cleanMapBasedOnAnother m r = r \<longleftrightarrow> covers (YMap m) w"
      using YMap.IH fmran'I unfolding clean_map_eq YMap covers_simps by metis
    then show ?thesis by (auto simp: clean_entry_map YMap)
  qed (auto simp: clean_entry_def elim: covers_mapE)
next
  case (YList vs)
  show ?case
  proof (cases w)
    case w: (YList ws)
    have "(if both_maps v u then clean_value v u = u else v = u) \<longleftrightarrow>
        (both_maps v u \<longrightarrow> covers v u) \<and> (\<not> both_maps v u \<longrightarrow> v = u)"
      if "v \<in> set vs" for v u
    proof (cases "both_maps v u")
      case True
      then obtain m r where "v = YMap m" "u = YMap r" by blast
      with YList.IH [OF that, of u] show ?thesis
        by (auto simp: clean_entry_map split: if_splits)
    next
      case False
      then show ?thesis by (simp only: if_False simp_thms)
    qed
    then have "list_all2 (\<lambda>v w. if both_maps v w then clean_value v w = w else v = w) vs ws \<longleftrightarrow>
        list_all2 (\<lambda>v w. (both_maps v w \<longrightarrow> covers v w) \<and> (\<not> both_maps v w \<longrightarrow> v = w)) vs ws"
      by (intro list.rel_cong) auto
    then show ?thesis
      by (simp add: w clean_value.simps(6) clean_items_eq del: if_split)
  qed (auto simp: clean_value.simps(6) elim: covers_listE)
qed auto

lemma clean_covers: "cleanMapBasedOnAnother m r = r \<longleftrightarrow> covers (YMap m) (YMap r)"
  unfolding clean_map_eq clean_entry_covers by simp

lemma covers_refl: "covers v v"
proof (induction v)
  case (YMap m)
  then show ?case by (auto simp: fmran'I)
next
  case (YList vs)
  then show ?case by (auto simp: list.rel_refl_strong)
qed auto

section \<open>The filter\<close>

text \<open>No entry of a map is empty, at any depth below maps.\<close>

inductive solid :: "'x yval \<Rightarrow> bool" where
  solid_map: "(\<forall>k v. fmlookup m k = Some v \<longrightarrow> \<not> empty_value v \<and> solid v) \<Longrightarrow> solid (YMap m)"
| solid_other: "(\<nexists>m. v = YMap m) \<Longrightarrow> solid v"

inductive_simps solid_map_iff [simp]: "solid (YMap m)"

lemma filter_value_other: "(\<nexists>m. v = YMap m) \<Longrightarrow> filter_value v = v"
  by (cases v) auto

lemma filter_value_solid: "solid (filter_value v)"
proof (induction v)
  case (YMap m)
  then show ?case by (auto simp: fmlookup_filter fmran'I split: option.splits if_splits)
qed (auto intro: solid_other)

lemma solid_filter_value: "solid v \<Longrightarrow> filter_value v = v"
proof (induction v)
  case (YMap m)
  have "filterEmptyFields m = m"
  proof (rule fmap_ext)
    fix k show "fmlookup (filterEmptyFields m) k = fmlookup m k"
      using YMap by (cases "fmlookup m k") (auto simp: fmlookup_filter fmran'I)
  qed
  then show ?case by simp
qed auto

lemma covers_empty: "covers v w \<Longrightarrow> empty_value v \<Longrightarrow> empty_value w"
  by (cases v; cases w) (auto intro!: fmap_ext elim: covers_mapE)

lemma filter_value_covers: "covers v w \<Longrightarrow> covers (filter_value v) (filter_value w)"
proof (induction v arbitrary: w)
  case (YMap m)
  then obtain r where w: "w = YMap r" by (auto elim: covers_mapE)
  have "\<exists>v. fmlookup (filterEmptyFields m) k = Some v \<and> covers v u" if u: "fmlookup (filterEmptyFields r) k = Some u" for k u
  proof -
    from u obtain x where x: "fmlookup r k = Some x" "u = filter_value x" "\<not> empty_value u"
      by (auto simp: fmlookup_filter split: option.splits if_splits)
    with YMap.prems w obtain v where v: "fmlookup m k = Some v" "covers v x" by auto
    then have "covers (filter_value v) u" using YMap.IH fmran'I x(2) by metis
    with covers_empty x(3) v show ?thesis by (auto simp: fmlookup_filter)
  qed
  with w show ?case by simp
next
  case (YList vs)
  then show ?case by (auto elim: covers_listE)
qed auto

section \<open>Properties\<close>

lemma validate_decoded:
  "unmarshal desired = Inr d \<Longrightarrow> unmarshal current = Inr c \<Longrightarrow>
   ValidateYaml unmarshal desired current =
     (let d' = map_option filterEmptyFields d;
          c' = map_option (\<lambda>m. cleanMapBasedOnAnother (filterEmptyFields m) (entries d')) c
      in (c' = d', d', c'))"
  by (simp add: ValidateYaml_def Let_def option.map_comp o_def)

text \<open>C32. The validator decides its specification: two documents that decode to maps match exactly if the filtered
  current map covers the filtered desired one.\<close>

theorem validate_decides_covers:
  assumes "unmarshal desired = Inr (Some d)" "unmarshal current = Inr (Some c)"
  shows "fst (ValidateYaml unmarshal desired current) \<longleftrightarrow>
    covers (YMap (filterEmptyFields c)) (YMap (filterEmptyFields d))"
  using clean_covers by (simp add: validate_decoded [where d = "Some d" and c = "Some c"] assms Let_def entries_def)

text \<open>No false alarm: when the current map covers the desired one, as it does when the
  cluster only added fields, the documents match.\<close>

theorem validate_accepts_defaults:
  assumes "unmarshal desired = Inr (Some d)" "unmarshal current = Inr (Some c)" "covers (YMap c) (YMap d)"
  shows "fst (ValidateYaml unmarshal desired current)"
proof -
  have "cleanMapBasedOnAnother (filterEmptyFields c) (filterEmptyFields d) = filterEmptyFields d"
    using filter_value_covers [OF assms(3)] unfolding clean_covers filter_value_map .
  then show ?thesis
    by (simp add: validate_decoded [where d = "Some d" and c = "Some c"] assms(1,2) Let_def entries_def)
qed

text \<open>A document matches itself.\<close>

theorem validate_reflexive:
  assumes "unmarshal s = Inr d"
  shows "fst (ValidateYaml unmarshal s s)"
proof (cases d)
  case (Some m)
  have "cleanMapBasedOnAnother (filterEmptyFields m) (filterEmptyFields m) = filterEmptyFields m"
    unfolding clean_covers by (rule covers_refl)
  with Some show ?thesis by (simp add: validate_decoded [of unmarshal s d s d, OF assms assms] Let_def entries_def)
qed (simp add: validate_decoded [of unmarshal s d s d, OF assms assms] Let_def)

text \<open>The filter leaves no empty entry in a map at any depth, and applied again it changes nothing.\<close>

theorem filter_normalizes:
  "solid (YMap (filterEmptyFields m)) \<and> filterEmptyFields (filterEmptyFields m) = filterEmptyFields m"
proof -
  have s: "solid (YMap (filterEmptyFields m))" using filter_value_solid [of "YMap m"] by simp
  from solid_filter_value [OF this] s show ?thesis by simp
qed


text \<open>An empty desired document decodes to a nil map, which differs from the emptied current one: it matches
  no document that has a map, though it asks for nothing.\<close>

theorem empty_document_matches_none:
  assumes "unmarshal desired = Inr None" "unmarshal current = Inr (Some c)"
  shows "ValidateYaml unmarshal desired current = (False, None, Some fmempty)"
proof -
  have "cleanMapBasedOnAnother (filterEmptyFields c) fmempty = fmempty" by (simp add: clean_covers)
  then show ?thesis
    by (simp add: validate_decoded [where d = None and c = "Some c"] assms Let_def entries_def)
qed

section \<open>Samples\<close>

definition wanted_map :: "unit ymap" where
  "wanted_map = fmap_of_list [(''replicas'', YInt 3), (''ports'', YList [YMap (fmap_of_list [(''port'', YInt 80)])])]"

definition found_map :: "unit ymap" where
  "found_map = fmap_of_list [(''replicas'', YInt 3), (''status'', YNil),
     (''ports'', YList [YMap (fmap_of_list [(''port'', YInt 80), (''protocol'', YString ''TCP'')])])]"

definition zero_map :: "unit ymap" where
  "zero_map = fmap_of_list [(''replicas'', YInt 0)]"

definition sample_maps :: "string \<Rightarrow> go_error + unit ymap option" where
  "sample_maps s =
     (if s = ''wanted'' then Inr (Some wanted_map) else if s = ''found'' then Inr (Some found_map)
      else if s = ''zero'' then Inr (Some zero_map) else Inr None)"

lemma sample_decoded:
  "sample_maps ''wanted'' = Inr (Some wanted_map)" "sample_maps ''found'' = Inr (Some found_map)"
  "sample_maps ''zero'' = Inr (Some zero_map)" "sample_maps [] = Inr None"
  by (simp_all add: sample_maps_def)

lemma found_covers_wanted: "covers (YMap found_map) (YMap wanted_map)"
  unfolding clean_covers [symmetric] by code_simp

lemma zero_map_filtered: "filterEmptyFields zero_map = fmempty"
  by code_simp

theorem validate_decides_covers_witness:
  "\<not> fst (ValidateYaml sample_maps ''found'' ''wanted'')"
proof -
  have "cleanMapBasedOnAnother (filterEmptyFields wanted_map) (filterEmptyFields found_map) \<noteq> filterEmptyFields found_map"
    by code_simp
  with validate_decides_covers [OF sample_decoded(2,1)] show ?thesis
    unfolding clean_covers by blast
qed

theorem validate_accepts_defaults_witness: "fst (ValidateYaml sample_maps ''wanted'' ''found'')"
  by (rule validate_accepts_defaults [OF sample_decoded(1,2) found_covers_wanted])

theorem validate_reflexive_witness: "fst (ValidateYaml sample_maps ''found'' ''found'')"
  by (rule validate_reflexive [of sample_maps, OF sample_decoded(2)])


theorem empty_document_matches_none_witness:
  "ValidateYaml sample_maps [] ''found'' = (False, None, Some fmempty)"
  by (rule empty_document_matches_none [OF sample_decoded(4,2)])

end
