(* ===== verification/Startup.thy ===== *)
theory Startup
  imports Controller
begin

text \<open>
  Start-up (main.go, api/v1beta1/groupversion_info.go) and the registration of the controller (\<open>SetupWithManager\<close> in
  controllers/phare_controller.go): the command line, the options of the manager, the kinds the
  controller watches, and the sequence of calls up to the running manager with the exit code of each
  failure.

  controller-runtime is a parameter, \<open>('k, 'c, 'm) manager_api\<close>: functions from the state \<open>'m\<close> of the library
  to a response and the next state, of which nothing is assumed. So are the schemes, \<open>'k scheme_api\<close>: what the
  libraries and the scheme builder add to a scheme \<open>'k\<close>. The flags that the libraries define
  beside the three of the program (those of zap, kubeconfig) are the parameter \<open>lib_flags\<close>: whether a
  flag is boolean and which values it takes. The parsing itself is that of the standard package flag.
\<close>

section \<open>The command line\<close>

record flags =
  metricsAddr :: string
  probeAddr :: string
  enableLeaderElection :: bool

definition default_flags :: flags where
  "default_flags = \<lparr>metricsAddr = '':8080'', probeAddr = '':8081'', enableLeaderElection = False\<rparr>"

type_synonym lib_flags = "string \<Rightarrow> (bool \<times> (string \<Rightarrow> bool)) option"

text \<open>\<open>Settings\<close> holds the program's flags and the library flags set, in order; \<open>flag.Parse\<close> ends the
  program after a request for help with code 0 and after an error with code 2.\<close>

type_synonym settings = "flags \<times> (string \<times> string) list"

datatype parsed = Settings settings | HelpShown | BadUsage

definition parse_bool :: "string \<Rightarrow> bool option" where
  "parse_bool v =
     (if v \<in> {''1'', ''t'', ''T'', ''TRUE'', ''true'', ''True''} then Some True
      else if v \<in> {''0'', ''f'', ''F'', ''FALSE'', ''false'', ''False''} then Some False
      else None)"

definition flag_kind :: "lib_flags \<Rightarrow> string \<Rightarrow> bool option" where
  "flag_kind lib name =
     (if name = ''metrics-bind-address'' \<or> name = ''health-probe-bind-address'' then Some False
      else if name = ''leader-elect'' then Some True
      else map_option fst (lib name))"

definition set_flag :: "lib_flags \<Rightarrow> string \<Rightarrow> string \<Rightarrow> settings \<Rightarrow> settings option" where
  "set_flag lib name v s =
     (case s of (fl, sets) \<Rightarrow>
        if name = ''metrics-bind-address'' then Some (fl\<lparr>metricsAddr := v\<rparr>, sets)
        else if name = ''health-probe-bind-address'' then Some (fl\<lparr>probeAddr := v\<rparr>, sets)
        else if name = ''leader-elect'' then
          map_option (\<lambda>b. (fl\<lparr>enableLeaderElection := b\<rparr>, sets)) (parse_bool v)
        else (case lib name of
                None \<Rightarrow> None
              | Some (_, accepts) \<Rightarrow> if accepts v then Some (fl, sets @ [(name, v)]) else None))"

text \<open>The text of an argument after one or two dashes; \<open>None\<close> ends the flags.\<close>

fun after_dashes :: "string \<Rightarrow> string option" where
  "after_dashes (c # d # text) =
     (if c \<noteq> CHR ''-'' then None
      else if d \<noteq> CHR ''-'' then Some (d # text)
      else if text = [] then None
      else Some text)"
| "after_dashes _ = None"

text \<open>A value after the first \<open>=\<close>, which cannot be the first character.\<close>

fun cut_value :: "string \<Rightarrow> string \<times> string option" where
  "cut_value [] = ([], None)"
| "cut_value (c # cs) =
     (let name = takeWhile (\<lambda>d. d \<noteq> CHR ''='') cs
      in if name = cs then (c # cs, None) else (c # name, Some (drop (length name + 1) cs)))"

fun parse_args :: "lib_flags \<Rightarrow> settings \<Rightarrow> string list \<Rightarrow> parsed" where
  "parse_args lib s [] = Settings s"
| "parse_args lib s (arg # args) =
     (case after_dashes arg of
        None \<Rightarrow> Settings s
      | Some text \<Rightarrow>
          if text = [] \<or> hd text = CHR ''-'' \<or> hd text = CHR ''='' then BadUsage
          else (case cut_value text of (name, value) \<Rightarrow>
            (case (flag_kind lib name, value) of
               (None, _) \<Rightarrow> if name = ''help'' \<or> name = ''h'' then HelpShown else BadUsage
             | (_, Some v) \<Rightarrow>
                 (case set_flag lib name v s of None \<Rightarrow> BadUsage | Some s \<Rightarrow> parse_args lib s args)
             | (Some True, None) \<Rightarrow>
                 (case set_flag lib name ''true'' s of None \<Rightarrow> BadUsage | Some s \<Rightarrow> parse_args lib s args)
             | (Some False, None) \<Rightarrow>
                 (case args of
                    [] \<Rightarrow> BadUsage
                  | v # args \<Rightarrow>
                      (case set_flag lib name v s of None \<Rightarrow> BadUsage | Some s \<Rightarrow> parse_args lib s args)))))"

section \<open>The scheme\<close>

text \<open>\<open>k8s_addToScheme\<close> and \<open>gateway_install\<close> add the types of client-go and of the gateway API;
  \<open>builder_add gv kinds\<close> is \<open>AddToScheme\<close> of a scheme builder for \<open>gv\<close> with which objects of these types are
  registered.\<close>

record 'k scheme_api =
  k8s_addToScheme :: "'k \<Rightarrow> string + 'k"
  builder_add :: "string \<times> string \<Rightarrow> string list \<Rightarrow> 'k \<Rightarrow> string + 'k"
  gateway_install :: "'k \<Rightarrow> string + 'k"

definition GroupVersion :: "string \<times> string" where
  "GroupVersion = (''phare.localcorp.internal'', ''v1beta1'')"

definition registered_types :: "string list" where
  "registered_types = [''Phare'', ''PhareList'']"

definition AddToScheme :: "'k scheme_api \<Rightarrow> 'k \<Rightarrow> string + 'k" where
  "AddToScheme api = builder_add api GroupVersion registered_types"

text \<open>\<open>init\<close> of the main package; \<open>utilruntime.Must\<close> panics on an error, which is \<open>Inl\<close> here.\<close>

definition init_scheme :: "'k scheme_api \<Rightarrow> 'k \<Rightarrow> string + 'k" where
  "init_scheme api scheme =
     (case k8s_addToScheme api scheme of
        Inl err \<Rightarrow> Inl err
      | Inr scheme \<Rightarrow>
          (case AddToScheme api scheme of
             Inl err \<Rightarrow> Inl err
           | Inr scheme \<Rightarrow> gateway_install api scheme))"

section \<open>Calls into controller-runtime\<close>

text \<open>\<open>ctrl.Options\<close>: the fields that the program sets. The metrics address is not one of them.\<close>

record 'k manager_options =
  managerScheme :: 'k
  healthProbeBindAddress :: string
  leaderElection :: bool
  leaderElectionID :: string

definition main_options :: "'k \<Rightarrow> flags \<Rightarrow> 'k manager_options" where
  "main_options scheme fl =
     \<lparr>managerScheme = scheme, healthProbeBindAddress = probeAddr fl, leaderElection = enableLeaderElection fl,
      leaderElectionID = ''d65451e7.localcorp.internal''\<rparr>"

text \<open>What the builder of the controller collects: the kind of \<open>For\<close>, and for each \<open>Owns\<close> the kind and
  the predicates.\<close>

record controller_spec =
  for_kind :: kind
  owned_kinds :: "(kind \<times> (watch_event \<Rightarrow> bool) list) list"

record ('k, 'c, 'm) manager_api =
  api_getConfig :: "'m \<Rightarrow> (string + 'c) \<times> 'm"
  api_newManager :: "'c \<Rightarrow> 'k manager_options \<Rightarrow> 'm \<Rightarrow> (string + unit) \<times> 'm"
  api_complete :: "controller_spec \<Rightarrow> 'm \<Rightarrow> (string + unit) \<times> 'm"
  api_addHealthzCheck :: "string \<Rightarrow> 'm \<Rightarrow> (string + unit) \<times> 'm"
  api_addReadyzCheck :: "string \<Rightarrow> 'm \<Rightarrow> (string + unit) \<times> 'm"
  api_start :: "'m \<Rightarrow> (string + unit) \<times> 'm"

datatype 'k setup_call = GetConfig | NewManager "'k manager_options" | CompleteController controller_spec
  | AddHealthzCheck string | AddReadyzCheck string | StartManager

text \<open>\<open>LogError err msg\<close> is \<open>setupLog.Error(err, msg)\<close>.\<close>

datatype log_line = LogError string string | LogInfo string

text \<open>\<open>made\<close> are the calls so far, with the error that each returned.\<close>

record ('k, 'm) process =
  library :: 'm
  made :: "('k setup_call \<times> string option) list"
  logged :: "log_line list"

definition error_of :: "string + 'r \<Rightarrow> string option" where
  "error_of r = (case r of Inl err \<Rightarrow> Some err | Inr _ \<Rightarrow> None)"

definition make_call ::
  "'k setup_call \<Rightarrow> ('m \<Rightarrow> (string + 'r) \<times> 'm) \<Rightarrow> ('k, 'm) process \<Rightarrow> (string + 'r) \<times> ('k, 'm) process" where
  "make_call c f s =
     (case f (library s) of (r, l) \<Rightarrow> (r, s\<lparr>library := l, made := made s @ [(c, error_of r)]\<rparr>))"

definition log_to :: "log_line \<Rightarrow> ('k, 'm) process \<Rightarrow> ('k, 'm) process" where
  "log_to line s = s\<lparr>logged := logged s @ [line]\<rparr>"

section \<open>The code\<close>

definition phare_controller :: controller_spec where
  "phare_controller =
     (let labelFilter = defaultLabelPredicate ''app.kubernetes.io/created-by'' ''phare-controller'' in
      \<lparr>for_kind = KPhare,
       owned_kinds =
         [(KDeployment, [labelFilter]),
          (KStatefulSet, [labelFilter, statefulSetPredicate]),
          (KService, [labelFilter]),
          (KConfigMap, [labelFilter]),
          (KHTTPRoute, [labelFilter]),
          (KGCPBackendPolicy, [labelFilter]),
          (KHealthCheckPolicy, [labelFilter])]\<rparr>)"

definition SetupWithManager ::
  "('k, 'c, 'm) manager_api \<Rightarrow> ('k, 'm) process \<Rightarrow> (string + unit) \<times> ('k, 'm) process" where
  "SetupWithManager api s =
     make_call (CompleteController phare_controller) (api_complete api phare_controller) s"

text \<open>The result is the exit code; a return from \<open>main\<close> is code 0.\<close>

definition fail :: "string \<Rightarrow> string \<Rightarrow> ('k, 'm) process \<Rightarrow> nat \<times> ('k, 'm) process" where
  "fail err msg s = (1, log_to (LogError err msg) s)"

definition run_manager :: "('k, 'c, 'm) manager_api \<Rightarrow> 'k \<Rightarrow> flags \<Rightarrow> ('k, 'm) process \<Rightarrow> nat \<times> ('k, 'm) process" where
  "run_manager api scheme fl s =
     (case make_call GetConfig (api_getConfig api) s of
        (Inl err, s) \<Rightarrow> fail err ''unable to get kubeconfig'' s
      | (Inr cfg, s) \<Rightarrow>
     (case make_call (NewManager (main_options scheme fl)) (api_newManager api cfg (main_options scheme fl)) s of
        (Inl err, s) \<Rightarrow> fail err ''unable to start manager'' s
      | (Inr _, s) \<Rightarrow>
     (case SetupWithManager api s of
        (Inl err, s) \<Rightarrow> fail err ''unable to create controller'' s
      | (Inr _, s) \<Rightarrow>
     (case make_call (AddHealthzCheck ''healthz'') (api_addHealthzCheck api ''healthz'') s of
        (Inl err, s) \<Rightarrow> fail err ''unable to set up health check'' s
      | (Inr _, s) \<Rightarrow>
     (case make_call (AddReadyzCheck ''readyz'') (api_addReadyzCheck api ''readyz'') s of
        (Inl err, s) \<Rightarrow> fail err ''unable to set up ready check'' s
      | (Inr _, s) \<Rightarrow>
     (let s = log_to (LogInfo ''starting manager'') s in
      case make_call StartManager (api_start api) s of
        (Inl err, s) \<Rightarrow> fail err ''problem running manager'' s
      | (Inr _, s) \<Rightarrow> (0, s)))))))"

definition main :: "lib_flags \<Rightarrow> ('k, 'c, 'm) manager_api \<Rightarrow> 'k \<Rightarrow> string list \<Rightarrow> 'm \<Rightarrow> nat \<times> ('k, 'm) process" where
  "main lib api scheme args l =
     (let s = \<lparr>library = l, made = [], logged = []\<rparr> in
      case parse_args lib (default_flags, []) args of
        HelpShown \<Rightarrow> (0, s)
      | BadUsage \<Rightarrow> (2, s)
      | Settings (fl, _) \<Rightarrow> run_manager api scheme fl s)"

text \<open>The program: \<open>init\<close> and then \<open>main\<close>. A panic ends it with code 2.\<close>

definition program ::
  "'k scheme_api \<Rightarrow> lib_flags \<Rightarrow> ('k, 'c, 'm) manager_api \<Rightarrow> 'k \<Rightarrow> string list \<Rightarrow> 'm \<Rightarrow> nat \<times> ('k, 'm) process" where
  "program schemes lib api newScheme args l =
     (case init_scheme schemes newScheme of
        Inl _ \<Rightarrow> (2, \<lparr>library = l, made = [], logged = []\<rparr>)
      | Inr scheme \<Rightarrow> main lib api scheme args l)"

section \<open>The watches\<close>

lemma watch_table: "map_of (owned_kinds phare_controller) kd = (if kd = KPhare then None else Some (watch_predicates kd))"
  by (cases kd) (simp_all add: phare_controller_def watch_predicates_def Let_def)

text \<open>The controller watches every object that a run may write, so that a foreign change to it can start a run.\<close>

lemma watched_kinds: "call_kind c = for_kind phare_controller \<or> call_kind c \<in> fst ` set (owned_kinds phare_controller)"
  by (cases "call_kind c") (simp_all add: phare_controller_def Let_def)

section \<open>The command line\<close>

text \<open>Each flag of the program, written as \<open>-name=value\<close>.\<close>

definition render_flags :: "flags \<Rightarrow> string list" where
  "render_flags fl =
     [''-metrics-bind-address='' @ metricsAddr fl, ''-health-probe-bind-address='' @ probeAddr fl,
      ''-leader-elect='' @ (if enableLeaderElection fl then ''true'' else ''false'')]"

lemma parse_rendered: "parse_args lib (fl', sets) (render_flags fl @ args) = parse_args lib (fl, sets) args"
  by (cases fl; cases fl') (simp add: render_flags_def flag_kind_def set_flag_def parse_bool_def Let_def)

section \<open>Outcomes\<close>

text \<open>The calls of a start that succeeds and what is logged when one of them fails.\<close>

definition setup_calls :: "'k \<Rightarrow> flags \<Rightarrow> 'k setup_call list" where
  "setup_calls scheme fl = [GetConfig, NewManager (main_options scheme fl), CompleteController phare_controller,
     AddHealthzCheck ''healthz'', AddReadyzCheck ''readyz'', StartManager]"

definition setup_errors :: "string list" where
  "setup_errors = [''unable to get kubeconfig'', ''unable to start manager'', ''unable to create controller'',
     ''unable to set up health check'', ''unable to set up ready check'', ''problem running manager'']"

definition started :: "'k \<Rightarrow> flags \<Rightarrow> nat \<Rightarrow> ('k, 'm) process \<Rightarrow> bool" where
  "started scheme fl code s \<longleftrightarrow>
     code = 0 \<and> made s = map (\<lambda>c. (c, None)) (setup_calls scheme fl) \<and> logged s = [LogInfo ''starting manager'']"

definition stopped_at :: "nat \<Rightarrow> 'k \<Rightarrow> flags \<Rightarrow> nat \<Rightarrow> ('k, 'm) process \<Rightarrow> bool" where
  "stopped_at k scheme fl code s \<longleftrightarrow>
     (\<exists>err. code = 1 \<and>
       made s = map (\<lambda>c. (c, None)) (take k (setup_calls scheme fl)) @ [(setup_calls scheme fl ! k, Some err)] \<and>
       logged s = (if k = 5 then [LogInfo ''starting manager''] else []) @ [LogError err (setup_errors ! k)])"

lemma run_manager_outcome:
  assumes "run_manager api scheme fl \<lparr>library = l, made = [], logged = []\<rparr> = (code, s)"
  shows "started scheme fl code s \<or> (\<exists>k < 6. stopped_at k scheme fl code s)"
proof -
  have "started scheme fl code s \<or> stopped_at 0 scheme fl code s \<or> stopped_at 1 scheme fl code s \<or> stopped_at 2 scheme fl code s \<or>
      stopped_at 3 scheme fl code s \<or> stopped_at 4 scheme fl code s \<or> stopped_at 5 scheme fl code s"
    using assms
    by (auto simp: run_manager_def SetupWithManager_def make_call_def fail_def log_to_def error_of_def Let_def
        started_def stopped_at_def setup_calls_def setup_errors_def numeral_eq_Suc split: prod.splits sum.splits)
  then show ?thesis by force
qed

text \<open>C30. Whatever the libraries answer, the program registers the types, parses the flags and makes the calls of
  the start-up in their order, one after the other while they succeed: either all of them succeed and the code is
  0, or the one that fails is the last call, its error is logged with its message and the code is 1. So the manager
  is never started before the controller and both probes are registered, and it gets the scheme with all types. A
  failed registration, a bad flag or a request for help ends the program before.\<close>

theorem startup_outcome:
  "case program schemes lib api newScheme args l of (code, s) \<Rightarrow>
     (case (init_scheme schemes newScheme, parse_args lib (default_flags, []) args) of
        (Inl _, _) \<Rightarrow> code = 2 \<and> made s = []
      | (Inr _, HelpShown) \<Rightarrow> code = 0 \<and> made s = []
      | (Inr _, BadUsage) \<Rightarrow> code = 2 \<and> made s = []
      | (Inr scheme, Settings (fl, _)) \<Rightarrow> started scheme fl code s \<or> (\<exists>k < 6. stopped_at k scheme fl code s))"
  by (auto simp: program_def main_def Let_def split: sum.splits parsed.splits prod.splits dest: run_manager_outcome)

text \<open>The flag for the metrics address is parsed and then not used.\<close>

lemma metrics_address_unused: "run_manager api scheme (fl\<lparr>metricsAddr := a\<rparr>) s = run_manager api scheme fl s"
proof -
  have "main_options scheme (fl\<lparr>metricsAddr := a\<rparr>) = main_options scheme fl" by (simp add: main_options_def)
  then show ?thesis by (simp only: run_manager_def)
qed

text \<open>A library in which everything succeeds, and one that cannot bind its port.\<close>

definition quiet_api :: "(unit, unit, unit) manager_api" where
  "quiet_api = \<lparr>api_getConfig = Pair (Inr ()), api_newManager = \<lambda>c m. Pair (Inr ()), api_complete = \<lambda>c. Pair (Inr ()),
     api_addHealthzCheck = \<lambda>n. Pair (Inr ()), api_addReadyzCheck = \<lambda>n. Pair (Inr ()), api_start = Pair (Inr ())\<rparr>"

definition quiet_schemes :: "unit scheme_api" where
  "quiet_schemes = \<lparr>k8s_addToScheme = Inr, builder_add = \<lambda>gv ks. Inr, gateway_install = Inr\<rparr>"

lemma quiet_start:
  "case program quiet_schemes (\<lambda>_. None) quiet_api () [''-leader-elect'', ''--health-probe-bind-address'', '':9'', ''x''] () of
     (code, s) \<Rightarrow> started () \<lparr>metricsAddr = '':8080'', probeAddr = '':9'', enableLeaderElection = True\<rparr> code s"
  by (simp add: program_def init_scheme_def AddToScheme_def quiet_schemes_def main_def Let_def default_flags_def flag_kind_def
      set_flag_def parse_bool_def run_manager_def SetupWithManager_def make_call_def quiet_api_def error_of_def log_to_def
      started_def setup_calls_def)

lemma busy_port_start:
  "case program quiet_schemes (\<lambda>_. None) (quiet_api\<lparr>api_start := Pair (Inl ''port in use'')\<rparr>) () [] () of
     (code, s) \<Rightarrow> stopped_at 5 () default_flags code s"
  by (simp add: program_def init_scheme_def AddToScheme_def quiet_schemes_def main_def Let_def default_flags_def
      run_manager_def SetupWithManager_def make_call_def quiet_api_def error_of_def log_to_def fail_def
      stopped_at_def setup_calls_def setup_errors_def numeral_eq_Suc)

end
