(* ===== verification/Go_Memory.thy ===== *)
theory Go_Memory
  imports Go_Prelude "HOL-Library.State_Monad"
begin

text \<open>
  Memory, for the code whose point is what it shares and what it does not: a heap of cells at numbered
  addresses, with a next free one. A pointer, a slice and a map are an address or nil. An operation is a
  computation of the state monad over the heap.

  \<open>copier\<close> is the contract of a deep copy, and it is closed under the ways in which Go values are built:
  plain values, structs (pairs, and records seen as pairs), slices and pointers.
\<close>

section \<open>Heaps\<close>

record 'c heap =
  cells :: "nat \<Rightarrow> 'c option"
  limit :: nat

definition alloc :: "'c \<Rightarrow> 'c heap \<Rightarrow> nat \<times> 'c heap" where
  "alloc c h = (limit h, h\<lparr>cells := (cells h)(limit h \<mapsto> c), limit := limit h + 1\<rparr>)"

definition store :: "nat \<Rightarrow> 'c \<Rightarrow> 'c heap \<Rightarrow> 'c heap" where
  "store a c h = h\<lparr>cells := (cells h)(a \<mapsto> c)\<rparr>"

lemma cells_store [simp]: "cells (store a c h) = (cells h)(a \<mapsto> c)"
  by (simp add: store_def)

lemma limit_store [simp]: "limit (store a c h) = limit h"
  by (simp add: store_def)

text \<open>The heap that was there is still there.\<close>

definition extends :: "'c heap \<Rightarrow> 'c heap \<Rightarrow> bool" where
  "extends h h' \<longleftrightarrow> limit h \<le> limit h' \<and> (\<forall>a < limit h. cells h' a = cells h a)"

lemma extends_refl [simp]: "extends h h"
  by (simp add: extends_def)

lemma extends_trans: "extends h h' \<Longrightarrow> extends h' h'' \<Longrightarrow> extends h h''"
  by (auto simp: extends_def)

lemma extends_limit: "extends h h' \<Longrightarrow> limit h \<le> limit h'"
  by (simp add: extends_def)

lemma extends_cells: "extends h h' \<Longrightarrow> a < limit h \<Longrightarrow> cells h' a = cells h a"
  by (simp add: extends_def)

lemma extends_store: "extends h h' \<Longrightarrow> limit h \<le> a \<Longrightarrow> extends h (store a c h')"
  by (auto simp: extends_def)

section \<open>Computations\<close>

definition new_cell :: "'c \<Rightarrow> ('c heap, nat) state" where
  "new_cell c = State (alloc c)"

definition read_cell :: "nat \<Rightarrow> ('c heap, 'c option) state" where
  "read_cell a = State (\<lambda>h. (cells h a, h))"

definition write_cell :: "nat \<Rightarrow> 'c \<Rightarrow> ('c heap, unit) state" where
  "write_cell a c = State (\<lambda>h. ((), store a c h))"

lemma run_new_cell [simp]: "run_state (new_cell c) h = alloc c h"
  by (simp add: new_cell_def)

lemma run_read_cell [simp]: "run_state (read_cell a) h = (cells h a, h)"
  by (simp add: read_cell_def)

lemma run_write_cell [simp]: "run_state (write_cell a c) h = ((), store a c h)"
  by (simp add: write_cell_def)

section \<open>The contract of a deep copy\<close>

text \<open>\<open>look\<close> is what a value denotes when its addresses are followed, \<open>None\<close> if one of them leads nowhere or
  to a cell of another type; \<open>refs\<close> are the addresses it reaches.\<close>

locale copier =
  fixes look :: "'c heap \<Rightarrow> 'v \<Rightarrow> 't option"
    and refs :: "'c heap \<Rightarrow> 'v \<Rightarrow> nat set"
    and copy :: "'v \<Rightarrow> ('c heap, 'v) state"
  assumes look_frame: "(\<And>a. a \<in> refs h v \<Longrightarrow> cells h' a = cells h a) \<Longrightarrow> look h' v = look h v"
    and refs_frame: "(\<And>a. a \<in> refs h v \<Longrightarrow> cells h' a = cells h a) \<Longrightarrow> refs h' v = refs h v"
    and copied: "look h v = Some t \<Longrightarrow> refs h v \<subseteq> {..<limit h} \<Longrightarrow> run_state (copy v) h = (w, h') \<Longrightarrow>
      extends h h' \<and> look h' w = Some t \<and> refs h' w \<subseteq> {limit h..<limit h'}"
begin

text \<open>Values that were there before keep their meaning while the heap grows.\<close>

lemma kept:
  assumes "refs h v \<subseteq> {..<limit h}" "extends h h'"
  shows "look h' v = look h v" "refs h' v = refs h v"
proof -
  have same: "cells h' a = cells h a" if "a \<in> refs h v" for a
    using assms that by (blast intro: extends_cells)
  show "look h' v = look h v" by (rule look_frame) (rule same)
  show "refs h' v = refs h v" by (rule refs_frame) (rule same)
qed

text \<open>Whatever is written through the copy, the original does not change.\<close>

lemma isolated:
  assumes "look h v = Some t" "refs h v \<subseteq> {..<limit h}" "run_state (copy v) h = (w, h')"
    and "\<And>a. a \<notin> refs h' w \<Longrightarrow> cells h'' a = cells h' a"
  shows "look h'' v = Some t"
proof -
  from copied [OF assms(1-3)] have "extends h h'" "refs h' w \<subseteq> {limit h..<limit h'}" by blast+
  then have same: "cells h'' a = cells h a" if "a \<in> refs h v" for a
  proof -
    from that assms(2) have a: "a < limit h" by blast
    with \<open>refs h' w \<subseteq> {limit h..<limit h'}\<close> have "a \<notin> refs h' w" by auto
    with a assms(4) \<open>extends h h'\<close> show ?thesis by (simp add: extends_cells)
  qed
  show ?thesis using look_frame [OF same] assms(1) by simp
qed

end

section \<open>Values without addresses\<close>

definition plain_look :: "'c heap \<Rightarrow> 'v \<Rightarrow> 'v option" where
  "plain_look h v = Some v"

definition plain_refs :: "'c heap \<Rightarrow> 'v \<Rightarrow> nat set" where
  "plain_refs h v = {}"

lemma copier_plain: "(\<And>v. f v = v) \<Longrightarrow> copier plain_look plain_refs (\<lambda>v. State_Monad.return (f v))"
  by unfold_locales (auto simp: plain_look_def plain_refs_def)

section \<open>Pairs\<close>

definition pair_look :: "('c heap \<Rightarrow> 'v \<Rightarrow> 't option) \<Rightarrow> ('c heap \<Rightarrow> 'u \<Rightarrow> 's option) \<Rightarrow> 'c heap \<Rightarrow> 'v \<times> 'u \<Rightarrow> ('t \<times> 's) option" where
  "pair_look L M h p = (case (L h (fst p), M h (snd p)) of (Some t, Some s) \<Rightarrow> Some (t, s) | _ \<Rightarrow> None)"

definition pair_refs :: "('c heap \<Rightarrow> 'v \<Rightarrow> nat set) \<Rightarrow> ('c heap \<Rightarrow> 'u \<Rightarrow> nat set) \<Rightarrow> 'c heap \<Rightarrow> 'v \<times> 'u \<Rightarrow> nat set" where
  "pair_refs R Q h p = R h (fst p) \<union> Q h (snd p)"

definition copy_pair ::
  "('v \<Rightarrow> ('c heap, 'v) state) \<Rightarrow> ('u \<Rightarrow> ('c heap, 'u) state) \<Rightarrow> 'v \<times> 'u \<Rightarrow> ('c heap, 'v \<times> 'u) state" where
  "copy_pair C D p = do { v \<leftarrow> C (fst p); u \<leftarrow> D (snd p); State_Monad.return (v, u) }"

lemma pair_look_Some:
  "pair_look L M h p = Some t \<longleftrightarrow> L h (fst p) = Some (fst t) \<and> M h (snd p) = Some (snd t)"
  by (cases t) (auto simp: pair_look_def split: option.splits)

lemma copied_first:
  assumes C: "copier L R C" and v: "L h v = Some t" "R h v \<subseteq> {..<limit h}"
    and run: "run_state (C v) h = (w, h1)" "extends h1 h'"
  shows "extends h h'" "L h' w = Some t" "R h' w \<subseteq> {limit h..<limit h'}"
proof -
  from copier.copied [OF C v run(1)] have w: "extends h h1" "L h1 w = Some t" "R h1 w \<subseteq> {limit h..<limit h1}" by blast+
  from w(1) run(2) show "extends h h'" by (rule extends_trans)
  from w(3) have "R h1 w \<subseteq> {..<limit h1}" by auto
  note kept = copier.kept [OF C this run(2)]
  from kept(1) w(2) show "L h' w = Some t" by simp
  from kept(2) w(3) extends_limit [OF run(2)] show "R h' w \<subseteq> {limit h..<limit h'}" by auto
qed

lemma copied_extends: "copier L R C \<Longrightarrow> L h v = Some t \<Longrightarrow> R h v \<subseteq> {..<limit h} \<Longrightarrow> run_state (C v) h = (w, h') \<Longrightarrow> extends h h'"
  using copier.copied [of L R C h v t w h'] by simp

lemma copier_pair:
  fixes L :: "'c heap \<Rightarrow> 'v \<Rightarrow> 't option" and M :: "'c heap \<Rightarrow> 'u \<Rightarrow> 's option"
  assumes C: "copier L R C" and D: "copier M Q D"
  shows "copier (pair_look L M) (pair_refs R Q) (copy_pair C D)"
proof
  fix h h' :: "'c heap" and p :: "'v \<times> 'u"
  assume same: "\<And>a. a \<in> pair_refs R Q h p \<Longrightarrow> cells h' a = cells h a"
  have "L h' (fst p) = L h (fst p)" "R h' (fst p) = R h (fst p)"
    using copier.look_frame [OF C, of h "fst p" h'] copier.refs_frame [OF C, of h "fst p" h'] same
    by (simp_all add: pair_refs_def)
  moreover have "M h' (snd p) = M h (snd p)" "Q h' (snd p) = Q h (snd p)"
    using copier.look_frame [OF D, of h "snd p" h'] copier.refs_frame [OF D, of h "snd p" h'] same
    by (simp_all add: pair_refs_def)
  ultimately show "pair_look L M h' p = pair_look L M h p" "pair_refs R Q h' p = pair_refs R Q h p"
    by (simp_all add: pair_look_def pair_refs_def)
next
  fix h p t w h'
  assume look: "pair_look L M h p = Some t" and below: "pair_refs R Q h p \<subseteq> {..<limit h}"
    and run: "run_state (copy_pair C D p) h = (w, h')"
  from look have l: "L h (fst p) = Some (fst t)" "M h (snd p) = Some (snd t)" by (simp_all add: pair_look_Some)
  from below have b: "R h (fst p) \<subseteq> {..<limit h}" "Q h (snd p) \<subseteq> {..<limit h}" by (simp_all add: pair_refs_def)
  obtain v h1 u where c: "run_state (C (fst p)) h = (v, h1)" "run_state (D (snd p)) h1 = (u, h')" and w: "w = (v, u)"
    using run by (auto simp: copy_pair_def split: prod.splits)
  note v = copied_extends [OF C l(1) b(1) c(1)]
  have "M h1 (snd p) = Some (snd t)" "Q h1 (snd p) \<subseteq> {..<limit h1}"
    using copier.kept [OF D b(2) v] l(2) b(2) extends_limit [OF v] by auto
  from copier.copied [OF D this c(2)] have u: "extends h1 h'" "M h' u = Some (snd t)" "Q h' u \<subseteq> {limit h1..<limit h'}"
    by blast+
  with copied_first [OF C l(1) b(1) c(1) u(1)] extends_limit [OF v]
  show "extends h h' \<and> pair_look L M h' w = Some t \<and> pair_refs R Q h' w \<subseteq> {limit h..<limit h'}"
    by (auto simp: w pair_look_Some pair_refs_def)
qed

section \<open>Structs\<close>

text \<open>A struct \<open>s\<close> seen as its fields that hold addresses, \<open>parts s\<close>, and the rest, \<open>rest s\<close>, which the
  assignment \<open>*out = *in\<close> copies.\<close>

definition view_look :: "('s \<Rightarrow> 'r) \<Rightarrow> ('s \<Rightarrow> 'v) \<Rightarrow> ('c heap \<Rightarrow> 'v \<Rightarrow> 't option) \<Rightarrow> 'c heap \<Rightarrow> 's \<Rightarrow> ('r \<times> 't) option" where
  "view_look rest parts L h s = map_option (Pair (rest s)) (L h (parts s))"

definition view_refs :: "('s \<Rightarrow> 'v) \<Rightarrow> ('c heap \<Rightarrow> 'v \<Rightarrow> nat set) \<Rightarrow> 'c heap \<Rightarrow> 's \<Rightarrow> nat set" where
  "view_refs parts R h s = R h (parts s)"

lemma copier_view:
  fixes L :: "'c heap \<Rightarrow> 'v \<Rightarrow> 't option"
  assumes C: "copier L R C"
    and copy: "\<And>s. copy s = do { w \<leftarrow> C (parts s); State_Monad.return (rebuild s w) }"
    and view: "\<And>s w. parts (rebuild s w) = w" "\<And>s w. rest (rebuild s w) = rest s"
  shows "copier (view_look rest parts L) (view_refs parts R) copy"
proof
  fix h s t w h'
  assume "view_look rest parts L h s = Some t" and below: "view_refs parts R h s \<subseteq> {..<limit h}"
    and run: "run_state (copy s) h = (w, h')"
  then obtain u where u: "L h (parts s) = Some u" "t = (rest s, u)" by (auto simp: view_look_def)
  from run obtain v where v: "run_state (C (parts s)) h = (v, h')" "w = rebuild s v"
    by (auto simp: copy split: prod.splits)
  from copier.copied [OF C u(1) below [unfolded view_refs_def] v(1)] show
    "extends h h' \<and> view_look rest parts L h' w = Some t \<and> view_refs parts R h' w \<subseteq> {limit h..<limit h'}"
    by (simp add: v(2) view u(2) view_look_def view_refs_def)
next
  fix h h' :: "'c heap" and s
  assume "\<And>a. a \<in> view_refs parts R h s \<Longrightarrow> cells h' a = cells h a"
  then show "view_look rest parts L h' s = view_look rest parts L h s" "view_refs parts R h' s = view_refs parts R h s"
    using copier.look_frame [OF C, of h "parts s" h'] copier.refs_frame [OF C, of h "parts s" h']
    by (simp_all add: view_look_def view_refs_def)
qed

section \<open>Slices\<close>

primrec list_look :: "('c heap \<Rightarrow> 'v \<Rightarrow> 't option) \<Rightarrow> 'c heap \<Rightarrow> 'v list \<Rightarrow> 't list option" where
  "list_look L h [] = Some []"
| "list_look L h (v # vs) = (case (L h v, list_look L h vs) of (Some t, Some ts) \<Rightarrow> Some (t # ts) | _ \<Rightarrow> None)"

primrec list_refs :: "('c heap \<Rightarrow> 'v \<Rightarrow> nat set) \<Rightarrow> 'c heap \<Rightarrow> 'v list \<Rightarrow> nat set" where
  "list_refs R h [] = {}"
| "list_refs R h (v # vs) = R h v \<union> list_refs R h vs"

lemma list_frame:
  assumes C: "copier L R C"
  shows "(\<And>a. a \<in> list_refs R h vs \<Longrightarrow> cells h' a = cells h a) \<Longrightarrow>
    list_look L h' vs = list_look L h vs \<and> list_refs R h' vs = list_refs R h vs"
proof (induction vs)
  case (Cons v vs)
  then have "L h' v = L h v" "R h' v = R h v"
    using copier.look_frame [OF C, of h v h'] copier.refs_frame [OF C, of h v h'] by simp_all
  with Cons show ?case by simp
qed simp

lemma list_copied:
  assumes C: "copier L R C"
  shows "list_look L h vs = Some ts \<Longrightarrow> list_refs R h vs \<subseteq> {..<limit h} \<Longrightarrow>
    run_state (State_Monad.traverse_list C vs) h = (ws, h') \<Longrightarrow>
    extends h h' \<and> list_look L h' ws = Some ts \<and> list_refs R h' ws \<subseteq> {limit h..<limit h'}"
proof (induction vs arbitrary: h ts ws)
  case (Cons v vs)
  from Cons.prems(1) obtain t ts' where l: "L h v = Some t" "list_look L h vs = Some ts'" and ts: "ts = t # ts'"
    by (auto split: option.splits)
  from Cons.prems(2) have b: "R h v \<subseteq> {..<limit h}" "list_refs R h vs \<subseteq> {..<limit h}" by simp_all
  obtain w h1 ws' where c: "run_state (C v) h = (w, h1)" "run_state (State_Monad.traverse_list C vs) h1 = (ws', h')"
    and ws: "ws = w # ws'"
    using Cons.prems(3) by (auto split: prod.splits)
  note x = copied_extends [OF C l(1) b(1) c(1)]
  have "cells h1 a = cells h a" if "a \<in> list_refs R h vs" for a using that b(2) x by (blast intro: extends_cells)
  from list_frame [OF C this] l(2) b(2) extends_limit [OF x]
  have "list_look L h1 vs = Some ts'" "list_refs R h1 vs \<subseteq> {..<limit h1}" by auto
  from Cons.IH [OF this c(2)] have
    u: "extends h1 h'" "list_look L h' ws' = Some ts'" "list_refs R h' ws' \<subseteq> {limit h1..<limit h'}" by blast+
  with copied_first [OF C l(1) b(1) c(1) u(1)] extends_limit [OF x] show ?case by (auto simp: ws ts)
qed simp

lemma copier_list: "copier L R C \<Longrightarrow> copier (list_look L) (list_refs R) (State_Monad.traverse_list C)"
  using list_frame [of L R C] list_copied [of L R C] by (intro copier.intro) blast+

section \<open>Pointers\<close>

text \<open>A pointer to a value of a Go type, which \<open>get\<close> and \<open>put\<close> take out of a cell and put into one. The copy is
  allocated first, with what the original holds, and then filled. A slice is a pointer to the list of its
  elements, a map one to its table.\<close>

definition points_to :: "('c \<Rightarrow> 'v option) \<Rightarrow> 'c heap \<Rightarrow> nat \<Rightarrow> 'v option" where
  "points_to get h a = Option.bind (cells h a) get"

definition ptr_look :: "('c \<Rightarrow> 'v option) \<Rightarrow> ('c heap \<Rightarrow> 'v \<Rightarrow> 't option) \<Rightarrow> 'c heap \<Rightarrow> nat option \<Rightarrow> 't option option" where
  "ptr_look get L h p =
     (case p of None \<Rightarrow> Some None
      | Some a \<Rightarrow> (case points_to get h a of None \<Rightarrow> None | Some v \<Rightarrow> map_option Some (L h v)))"

definition ptr_refs :: "('c \<Rightarrow> 'v option) \<Rightarrow> ('c heap \<Rightarrow> 'v \<Rightarrow> nat set) \<Rightarrow> 'c heap \<Rightarrow> nat option \<Rightarrow> nat set" where
  "ptr_refs get R h p =
     (case p of None \<Rightarrow> {}
      | Some a \<Rightarrow> insert a (case points_to get h a of None \<Rightarrow> {} | Some v \<Rightarrow> R h v))"

definition copy_ptr ::
  "('c \<Rightarrow> 'v option) \<Rightarrow> ('v \<Rightarrow> 'c) \<Rightarrow> ('v \<Rightarrow> ('c heap, 'v) state) \<Rightarrow> nat option \<Rightarrow> ('c heap, nat option) state" where
  "copy_ptr get put C p =
     (case p of None \<Rightarrow> State_Monad.return None
      | Some a \<Rightarrow> do {
          c \<leftarrow> read_cell a;
          (case Option.bind c get of
             None \<Rightarrow> State_Monad.return None
           | Some v \<Rightarrow> do {
               b \<leftarrow> new_cell (put v);
               w \<leftarrow> C v;
               _ \<leftarrow> write_cell b (put w);
               State_Monad.return (Some b) }) })"

lemma alloc_extends: "alloc c h = (a, h1) \<Longrightarrow> a = limit h \<and> limit h1 = limit h + 1 \<and> extends h h1"
  by (auto simp: alloc_def extends_def)

lemma ptr_copied:
  fixes L :: "'c heap \<Rightarrow> 'v \<Rightarrow> 't option"
  assumes C: "copier L R C" and slot: "\<And>v. get (put v) = Some v"
    and v: "points_to get h a = Some v" "L h v = Some t" "R h v \<subseteq> {..<limit h}"
  obtains b h' w where "run_state (copy_ptr get put C (Some a)) h = (Some b, h')" "extends h h'" "limit h \<le> b" "b < limit h'"
    "points_to get h' b = Some w" "L h' w = Some t" "R h' w \<subseteq> {limit h..<limit h'}"
proof -
  obtain h1 where h1: "alloc (put v) h = (limit h, h1)" by (simp add: alloc_def)
  from alloc_extends [OF h1] have e1: "extends h h1" "limit h1 = limit h + 1" by simp_all
  obtain w h2 where c: "run_state (C v) h1 = (w, h2)" by fastforce
  have "L h1 v = Some t" "R h1 v \<subseteq> {..<limit h1}"
    using copier.kept [OF C v(3) e1(1)] v(2,3) e1(2) by auto
  from copier.copied [OF C this c] have w: "extends h1 h2" "L h2 w = Some t" "R h2 w \<subseteq> {limit h1..<limit h2}" by blast+
  let ?h = "store (limit h) (put w) h2"
  have same: "cells ?h x = cells h2 x" if "x \<in> R h2 w" for x
  proof -
    from that w(3) have "limit h1 \<le> x" by auto
    with e1(2) show ?thesis by simp
  qed
  show thesis
  proof (rule that [of "limit h" ?h w])
    show "run_state (copy_ptr get put C (Some a)) h = (Some (limit h), ?h)"
      using v(1) h1 c by (simp add: copy_ptr_def points_to_def)
    show "extends h ?h" using extends_store [OF extends_trans [OF e1(1) w(1)]] by simp
    show "points_to get ?h (limit h) = Some w" by (simp add: points_to_def slot)
    show "L ?h w = Some t" using copier.look_frame [OF C same] w(2) by simp
    have "R ?h w = R h2 w" by (rule copier.refs_frame [OF C same])
    with w(3) e1(2) show "R ?h w \<subseteq> {limit h..<limit ?h}" by auto
    show "limit h < limit ?h" using extends_limit [OF w(1)] e1(2) by simp
  qed simp
qed

lemma copier_ptr:
  fixes L :: "'c heap \<Rightarrow> 'v \<Rightarrow> 't option"
  assumes C: "copier L R C" and slot: "\<And>v. get (put v) = Some v"
  shows "copier (ptr_look get L) (ptr_refs get R) (copy_ptr get put C)"
proof
  fix h h' :: "'c heap" and p
  assume same: "\<And>a. a \<in> ptr_refs get R h p \<Longrightarrow> cells h' a = cells h a"
  have "ptr_look get L h' p = ptr_look get L h p \<and> ptr_refs get R h' p = ptr_refs get R h p"
  proof (cases p)
    case (Some a)
    from same [of a] Some have a: "points_to get h' a = points_to get h a" by (simp add: ptr_refs_def points_to_def)
    show ?thesis
    proof (cases "points_to get h a")
      case None
      with Some a show ?thesis by (simp add: ptr_look_def ptr_refs_def)
    next
      case v: (Some v)
      have "L h' v = L h v" "R h' v = R h v"
        using copier.look_frame [OF C, of h v h'] copier.refs_frame [OF C, of h v h'] same Some v
        by (simp_all add: ptr_refs_def)
      with Some a v show ?thesis by (simp add: ptr_look_def ptr_refs_def)
    qed
  qed (simp add: ptr_look_def ptr_refs_def)
  then show "ptr_look get L h' p = ptr_look get L h p" "ptr_refs get R h' p = ptr_refs get R h p" by simp_all
next
  fix h p t q h'
  assume look: "ptr_look get L h p = Some t" and below: "ptr_refs get R h p \<subseteq> {..<limit h}"
    and run: "run_state (copy_ptr get put C p) h = (q, h')"
  show "extends h h' \<and> ptr_look get L h' q = Some t \<and> ptr_refs get R h' q \<subseteq> {limit h..<limit h'}"
  proof (cases p)
    case None
    with look run show ?thesis by (simp add: ptr_look_def ptr_refs_def copy_ptr_def)
  next
    case (Some a)
    from look Some obtain v u where v: "points_to get h a = Some v" "L h v = Some u" "t = Some u"
      by (auto simp: ptr_look_def split: option.splits)
    from below Some v have b: "R h v \<subseteq> {..<limit h}" by (simp add: ptr_refs_def)
    from ptr_copied [OF C slot v(1,2) b] obtain c g w where
      "run_state (copy_ptr get put C (Some a)) h = (Some c, g)" "extends h g" "limit h \<le> c" "c < limit g"
      "points_to get g c = Some w" "L g w = Some u" "R g w \<subseteq> {limit h..<limit g}" by metis
    with run Some v(3) show ?thesis by (auto simp: ptr_look_def ptr_refs_def)
  qed
qed

text \<open>What a \<open>DeepCopy\<close> promises its caller: the copy denotes the same, its cells are all new, and nothing that
  is written to them shows through the original.\<close>

lemma ptr_isolated:
  assumes C: "copier L R C" and slot: "\<And>v. get (put v) = Some v"
    and a: "ptr_look get L h (Some a) = Some t" "ptr_refs get R h (Some a) \<subseteq> {..<limit h}"
  shows "\<exists>b h'. run_state (copy_ptr get put C (Some a)) h = (Some b, h') \<and> ptr_look get L h' (Some b) = Some t \<and>
    ptr_refs get R h' (Some b) \<inter> {..<limit h} = {} \<and>
    (\<forall>h''. (\<forall>x. x \<notin> ptr_refs get R h' (Some b) \<longrightarrow> cells h'' x = cells h' x) \<longrightarrow> ptr_look get L h'' (Some a) = Some t)"
proof -
  note P = copier_ptr [OF C slot]
  obtain q h' where run: "run_state (copy_ptr get put C (Some a)) h = (q, h')" by fastforce
  from a(1) obtain v u where v: "points_to get h a = Some v" "L h v = Some u"
    by (auto simp: ptr_look_def split: option.splits)
  from a(2) v have "R h v \<subseteq> {..<limit h}" by (simp add: ptr_refs_def)
  from ptr_copied [OF C slot v this] obtain b where b: "q = Some b" using run by (metis prod.inject)
  from copier.copied [OF P a run] have "ptr_look get L h' q = Some t" "ptr_refs get R h' q \<subseteq> {limit h..<limit h'}" by blast+
  moreover from this(2) have "ptr_refs get R h' q \<inter> {..<limit h} = {}" by auto
  moreover have "ptr_look get L h'' (Some a) = Some t" if "\<forall>x. x \<notin> ptr_refs get R h' q \<longrightarrow> cells h'' x = cells h' x" for h''
    by (rule copier.isolated [OF P a run]) (use that in blast)
  ultimately show ?thesis using run b by blast
qed

end
