(* ===== verification/Deep_Copy.thy ===== *)
theory Deep_Copy
  imports Go_Memory
begin

text \<open>
  Copying nested maps (pkg/deepcopy/deepcopy.go). What the function is for does not show in values, so
  the maps live in a heap here: a \<open>map[string]interface{}\<close> is an address or nil, an entry of a map is
  another such map or anything else, \<open>HVal\<close>, which an assignment copies as it is (a slice or a map of
  another type by its reference). The result must hold the same tree, share no map with the original and
  leave the original alone.

  A map may contain itself; the recursion then never ends, so it runs on fuel, and the theorem says that
  the depth of the nesting is enough. \<open>ord\<close> is the order in which \<open>range\<close> yields the entries of a map.
\<close>

section \<open>The heap\<close>

datatype 'x hval = HMap "nat option" | HVal 'x

type_synonym 'x cell = "(string, 'x hval) fmap"

text \<open>\<open>make(map[string]interface{})\<close> and \<open>m[key] = value\<close>\<close>

definition make_map :: "'x cell heap \<Rightarrow> nat \<times> 'x cell heap" where
  "make_map h = alloc fmempty h"

definition set_entry :: "nat \<Rightarrow> string \<Rightarrow> 'x hval \<Rightarrow> 'x cell heap \<Rightarrow> 'x cell heap" where
  "set_entry a key v h =
     (case cells h a of None \<Rightarrow> h | Some m \<Rightarrow> store a (fmupd key v m) h)"

definition range_entries ::
  "('x cell \<Rightarrow> (string \<times> 'x hval) list) \<Rightarrow> 'x cell heap \<Rightarrow> nat option \<Rightarrow> (string \<times> 'x hval) list" where
  "range_entries ord h p =
     (case p of None \<Rightarrow> [] | Some a \<Rightarrow> (case cells h a of None \<Rightarrow> [] | Some m \<Rightarrow> ord m))"

section \<open>The code\<close>

fun DeepCopyMap ::
  "('x cell \<Rightarrow> (string \<times> 'x hval) list) \<Rightarrow> nat \<Rightarrow> nat option \<Rightarrow> 'x cell heap \<Rightarrow> (nat \<times> 'x cell heap) option"
  and copy_entries ::
  "('x cell \<Rightarrow> (string \<times> 'x hval) list) \<Rightarrow> nat \<Rightarrow> nat \<Rightarrow> (string \<times> 'x hval) list \<Rightarrow> 'x cell heap \<Rightarrow>
   (nat \<times> 'x cell heap) option" where
  "DeepCopyMap ord 0 original h = None"
| "DeepCopyMap ord (Suc fuel) original h =
     (case make_map h of (copy, h) \<Rightarrow> copy_entries ord fuel copy (range_entries ord h original) h)"
| "copy_entries ord fuel copy [] h = Some (copy, h)"
| "copy_entries ord fuel copy ((key, value) # rest) h =
     (case value of
        HMap subMap \<Rightarrow>
          (case DeepCopyMap ord fuel subMap h of
             None \<Rightarrow> None
           | Some (c, h) \<Rightarrow> copy_entries ord fuel copy rest (set_entry copy key (HMap (Some c)) h))
      | HVal x \<Rightarrow> copy_entries ord fuel copy rest (set_entry copy key value h))"

section \<open>Trees\<close>

datatype 'x tree = TMap "(string, 'x tree) fmap" | TVal 'x

text \<open>The tree that a value holds, if its maps are nested less than \<open>n\<close> deep.\<close>

fun read_tree :: "nat \<Rightarrow> 'x cell heap \<Rightarrow> 'x hval \<Rightarrow> 'x tree option" where
  "read_tree n h (HVal x) = Some (TVal x)"
| "read_tree 0 h (HMap p) = None"
| "read_tree (Suc n) h (HMap None) = Some (TMap fmempty)"
| "read_tree (Suc n) h (HMap (Some a)) =
     (case cells h a of
        None \<Rightarrow> None
      | Some m \<Rightarrow>
          (if \<forall>v \<in> fmran' m. read_tree n h v \<noteq> None
           then Some (TMap (fmmap (\<lambda>v. the (read_tree n h v)) m)) else None))"

text \<open>The maps that a value reaches.\<close>

inductive reach :: "'x cell heap \<Rightarrow> 'x hval \<Rightarrow> nat \<Rightarrow> bool" for h where
  reach_here: "reach h (HMap (Some a)) a"
| reach_entry: "cells h a = Some m \<Longrightarrow> fmlookup m k = Some v \<Longrightarrow> reach h v b \<Longrightarrow> reach h (HMap (Some a)) b"

inductive_cases reach_valE [elim!]: "reach h (HVal x) b"
inductive_cases reach_nilE [elim!]: "reach h (HMap None) b"
inductive_cases reach_mapE: "reach h (HMap (Some a)) b"

text \<open>No address is dangling.\<close>

definition valid :: "'x cell heap \<Rightarrow> bool" where
  "valid h \<longleftrightarrow> (\<forall>a. cells h a \<noteq> None \<longleftrightarrow> a < limit h) \<and>
     (\<forall>a m k b. cells h a = Some m \<longrightarrow> fmlookup m k = Some (HMap (Some b)) \<longrightarrow> b < limit h)"

section \<open>Frames\<close>

lemma reach_frame:
  assumes "reach h v b" "\<And>a. reach h v a \<Longrightarrow> cells h' a = cells h a"
  shows "reach h' v b"
  using assms
proof (induction rule: reach.induct)
  case (reach_entry a m k v b)
  have "cells h' a = Some m" using reach_entry.prems [of a] reach_entry.hyps(1) reach_here by metis
  moreover have "reach h' v b"
    using reach_entry.IH reach_entry.prems reach.reach_entry [OF reach_entry.hyps(1,2)] by blast
  ultimately show ?case using reach_entry.hyps(2) by (blast intro: reach.reach_entry)
qed (rule reach_here)

lemma reach_frame_iff:
  assumes "\<And>a. reach h v a \<Longrightarrow> cells h' a = cells h a"
  shows "reach h' v b \<longleftrightarrow> reach h v b"
proof
  assume "reach h' v b"
  then show "reach h v b" using assms
  proof (induction rule: reach.induct)
    case (reach_entry a m k v b)
    have m: "cells h a = Some m" using reach_entry.prems [of a] reach_entry.hyps(1) reach_here by metis
    have "reach h v b"
      by (rule reach_entry.IH) (use reach_entry.prems reach.reach_entry [OF m reach_entry.hyps(2)] in blast)
    with m reach_entry.hyps(2) show ?case by (blast intro: reach.reach_entry)
  qed (rule reach_here)
qed (rule reach_frame [OF _ assms])

lemma read_frame:
  assumes "\<And>a. reach h v a \<Longrightarrow> cells h' a = cells h a"
  shows "read_tree n h' v = read_tree n h v"
  using assms
proof (induction n h v rule: read_tree.induct)
  case (4 n h a)
  have a: "cells h' a = cells h a" by (rule "4.prems") (rule reach_here)
  show ?case
  proof (cases "cells h a")
    case (Some m)
    have "read_tree n h' v = read_tree n h v" if "v \<in> fmran' m" for v
    proof -
      from that obtain k where k: "fmlookup m k = Some v" by (auto simp: fmran'_def ran_def)
      show ?thesis
        by (rule "4.IH"(1) [OF Some that]) (use "4.prems" reach_entry [OF Some k] in blast)
    qed
    then show ?thesis using a Some by (auto intro!: fmap.map_cong_simp)
  qed (simp add: a)
qed simp_all

lemma valid_entry:
  "valid h \<Longrightarrow> cells h a = Some m \<Longrightarrow> fmlookup m k = Some (HMap (Some b)) \<Longrightarrow> b < limit h"
  unfolding valid_def by blast

lemma reach_below: "reach h v b \<Longrightarrow> valid h \<Longrightarrow> (\<And>a. v = HMap (Some a) \<Longrightarrow> a < limit h) \<Longrightarrow> b < limit h"
proof (induction rule: reach.induct)
  case (reach_entry a m k v b)
  from reach_entry.hyps(1,2) valid_entry [OF reach_entry.prems(1)] have "\<And>a. v = HMap (Some a) \<Longrightarrow> a < limit h" by blast
  with reach_entry.IH reach_entry.prems(1) show ?case by blast
qed simp

lemma cells_set_entry: "cells h a = Some m \<Longrightarrow> cells (set_entry a k v h) = (cells h)(a \<mapsto> fmupd k v m)"
  by (simp add: set_entry_def)

lemma limit_set_entry [simp]: "limit (set_entry a k v h) = limit h"
  by (simp add: set_entry_def split: option.splits)

lemma valid_set_entry:
  assumes "valid h" "cells h a = Some m" "\<And>b. v = HMap (Some b) \<Longrightarrow> b < limit h"
  shows "valid (set_entry a k v h)"
  using assms unfolding valid_def by (auto simp: cells_set_entry)

lemma make_map_fresh:
  assumes "valid h" "make_map h = (c, h')"
  shows "c = limit h" "valid h'" "limit h' = limit h + 1" "cells h' = (cells h)(c \<mapsto> fmempty)"
proof -
  from assms(2) have h': "c = limit h" "h' = h\<lparr>cells := (cells h)(c \<mapsto> fmempty), limit := limit h + 1\<rparr>"
    by (auto simp: make_map_def alloc_def)
  then show "c = limit h" "limit h' = limit h + 1" "cells h' = (cells h)(c \<mapsto> fmempty)" by simp_all
  show "valid h'"
    using assms(1) unfolding valid_def h' by (auto intro: less_SucI)
qed

section \<open>The loop\<close>

text \<open>Between two rounds: the entries in \<open>m\<close>, the copy so far, hold the trees \<open>tr\<close> and reach maps made after
  the copy; those still to come hold their trees and reach maps that were there before it.\<close>

definition copying ::
  "nat \<Rightarrow> (string \<Rightarrow> 'x tree) \<Rightarrow> nat \<Rightarrow> (string \<times> 'x hval) list \<Rightarrow> 'x cell heap \<Rightarrow> 'x cell \<Rightarrow> bool" where
  "copying n tr copy es h m \<longleftrightarrow> valid h \<and> copy < limit h \<and> cells h copy = Some m \<and>
     (\<forall>(k, v) \<in> set es. read_tree n h v = Some (tr k) \<and> (\<forall>b. reach h v b \<longrightarrow> b < copy)) \<and>
     (\<forall>k v. fmlookup m k = Some v \<longrightarrow> read_tree n h v = Some (tr k) \<and> (\<forall>b. reach h v b \<longrightarrow> copy < b))"

lemma copying_step:
  assumes inv: "copying n tr copy ((k, v) # es) h m"
    and ha: "valid ha" "limit h \<le> limit ha" "\<forall>a < limit h. cells ha a = cells h a"
    and w: "\<And>b. w = HMap (Some b) \<Longrightarrow> b < limit ha" "read_tree n ha w = Some (tr k)" "\<And>b. reach ha w b \<Longrightarrow> copy < b"
  shows "copying n tr copy es (set_entry copy k w ha) (fmupd k w m)"
proof -
  let ?h = "set_entry copy k w ha"
  from inv have valid: "valid h" and c: "copy < limit h" "cells h copy = Some m" by (auto simp: copying_def)
  with ha have ca: "cells ha copy = Some m" by simp
  have off: "read_tree n ?h u = read_tree n ha u \<and> reach ?h u = reach ha u" if "\<not> reach ha u copy" for u
  proof -
    have "cells ?h a = cells ha a" if "reach ha u a" for a
      using that \<open>\<not> reach ha u copy\<close> by (auto simp: cells_set_entry [OF ca])
    then show ?thesis using read_frame reach_frame_iff by blast
  qed
  have earlier: "read_tree n ha u = read_tree n h u \<and> reach ha u = reach h u"
    if "\<And>b. reach h u b \<Longrightarrow> b < limit h" for u
  proof -
    have "cells ha a = cells h a" if "reach h u a" for a using that \<open>\<And>b. reach h u b \<Longrightarrow> b < limit h\<close> ha(3) by blast
    then show ?thesis using read_frame reach_frame_iff by blast
  qed
  have to_come: "read_tree n ?h u = Some (tr l) \<and> (\<forall>b. reach ?h u b \<longrightarrow> b < copy)" if "(l, u) \<in> set es" for l u
  proof -
    have u: "read_tree n h u = Some (tr l)" "\<And>b. reach h u b \<Longrightarrow> b < copy"
      using inv that by (auto simp: copying_def)
    then have "read_tree n ha u = read_tree n h u \<and> reach ha u = reach h u" using earlier c(1) by (meson less_trans)
    moreover from this u(2) have "\<not> reach ha u copy" by auto
    ultimately show ?thesis using off u by simp
  qed
  have so_far: "read_tree n ?h u = Some (tr l) \<and> (\<forall>b. reach ?h u b \<longrightarrow> copy < b)" if "fmlookup m l = Some u" for l u
  proof -
    have u: "read_tree n h u = Some (tr l)" "\<And>b. reach h u b \<Longrightarrow> copy < b"
      using inv that by (auto simp: copying_def)
    have "b < limit h" if "reach h u b" for b
      using reach_below [OF that valid] valid_entry [OF valid c(2)] \<open>fmlookup m l = Some u\<close> by blast
    then have "read_tree n ha u = read_tree n h u \<and> reach ha u = reach h u" using earlier by blast
    moreover from this u(2) have "\<not> reach ha u copy" by auto
    ultimately show ?thesis using off u by simp
  qed
  have "read_tree n ?h w = Some (tr k) \<and> (\<forall>b. reach ?h w b \<longrightarrow> copy < b)"
    using off [of w] w(2,3) less_irrefl by metis
  with to_come so_far show ?thesis
    using valid_set_entry [OF ha(1) ca w(1)] c(1) ha(2) by (auto simp: copying_def cells_set_entry [OF ca])
qed

text \<open>What a call does: the copy is new, reaches new maps only, holds the tree and leaves the heap that was
  there as it was.\<close>

definition deep_copied :: "nat \<Rightarrow> 'x cell heap \<Rightarrow> 'x tree \<Rightarrow> nat \<times> 'x cell heap \<Rightarrow> bool" where
  "deep_copied n h t r \<longleftrightarrow> (case r of (c, h') \<Rightarrow>
     valid h' \<and> c = limit h \<and> c < limit h' \<and> (\<forall>a < limit h. cells h' a = cells h a) \<and>
     read_tree n h' (HMap (Some c)) = Some t \<and> (\<forall>b. reach h' (HMap (Some c)) b \<longrightarrow> limit h \<le> b))"

definition copies :: "('x cell \<Rightarrow> (string \<times> 'x hval) list) \<Rightarrow> nat \<Rightarrow> bool" where
  "copies ord n \<longleftrightarrow> (\<forall>h p t. valid h \<longrightarrow> (\<forall>a. p = Some a \<longrightarrow> a < limit h) \<longrightarrow>
     read_tree n h (HMap p) = Some t \<longrightarrow> (\<exists>r. DeepCopyMap ord n p h = Some r \<and> deep_copied n h t r))"

lemma entries_copied:
  assumes IH: "copies ord n" and inv: "copying n tr copy es h m"
  shows "\<exists>h' m'. copy_entries ord n copy es h = Some (copy, h') \<and> copying n tr copy [] h' m' \<and>
    (\<forall>a < copy. cells h' a = cells h a) \<and> fset (fmdom m') = fset (fmdom m) \<union> fst ` set es"
  using inv
proof (induction es arbitrary: h m)
  case (Cons e es)
  obtain k v where e: "e = (k, v)" by (cases e)
  note inv = Cons.prems [unfolded e]
  have h: "valid h" "copy < limit h" "cells h copy = Some m" "read_tree n h v = Some (tr k)"
    "\<And>b. reach h v b \<Longrightarrow> b < copy"
    using inv by (auto simp: copying_def)
  obtain w ha where step: "copy_entries ord n copy ((k, v) # es) h = copy_entries ord n copy es (set_entry copy k w ha)"
    and ha: "valid ha" "limit h \<le> limit ha" "\<forall>a < limit h. cells ha a = cells h a"
    and w: "\<And>b. w = HMap (Some b) \<Longrightarrow> b < limit ha" "read_tree n ha w = Some (tr k)" "\<And>b. reach ha w b \<Longrightarrow> copy < b"
  proof (cases v)
    case (HVal x)
    show ?thesis
      by (rule that [of v h]) (use HVal h in simp_all, blast)
  next
    case (HMap p)
    have "\<forall>a. p = Some a \<longrightarrow> a < limit h" using h(2,5) HMap reach_here by (meson less_trans)
    with IH [unfolded copies_def, rule_format, of h p "tr k"] h(1,4) HMap obtain r where
      "DeepCopyMap ord n p h = Some r" "deep_copied n h (tr k) r" by auto
    then obtain c ha where call: "DeepCopyMap ord n p h = Some (c, ha)" and d: "deep_copied n h (tr k) (c, ha)"
      by (cases r) auto
    note d = d [unfolded deep_copied_def prod.case]
    then have below: "copy < b" if "reach ha (HMap (Some c)) b" for b
      using that h(2) by (meson less_le_trans)
    from d have ha: "valid ha" "\<forall>a < limit h. cells ha a = cells h a" "c < limit ha"
      "read_tree n ha (HMap (Some c)) = Some (tr k)" "c = limit h" by blast+
    then have "limit h \<le> limit ha" by simp
    with ha show ?thesis
      by (intro that [of "HMap (Some c)" ha]) (use HMap call below in \<open>auto simp del: read_tree.simps\<close>)
  qed
  from copying_step [OF inv ha w]
  obtain h' m' where "copy_entries ord n copy es (set_entry copy k w ha) = Some (copy, h')" "copying n tr copy [] h' m'"
    "\<forall>a < copy. cells h' a = cells (set_entry copy k w ha) a" "fset (fmdom m') = fset (fmdom (fmupd k w m)) \<union> fst ` set es"
    using Cons.IH by blast
  moreover have "cells (set_entry copy k w ha) a = cells h a" if "a < copy" for a
    using that ha(3) h(2,3) by (simp add: cells_set_entry)
  ultimately show ?case using step e by auto
qed auto

lemma fmmap_restored:
  assumes "fset (fmdom m') = fset (fmdom m)"
    and "\<And>k v. fmlookup m' k = Some v \<Longrightarrow> f v = g (the (fmlookup m k))"
  shows "fmmap f m' = fmmap g m"
proof (rule fmap_ext)
  fix k
  show "fmlookup (fmmap f m') k = fmlookup (fmmap g m) k"
  proof (cases "fmlookup m' k")
    case None
    then have "fmlookup m k = None" using assms(1) by (metis fmdom_notD fmdom_notI)
    with None show ?thesis by simp
  next
    case (Some v)
    then obtain w where "fmlookup m k = Some w" using assms(1) by (metis fmdomI fmlookup_dom_iff)
    with Some assms(2) show ?thesis by simp
  qed
qed

text \<open>\<open>range\<close> yields the entries of the map.\<close>

definition ranges :: "('x cell \<Rightarrow> (string \<times> 'x hval) list) \<Rightarrow> bool" where
  "ranges ord \<longleftrightarrow> (\<forall>m. set (ord m) = {(k, v). fmlookup m k = Some v})"

lemma fst_ranged: "ranges ord \<Longrightarrow> fst ` set (ord m) = fset (fmdom m)"
  by (auto simp: ranges_def image_iff fmlookup_dom_iff)

text \<open>What the call has to copy.\<close>

lemma source_entries:
  assumes "ranges ord" "valid h" "\<forall>a. p = Some a \<longrightarrow> a < limit h" "read_tree (Suc n) h (HMap p) = Some t"
  obtains m where "\<And>h'. (\<And>a. a < limit h \<Longrightarrow> cells h' a = cells h a) \<Longrightarrow> range_entries ord h' p = ord m"
    "t = TMap (fmmap (\<lambda>v. the (read_tree n h v)) m)"
    "\<And>k v. fmlookup m k = Some v \<Longrightarrow> read_tree n h v \<noteq> None"
    "\<And>k v b. fmlookup m k = Some v \<Longrightarrow> reach h v b \<Longrightarrow> b < limit h"
proof (cases p)
  case None
  have "ord fmempty = []" using assms(1) [unfolded ranges_def, rule_format, of fmempty] by simp
  then show ?thesis using None assms(4) by (intro that [of fmempty]) (simp_all add: range_entries_def)
next
  case (Some a)
  with assms(4) obtain m where m: "cells h a = Some m" by (auto split: option.splits)
  have below: "b < limit h" if "fmlookup m k = Some v" "reach h v b" for k v b
    using reach_below [OF that(2) assms(2)] valid_entry [OF assms(2) m] that(1) by blast
  show ?thesis
  proof (rule that [of m])
    show "range_entries ord h' p = ord m" if "\<And>a. a < limit h \<Longrightarrow> cells h' a = cells h a" for h'
      using that [of a] assms(3) Some m by (simp add: range_entries_def)
    show "t = TMap (fmmap (\<lambda>v. the (read_tree n h v)) m)"
      using assms(4) Some m by (simp split: if_splits)
    show "read_tree n h v \<noteq> None" if "fmlookup m k = Some v" for k v
      using assms(4) Some m that fmran'I by (fastforce split: if_splits)
  qed (rule below)
qed

lemma copies_all:
  assumes "ranges ord"
  shows "copies ord n"
proof (induction n)
  case 0
  show ?case by (simp add: copies_def)
next
  case (Suc n)
  show ?case unfolding copies_def
  proof (intro allI impI)
    fix h :: "'a cell heap" and p t
    assume h: "valid h" and p: "\<forall>a. p = Some a \<longrightarrow> a < limit h" and t: "read_tree (Suc n) h (HMap p) = Some t"
    obtain m where m: "\<And>h'. (\<And>a. a < limit h \<Longrightarrow> cells h' a = cells h a) \<Longrightarrow> range_entries ord h' p = ord m"
      "t = TMap (fmmap (\<lambda>v. the (read_tree n h v)) m)"
      "\<And>k v. fmlookup m k = Some v \<Longrightarrow> read_tree n h v \<noteq> None"
      "\<And>k v b. fmlookup m k = Some v \<Longrightarrow> reach h v b \<Longrightarrow> b < limit h"
      using source_entries [OF assms h p t] by blast
    obtain h1 where h1: "make_map h = (limit h, h1)" by (simp add: make_map_def alloc_def)
    note fresh = make_map_fresh [OF h h1]
    define tr where "tr = (\<lambda>k. the (read_tree n h (the (fmlookup m k))))"
    have "read_tree n h1 v = Some (tr k) \<and> (\<forall>b. reach h1 v b \<longrightarrow> b < limit h)" if "(k, v) \<in> set (ord m)" for k v
    proof -
      have k: "fmlookup m k = Some v" using that assms by (simp add: ranges_def)
      have same: "cells h1 a = cells h a" if "reach h v a" for a using m(4) [OF k that] fresh(4) by simp
      show ?thesis using read_frame [OF same] reach_frame_iff [OF same] m(3,4) [OF k] k by (auto simp: tr_def)
    qed
    then have "copying n tr (limit h) (ord m) h1 fmempty" using fresh by (auto simp: copying_def)
    from entries_copied [OF Suc.IH this] obtain h' m' where
      call: "copy_entries ord n (limit h) (ord m) h1 = Some (limit h, h')" and c: "copying n tr (limit h) [] h' m'"
      and same: "\<forall>a < limit h. cells h' a = cells h1 a" and dom: "fset (fmdom m') = fset (fmdom m)"
      using fst_ranged [OF assms] by auto
    from c have tree: "read_tree n h' v = Some (tr k)" "\<And>b. reach h' v b \<Longrightarrow> limit h < b" if "fmlookup m' k = Some v" for k v
      using that by (auto simp: copying_def)
    have "fmmap (\<lambda>v. the (read_tree n h' v)) m' = fmmap (\<lambda>v. the (read_tree n h v)) m"
      by (rule fmmap_restored [OF dom]) (simp add: tree(1) tr_def)
    with c tree(1) have "read_tree (Suc n) h' (HMap (Some (limit h))) = Some t"
      by (auto simp: copying_def m(2) fmran'_def ran_def)
    moreover have "limit h \<le> b" if "reach h' (HMap (Some (limit h))) b" for b
      using that by (rule reach_mapE) (use c tree(2) in \<open>auto simp: copying_def dest: less_imp_le\<close>)
    ultimately have "deep_copied (Suc n) h t (limit h, h')"
      using c same fresh(4) by (auto simp: deep_copied_def copying_def)
    moreover have "DeepCopyMap ord (Suc n) p h = Some (limit h, h')"
      using h1 call m(1) [of h1] fresh(4) by simp
    ultimately show "\<exists>r. DeepCopyMap ord (Suc n) p h = Some r \<and> deep_copied (Suc n) h t r" by blast
  qed
qed

section \<open>Not returning\<close>

text \<open>Fuel is not wasted: a call that returns had a tree to copy. So a map that contains itself is never
  copied, however much fuel there is.\<close>

definition returned :: "nat \<Rightarrow> 'x cell heap \<Rightarrow> nat option \<Rightarrow> nat \<times> 'x cell heap \<Rightarrow> bool" where
  "returned n h p r \<longleftrightarrow> (case r of (c, h') \<Rightarrow> valid h' \<and> c = limit h \<and> c < limit h' \<and>
     (\<forall>a < limit h. cells h' a = cells h a) \<and> read_tree n h (HMap p) \<noteq> None)"

definition returns :: "('x cell \<Rightarrow> (string \<times> 'x hval) list) \<Rightarrow> nat \<Rightarrow> bool" where
  "returns ord n \<longleftrightarrow> (\<forall>h p r. valid h \<longrightarrow> (\<forall>a. p = Some a \<longrightarrow> a < limit h) \<longrightarrow>
     DeepCopyMap ord n p h = Some r \<longrightarrow> returned n h p r)"

lemma entry_returned:
  assumes IH: "returns ord n" and h: "valid h" "copy < limit h" "cells h copy = Some m"
    and v: "\<And>b. reach h v b \<Longrightarrow> b < copy"
    and call: "copy_entries ord n copy ((k, v) # es) h = Some r"
  obtains h2 m2 where "copy_entries ord n copy es h2 = Some r" "valid h2" "limit h \<le> limit h2" "cells h2 copy = Some m2"
    "\<And>a. a < limit h \<Longrightarrow> a \<noteq> copy \<Longrightarrow> cells h2 a = cells h a" "read_tree n h v \<noteq> None"
proof (cases v)
  case (HVal x)
  show ?thesis
    by (rule that [of "set_entry copy k v h" "fmupd k v m"])
      (use HVal call h valid_set_entry [OF h(1,3)] in \<open>auto simp: cells_set_entry [OF h(3)]\<close>)
next
  case (HMap p)
  have below: "\<forall>a. p = Some a \<longrightarrow> a < limit h" using h(2) v HMap reach_here by (meson less_trans)
  from call HMap obtain c ha where sub: "DeepCopyMap ord n p h = Some (c, ha)"
    and rest: "copy_entries ord n copy es (set_entry copy k (HMap (Some c)) ha) = Some r"
    by (auto split: option.splits)
  from IH [unfolded returns_def, rule_format, OF h(1) _ sub] below have "returned n h p (c, ha)" by blast
  then have ha: "valid ha" "c = limit h" "c < limit ha" "\<And>a. a < limit h \<Longrightarrow> cells ha a = cells h a"
    "read_tree n h (HMap p) \<noteq> None" by (auto simp: returned_def)
  from ha(4) h(2,3) have ca: "cells ha copy = Some m" by simp
  show ?thesis
    by (rule that [OF rest valid_set_entry [OF ha(1) ca]]) (use ha HMap in \<open>auto simp: cells_set_entry [OF ca]\<close>)
qed

lemma entries_returned:
  assumes IH: "returns ord n"
  shows "valid h \<Longrightarrow> copy < limit h \<Longrightarrow> cells h copy = Some m \<Longrightarrow> \<forall>(k, v) \<in> set es. \<forall>b. reach h v b \<longrightarrow> b < copy \<Longrightarrow>
    copy_entries ord n copy es h = Some (c, h') \<Longrightarrow>
    c = copy \<and> valid h' \<and> limit h \<le> limit h' \<and> (\<forall>a < copy. cells h' a = cells h a) \<and>
    (\<forall>(k, v) \<in> set es. read_tree n h v \<noteq> None)"
proof (induction es arbitrary: h m)
  case (Cons e es)
  obtain k v where e: "e = (k, v)" by (cases e)
  from Cons.prems(4) e have "\<And>b. reach h v b \<Longrightarrow> b < copy" by simp
  from entry_returned [OF IH Cons.prems(1-3) this Cons.prems(5) [unfolded e]] obtain h2 m2 where
    rest: "copy_entries ord n copy es h2 = Some (c, h')" and h2: "valid h2" "limit h \<le> limit h2" "cells h2 copy = Some m2"
    "\<And>a. a < limit h \<Longrightarrow> a \<noteq> copy \<Longrightarrow> cells h2 a = cells h a" and read: "read_tree n h v \<noteq> None" by metis
  have same: "read_tree n h2 u = read_tree n h u \<and> (\<forall>b. reach h2 u b \<longrightarrow> b < copy)" if "(l, u) \<in> set es" for l u
  proof -
    have u: "\<And>b. reach h u b \<Longrightarrow> b < copy" using Cons.prems(4) that by auto
    have "cells h2 a = cells h a" if "reach h u a" for a using u [OF that] Cons.prems(2) h2(4) [of a] by simp
    then show ?thesis using read_frame [of h u h2 n] reach_frame_iff [of h u h2] u by blast
  qed
  then have "\<forall>(l, u) \<in> set es. \<forall>b. reach h2 u b \<longrightarrow> b < copy" by blast
  from Cons.IH [OF h2(1) _ h2(3) this rest] Cons.prems(2) h2(2) have
    "c = copy \<and> valid h' \<and> limit h2 \<le> limit h' \<and> (\<forall>a < copy. cells h' a = cells h2 a) \<and>
     (\<forall>(k, v) \<in> set es. read_tree n h2 v \<noteq> None)" by simp
  with same h2(2) h2(4) read Cons.prems(2) show ?case by (fastforce simp: e)
qed auto

lemma returns_all:
  assumes "ranges ord"
  shows "returns ord n"
proof (induction n)
  case 0
  show ?case by (simp add: returns_def)
next
  case (Suc n)
  show ?case unfolding returns_def
  proof (intro allI impI)
    fix h :: "'a cell heap" and p r
    assume h: "valid h" and p: "\<forall>a. p = Some a \<longrightarrow> a < limit h" and call: "DeepCopyMap ord (Suc n) p h = Some r"
    obtain c h' where r: "r = (c, h')" by (cases r)
    obtain h1 where h1: "make_map h = (limit h, h1)" by (simp add: make_map_def alloc_def)
    note fresh = make_map_fresh [OF h h1]
    have entry: "(\<forall>b. reach h1 v b \<longrightarrow> b < limit h) \<and> read_tree n h1 v = read_tree n h v"
      if "p = Some a" "cells h a = Some m" "fmlookup m k = Some v" for a m k v
    proof -
      have "b < limit h" if "reach h v b" for b
        using reach_below [OF that h] valid_entry [OF h \<open>cells h a = Some m\<close>] \<open>fmlookup m k = Some v\<close> by blast
      moreover from this have "cells h1 a = cells h a" if "reach h v a" for a using that fresh(4) by fastforce
      ultimately show ?thesis using read_frame reach_frame_iff by blast
    qed
    have entries: "\<exists>a m. p = Some a \<and> cells h a = Some m \<and> fmlookup m k = Some v"
      if "(k, v) \<in> set (range_entries ord h1 p)" for k v
      using that p fresh(4) assms by (auto simp: range_entries_def ranges_def split: option.splits if_splits)
    have "copy_entries ord n (limit h) (range_entries ord h1 p) h1 = Some (c, h')" using call h1 r by simp
    from entries_returned [OF Suc.IH fresh(2) _ _ _ this] fresh entry entries have
      "c = limit h \<and> valid h' \<and> limit h1 \<le> limit h' \<and> (\<forall>a < limit h. cells h' a = cells h1 a) \<and>
       (\<forall>(k, v) \<in> set (range_entries ord h1 p). read_tree n h1 v \<noteq> None)" by (fastforce)
    then have r': "c = limit h" "valid h'" "limit h1 \<le> limit h'" "\<And>a. a < limit h \<Longrightarrow> cells h' a = cells h1 a"
      and read: "\<And>k v. (k, v) \<in> set (range_entries ord h1 p) \<Longrightarrow> read_tree n h1 v \<noteq> None" by blast+
    have "read_tree (Suc n) h (HMap p) \<noteq> None"
    proof (cases p)
      case (Some a)
      with p h have "cells h a \<noteq> None" by (simp add: valid_def)
      then obtain m where m: "cells h a = Some m" by blast
      have "read_tree n h v \<noteq> None" if "v \<in> fmran' m" for v
      proof -
        from that obtain k where k: "fmlookup m k = Some v" by (auto simp: fmran'_def ran_def)
        have "(k, v) \<in> set (range_entries ord h1 p)"
          using Some m k p fresh(4) assms by (auto simp: range_entries_def ranges_def)
        with read entry [OF Some m k] show ?thesis by metis
      qed
      with Some m show ?thesis by simp
    qed simp
    with r' r fresh(3,4) show "returned (Suc n) h p r" by (simp add: returned_def)
  qed
qed


lemma ranges_sorted: "ranges sorted_list_of_fmap"
  by (auto simp: ranges_def set_sorted_list_of_fmap)

definition nested :: "nat cell heap" where
  "nested = \<lparr>cells = [0 \<mapsto> fmap_of_list [(''a'', HVal 1), (''b'', HMap (Some 1))], 1 \<mapsto> fmap_of_list [(''c'', HVal 2)]],
     limit = 2\<rparr>"

lemma nested_valid: "valid nested"
  by (auto simp: valid_def nested_def fmap_of_list.rep_eq split: if_splits)

lemma nested_tree: "read_tree 2 nested (HMap (Some 0)) =
  Some (TMap (fmap_of_list [(''a'', TVal 1), (''b'', TMap (fmap_of_list [(''c'', TVal 2)]))]))"
  by (auto simp: nested_def numeral_2_eq_2 fmran'_def ran_def fmap_of_list.rep_eq intro!: fmap_ext split: if_splits)


end
