(* ===== verification/Api_Copies.thy ===== *)
theory Api_Copies
  imports Api_Types Go_Memory
begin

text \<open>
  The generated deep copies (api/v1beta1/zz_generated.deepcopy.go). The API types appear here as they lie in
  memory: a field that is a pointer, a slice or a map is an address or nil, and \<open>object\<close> lists what a cell can
  hold. The cache of the controller hands out copies made by these functions, and the workload builders write
  through the pointers of the Phare they get; a copy that shared a cell with the cached object would let them
  change it.

  The types of Kubernetes have deep copies of their own, which are not part of the repository: \<open>'x\<close> stands for
  their structs and the parameter \<open>lib\<close> for their \<open>DeepCopyInto\<close>. \<open>'p\<close> stands for a \<open>ContainerPort\<close>, which holds
  no address and is copied by assignment.
\<close>

section \<open>Objects in memory\<close>

record route_object =
  ro_hostnames :: "nat option"
  ro_parentRefs :: "nat option"
  ro_rules :: "nat option"

record toolchain_object =
  to_config :: "nat option"
  to_httpRoute :: "nat option"
  to_healthCheckPolicy :: "nat option"
  to_gcpBackendPolicy :: "nat option"

record 'x micro_service_object =
  mo_kind :: string
  mo_replicaCount :: int32
  mo_image :: image_spec
  mo_ports :: "nat option"
  mo_imagePullPolicy :: string
  mo_env :: "nat option"
  mo_envFrom :: "nat option"
  mo_affinity :: "nat option"
  mo_tolerations :: "nat option"
  mo_volumes :: "nat option"
  mo_volumeMounts :: "nat option"
  mo_volumeClaimTemplates :: "nat option"
  mo_initContainers :: "nat option"
  mo_extraContainers :: "nat option"
  mo_resourceRequirements :: 'x
  mo_command :: "nat option"
  mo_args :: "nat option"
  mo_podLabels :: "nat option"
  mo_podAnnotations :: "nat option"
  mo_livenessProbe :: "nat option"
  mo_readinessProbe :: "nat option"
  mo_startupProbe :: "nat option"

record 'x spec_object =
  so_microService :: "'x micro_service_object"
  so_service :: "nat option"
  so_toolChain :: "nat option"

record 'x phare_object =
  po_type :: type_meta
  po_meta :: 'x
  po_spec :: "'x spec_object"
  po_status :: phare_status

record 'x list_object =
  lo_type :: type_meta
  lo_meta :: 'x
  lo_items :: "nat option"

text \<open>\<open>StringsCell\<close>, \<open>LibsCell\<close>, \<open>PortsCell\<close> and \<open>PharesCell\<close> are the arrays behind slices, \<open>TableCell\<close> is a \<open>map[string]string\<close>,
  \<open>LibCell\<close> a struct of a library.\<close>

datatype ('x, 'p) object =
    StringsCell "string list"
  | TableCell "(string, string) fmap"
  | LibCell 'x
  | LibsCell "'x list"
  | PortsCell "'p list"
  | HTTPRouteCell route_object
  | HealthCheckPolicyCell health_check_policy_spec
  | BackendPolicyCell gcp_backend_policy_spec
  | ToolChainCell toolchain_object
  | MicroServiceCell "'x micro_service_object"
  | SpecCell "'x spec_object"
  | PhareCell "'x phare_object"
  | PharesCell "'x phare_object list"
  | PhareListCell "'x list_object"
  | StatusCell phare_status
  | ImageCell image_spec
  | DefaultCheckCell default_check
  | HealthCheckConfigCell health_check_config
  | HealthCheckCell health_check
  | GRPCCheckCell grpc_check
  | LogConfigCell log_config
  | TargetRefCell target_ref
  | PolicyDefaultCell gcp_default_spec
  | PolicyLoggingCell gcp_logging_spec
  | PolicyTargetCell gcp_target_ref_spec

type_synonym ('x, 'p) memory = "('x, 'p) object heap"

text \<open>What a cell holds, at its type.\<close>

definition as_Strings :: "('x, 'p) object \<Rightarrow> (string list) option" where
  "as_Strings c = (case c of StringsCell v \<Rightarrow> Some v | _ \<Rightarrow> None)"

definition as_Table :: "('x, 'p) object \<Rightarrow> ((string, string) fmap) option" where
  "as_Table c = (case c of TableCell v \<Rightarrow> Some v | _ \<Rightarrow> None)"

definition as_Lib :: "('x, 'p) object \<Rightarrow> ('x) option" where
  "as_Lib c = (case c of LibCell v \<Rightarrow> Some v | _ \<Rightarrow> None)"

definition as_Libs :: "('x, 'p) object \<Rightarrow> ('x list) option" where
  "as_Libs c = (case c of LibsCell v \<Rightarrow> Some v | _ \<Rightarrow> None)"

definition as_Ports :: "('x, 'p) object \<Rightarrow> ('p list) option" where
  "as_Ports c = (case c of PortsCell v \<Rightarrow> Some v | _ \<Rightarrow> None)"

definition as_HTTPRoute :: "('x, 'p) object \<Rightarrow> (route_object) option" where
  "as_HTTPRoute c = (case c of HTTPRouteCell v \<Rightarrow> Some v | _ \<Rightarrow> None)"

definition as_HealthCheckPolicy :: "('x, 'p) object \<Rightarrow> (health_check_policy_spec) option" where
  "as_HealthCheckPolicy c = (case c of HealthCheckPolicyCell v \<Rightarrow> Some v | _ \<Rightarrow> None)"

definition as_BackendPolicy :: "('x, 'p) object \<Rightarrow> (gcp_backend_policy_spec) option" where
  "as_BackendPolicy c = (case c of BackendPolicyCell v \<Rightarrow> Some v | _ \<Rightarrow> None)"

definition as_ToolChain :: "('x, 'p) object \<Rightarrow> (toolchain_object) option" where
  "as_ToolChain c = (case c of ToolChainCell v \<Rightarrow> Some v | _ \<Rightarrow> None)"

definition as_MicroService :: "('x, 'p) object \<Rightarrow> ('x micro_service_object) option" where
  "as_MicroService c = (case c of MicroServiceCell v \<Rightarrow> Some v | _ \<Rightarrow> None)"

definition as_Spec :: "('x, 'p) object \<Rightarrow> ('x spec_object) option" where
  "as_Spec c = (case c of SpecCell v \<Rightarrow> Some v | _ \<Rightarrow> None)"

definition as_Phare :: "('x, 'p) object \<Rightarrow> ('x phare_object) option" where
  "as_Phare c = (case c of PhareCell v \<Rightarrow> Some v | _ \<Rightarrow> None)"

definition as_Phares :: "('x, 'p) object \<Rightarrow> ('x phare_object list) option" where
  "as_Phares c = (case c of PharesCell v \<Rightarrow> Some v | _ \<Rightarrow> None)"

definition as_PhareList :: "('x, 'p) object \<Rightarrow> ('x list_object) option" where
  "as_PhareList c = (case c of PhareListCell v \<Rightarrow> Some v | _ \<Rightarrow> None)"

definition as_Status :: "('x, 'p) object \<Rightarrow> (phare_status) option" where
  "as_Status c = (case c of StatusCell v \<Rightarrow> Some v | _ \<Rightarrow> None)"

definition as_Image :: "('x, 'p) object \<Rightarrow> (image_spec) option" where
  "as_Image c = (case c of ImageCell v \<Rightarrow> Some v | _ \<Rightarrow> None)"

definition as_DefaultCheck :: "('x, 'p) object \<Rightarrow> (default_check) option" where
  "as_DefaultCheck c = (case c of DefaultCheckCell v \<Rightarrow> Some v | _ \<Rightarrow> None)"

definition as_HealthCheckConfig :: "('x, 'p) object \<Rightarrow> (health_check_config) option" where
  "as_HealthCheckConfig c = (case c of HealthCheckConfigCell v \<Rightarrow> Some v | _ \<Rightarrow> None)"

definition as_HealthCheck :: "('x, 'p) object \<Rightarrow> (health_check) option" where
  "as_HealthCheck c = (case c of HealthCheckCell v \<Rightarrow> Some v | _ \<Rightarrow> None)"

definition as_GRPCCheck :: "('x, 'p) object \<Rightarrow> (grpc_check) option" where
  "as_GRPCCheck c = (case c of GRPCCheckCell v \<Rightarrow> Some v | _ \<Rightarrow> None)"

definition as_LogConfig :: "('x, 'p) object \<Rightarrow> (log_config) option" where
  "as_LogConfig c = (case c of LogConfigCell v \<Rightarrow> Some v | _ \<Rightarrow> None)"

definition as_TargetRef :: "('x, 'p) object \<Rightarrow> (target_ref) option" where
  "as_TargetRef c = (case c of TargetRefCell v \<Rightarrow> Some v | _ \<Rightarrow> None)"

definition as_PolicyDefault :: "('x, 'p) object \<Rightarrow> (gcp_default_spec) option" where
  "as_PolicyDefault c = (case c of PolicyDefaultCell v \<Rightarrow> Some v | _ \<Rightarrow> None)"

definition as_PolicyLogging :: "('x, 'p) object \<Rightarrow> (gcp_logging_spec) option" where
  "as_PolicyLogging c = (case c of PolicyLoggingCell v \<Rightarrow> Some v | _ \<Rightarrow> None)"

definition as_PolicyTarget :: "('x, 'p) object \<Rightarrow> (gcp_target_ref_spec) option" where
  "as_PolicyTarget c = (case c of PolicyTargetCell v \<Rightarrow> Some v | _ \<Rightarrow> None)"

lemma as_cell [simp]:
  "as_Strings (StringsCell v0) = Some v0"
  "as_Table (TableCell v1) = Some v1"
  "as_Lib (LibCell v2) = Some v2"
  "as_Libs (LibsCell v3) = Some v3"
  "as_Ports (PortsCell v4) = Some v4"
  "as_HTTPRoute (HTTPRouteCell v5) = Some v5"
  "as_HealthCheckPolicy (HealthCheckPolicyCell v6) = Some v6"
  "as_BackendPolicy (BackendPolicyCell v7) = Some v7"
  "as_ToolChain (ToolChainCell v8) = Some v8"
  "as_MicroService (MicroServiceCell v9) = Some v9"
  "as_Spec (SpecCell v10) = Some v10"
  "as_Phare (PhareCell v11) = Some v11"
  "as_Phares (PharesCell v12) = Some v12"
  "as_PhareList (PhareListCell v13) = Some v13"
  "as_Status (StatusCell v14) = Some v14"
  "as_Image (ImageCell v15) = Some v15"
  "as_DefaultCheck (DefaultCheckCell v16) = Some v16"
  "as_HealthCheckConfig (HealthCheckConfigCell v17) = Some v17"
  "as_HealthCheck (HealthCheckCell v18) = Some v18"
  "as_GRPCCheck (GRPCCheckCell v19) = Some v19"
  "as_LogConfig (LogConfigCell v20) = Some v20"
  "as_TargetRef (TargetRefCell v21) = Some v21"
  "as_PolicyDefault (PolicyDefaultCell v22) = Some v22"
  "as_PolicyLogging (PolicyLoggingCell v23) = Some v23"
  "as_PolicyTarget (PolicyTargetCell v24) = Some v24"
  by (simp_all add: as_Strings_def as_Table_def as_Lib_def as_Libs_def as_Ports_def as_HTTPRoute_def as_HealthCheckPolicy_def as_BackendPolicy_def as_ToolChain_def as_MicroService_def as_Spec_def as_Phare_def as_Phares_def as_PhareList_def as_Status_def as_Image_def as_DefaultCheck_def as_HealthCheckConfig_def as_HealthCheck_def as_GRPCCheck_def as_LogConfig_def as_TargetRef_def as_PolicyDefault_def as_PolicyLogging_def as_PolicyTarget_def)
section \<open>Pointers, slices and maps\<close>

text \<open>\<open>make\<close> and \<open>copy(*out, *in)\<close>, for elements without addresses\<close>

definition copy_strings :: "nat option \<Rightarrow> (('x, 'p) memory, nat option) state" where
  "copy_strings = copy_ptr as_Strings StringsCell (\<lambda>vs. State_Monad.return (id vs))"

definition copy_ports :: "nat option \<Rightarrow> (('x, 'p) memory, nat option) state" where
  "copy_ports = copy_ptr as_Ports PortsCell (\<lambda>vs. State_Monad.return (id vs))"

text \<open>\<open>make\<close> and the loop that assigns every entry\<close>

definition copied_entries :: "(string, string) fmap \<Rightarrow> (string, string) fmap" where
  "copied_entries m = range_map store_entry (Some m) fmempty"

definition copy_table :: "nat option \<Rightarrow> (('x, 'p) memory, nat option) state" where
  "copy_table = copy_ptr as_Table TableCell (\<lambda>m. State_Monad.return (copied_entries m))"

text \<open>\<open>make\<close> and the loop over \<open>DeepCopyInto\<close>; \<open>new\<close> and \<open>DeepCopyInto\<close>\<close>

definition copy_libs :: "('x \<Rightarrow> (('x, 'p) memory, 'x) state) \<Rightarrow> nat option \<Rightarrow> (('x, 'p) memory, nat option) state" where
  "copy_libs lib = copy_ptr as_Libs LibsCell (State_Monad.traverse_list lib)"

definition copy_lib :: "('x \<Rightarrow> (('x, 'p) memory, 'x) state) \<Rightarrow> nat option \<Rightarrow> (('x, 'p) memory, nat option) state" where
  "copy_lib lib = copy_ptr as_Lib LibCell lib"

section \<open>The code\<close>

text \<open>Each \<open>DeepCopyInto\<close> is the computation of what \<open>*out\<close> holds at its end from what \<open>*in\<close> holds. \<open>DeepCopy\<close>
  is nil for nil, and otherwise allocates and calls it.\<close>

subsection \<open>Structs that hold addresses\<close>

definition HTTPRouteSpec_DeepCopyInto ::
  "('x \<Rightarrow> (('x, 'p) memory, 'x) state) \<Rightarrow> route_object \<Rightarrow> (('x, 'p) memory, route_object) state" where
  "HTTPRouteSpec_DeepCopyInto lib i = do {
     hostnames \<leftarrow> copy_strings (ro_hostnames i);
     parentRefs \<leftarrow> copy_libs lib (ro_parentRefs i);
     rules \<leftarrow> copy_libs lib (ro_rules i);
     State_Monad.return (i\<lparr>ro_hostnames := hostnames, ro_parentRefs := parentRefs, ro_rules := rules\<rparr>) }"

definition HTTPRouteSpec_DeepCopy ::
  "('x \<Rightarrow> (('x, 'p) memory, 'x) state) \<Rightarrow> nat option \<Rightarrow> (('x, 'p) memory, nat option) state" where
  "HTTPRouteSpec_DeepCopy lib = copy_ptr as_HTTPRoute HTTPRouteCell (HTTPRouteSpec_DeepCopyInto lib)"

definition MicroServiceSpec_DeepCopyInto ::
  "('x \<Rightarrow> (('x, 'p) memory, 'x) state) \<Rightarrow> 'x micro_service_object \<Rightarrow> (('x, 'p) memory, 'x micro_service_object) state" where
  "MicroServiceSpec_DeepCopyInto lib i = do {
     ports \<leftarrow> copy_ports (mo_ports i);
     env \<leftarrow> copy_libs lib (mo_env i);
     envFrom \<leftarrow> copy_libs lib (mo_envFrom i);
     affinity \<leftarrow> copy_lib lib (mo_affinity i);
     tolerations \<leftarrow> copy_libs lib (mo_tolerations i);
     volumes \<leftarrow> copy_libs lib (mo_volumes i);
     volumeMounts \<leftarrow> copy_libs lib (mo_volumeMounts i);
     volumeClaimTemplates \<leftarrow> copy_libs lib (mo_volumeClaimTemplates i);
     initContainers \<leftarrow> copy_libs lib (mo_initContainers i);
     extraContainers \<leftarrow> copy_libs lib (mo_extraContainers i);
     resourceRequirements \<leftarrow> lib (mo_resourceRequirements i);
     command \<leftarrow> copy_strings (mo_command i);
     args \<leftarrow> copy_strings (mo_args i);
     podLabels \<leftarrow> copy_table (mo_podLabels i);
     podAnnotations \<leftarrow> copy_table (mo_podAnnotations i);
     livenessProbe \<leftarrow> copy_lib lib (mo_livenessProbe i);
     readinessProbe \<leftarrow> copy_lib lib (mo_readinessProbe i);
     startupProbe \<leftarrow> copy_lib lib (mo_startupProbe i);
     State_Monad.return
       (i\<lparr>mo_image := mo_image i, mo_ports := ports, mo_env := env, mo_envFrom := envFrom, mo_affinity := affinity,
          mo_tolerations := tolerations, mo_volumes := volumes, mo_volumeMounts := volumeMounts,
          mo_volumeClaimTemplates := volumeClaimTemplates, mo_initContainers := initContainers,
          mo_extraContainers := extraContainers, mo_resourceRequirements := resourceRequirements,
          mo_command := command, mo_args := args, mo_podLabels := podLabels, mo_podAnnotations := podAnnotations,
          mo_livenessProbe := livenessProbe, mo_readinessProbe := readinessProbe, mo_startupProbe := startupProbe\<rparr>) }"

definition MicroServiceSpec_DeepCopy ::
  "('x \<Rightarrow> (('x, 'p) memory, 'x) state) \<Rightarrow> nat option \<Rightarrow> (('x, 'p) memory, nat option) state" where
  "MicroServiceSpec_DeepCopy lib = copy_ptr as_MicroService MicroServiceCell (MicroServiceSpec_DeepCopyInto lib)"

text \<open>\<open>**out = **in\<close> copies the policies.\<close>

definition ToolChainSpec_DeepCopyInto ::
  "('x \<Rightarrow> (('x, 'p) memory, 'x) state) \<Rightarrow> toolchain_object \<Rightarrow> (('x, 'p) memory, toolchain_object) state" where
  "ToolChainSpec_DeepCopyInto lib i = do {
     config \<leftarrow> copy_table (to_config i);
     httpRoute \<leftarrow> copy_ptr as_HTTPRoute HTTPRouteCell (HTTPRouteSpec_DeepCopyInto lib) (to_httpRoute i);
     healthCheckPolicy \<leftarrow> copy_ptr as_HealthCheckPolicy HealthCheckPolicyCell (\<lambda>v. State_Monad.return (id v)) (to_healthCheckPolicy i);
     gcpBackendPolicy \<leftarrow> copy_ptr as_BackendPolicy BackendPolicyCell (\<lambda>v. State_Monad.return (id v)) (to_gcpBackendPolicy i);
     State_Monad.return
       (i\<lparr>to_config := config, to_httpRoute := httpRoute, to_healthCheckPolicy := healthCheckPolicy,
          to_gcpBackendPolicy := gcpBackendPolicy\<rparr>) }"

definition ToolChainSpec_DeepCopy ::
  "('x \<Rightarrow> (('x, 'p) memory, 'x) state) \<Rightarrow> nat option \<Rightarrow> (('x, 'p) memory, nat option) state" where
  "ToolChainSpec_DeepCopy lib = copy_ptr as_ToolChain ToolChainCell (ToolChainSpec_DeepCopyInto lib)"

definition PhareSpec_DeepCopyInto ::
  "('x \<Rightarrow> (('x, 'p) memory, 'x) state) \<Rightarrow> 'x spec_object \<Rightarrow> (('x, 'p) memory, 'x spec_object) state" where
  "PhareSpec_DeepCopyInto lib i = do {
     microService \<leftarrow> MicroServiceSpec_DeepCopyInto lib (so_microService i);
     service \<leftarrow> copy_lib lib (so_service i);
     toolChain \<leftarrow> copy_ptr as_ToolChain ToolChainCell (ToolChainSpec_DeepCopyInto lib) (so_toolChain i);
     State_Monad.return (i\<lparr>so_microService := microService, so_service := service, so_toolChain := toolChain\<rparr>) }"

definition PhareSpec_DeepCopy ::
  "('x \<Rightarrow> (('x, 'p) memory, 'x) state) \<Rightarrow> nat option \<Rightarrow> (('x, 'p) memory, nat option) state" where
  "PhareSpec_DeepCopy lib = copy_ptr as_Spec SpecCell (PhareSpec_DeepCopyInto lib)"

definition Phare_DeepCopyInto ::
  "('x \<Rightarrow> (('x, 'p) memory, 'x) state) \<Rightarrow> 'x phare_object \<Rightarrow> (('x, 'p) memory, 'x phare_object) state" where
  "Phare_DeepCopyInto lib i = do {
     objectMeta \<leftarrow> lib (po_meta i);
     spec \<leftarrow> PhareSpec_DeepCopyInto lib (po_spec i);
     State_Monad.return (i\<lparr>po_type := po_type i, po_meta := objectMeta, po_spec := spec, po_status := po_status i\<rparr>) }"

definition Phare_DeepCopy ::
  "('x \<Rightarrow> (('x, 'p) memory, 'x) state) \<Rightarrow> nat option \<Rightarrow> (('x, 'p) memory, nat option) state" where
  "Phare_DeepCopy lib = copy_ptr as_Phare PhareCell (Phare_DeepCopyInto lib)"

definition PhareList_DeepCopyInto ::
  "('x \<Rightarrow> (('x, 'p) memory, 'x) state) \<Rightarrow> 'x list_object \<Rightarrow> (('x, 'p) memory, 'x list_object) state" where
  "PhareList_DeepCopyInto lib i = do {
     listMeta \<leftarrow> lib (lo_meta i);
     items \<leftarrow> copy_ptr as_Phares PharesCell (State_Monad.traverse_list (Phare_DeepCopyInto lib)) (lo_items i);
     State_Monad.return (i\<lparr>lo_type := lo_type i, lo_meta := listMeta, lo_items := items\<rparr>) }"

definition PhareList_DeepCopy ::
  "('x \<Rightarrow> (('x, 'p) memory, 'x) state) \<Rightarrow> nat option \<Rightarrow> (('x, 'p) memory, nat option) state" where
  "PhareList_DeepCopy lib = copy_ptr as_PhareList PhareListCell (PhareList_DeepCopyInto lib)"

text \<open>The pointer in a \<open>runtime.Object\<close>, which is the nil interface for a nil pointer\<close>

definition Phare_DeepCopyObject ::
  "('x \<Rightarrow> (('x, 'p) memory, 'x) state) \<Rightarrow> nat option \<Rightarrow> (('x, 'p) memory, nat option) state" where
  "Phare_DeepCopyObject lib p = do {
     c \<leftarrow> Phare_DeepCopy lib p;
     (if c \<noteq> None then State_Monad.return c else State_Monad.return None) }"

definition PhareList_DeepCopyObject ::
  "('x \<Rightarrow> (('x, 'p) memory, 'x) state) \<Rightarrow> nat option \<Rightarrow> (('x, 'p) memory, nat option) state" where
  "PhareList_DeepCopyObject lib p = do {
     c \<leftarrow> PhareList_DeepCopy lib p;
     (if c \<noteq> None then State_Monad.return c else State_Monad.return None) }"

text \<open>\<open>ConfigSpec\<close> is a map itself; its \<open>DeepCopyInto\<close> makes a map for nil too.\<close>

definition ConfigSpec_DeepCopyInto :: "nat option \<Rightarrow> (('x, 'p) memory, nat option) state" where
  "ConfigSpec_DeepCopyInto i = do {
     m \<leftarrow> (case i of
            None \<Rightarrow> State_Monad.return fmempty
          | Some a \<Rightarrow> do {
              c \<leftarrow> read_cell a;
              State_Monad.return (case Option.bind c as_Table of None \<Rightarrow> fmempty | Some m \<Rightarrow> m) });
     b \<leftarrow> new_cell (TableCell fmempty);
     _ \<leftarrow> write_cell b (TableCell (copied_entries m));
     State_Monad.return (Some b) }"

definition ConfigSpec_DeepCopy :: "nat option \<Rightarrow> (('x, 'p) memory, nat option) state" where
  "ConfigSpec_DeepCopy i = (case i of None \<Rightarrow> State_Monad.return None | Some _ \<Rightarrow> ConfigSpec_DeepCopyInto i)"

subsection \<open>Structs without addresses\<close>

definition DefaultCheck_DeepCopyInto :: "default_check \<Rightarrow> default_check" where
  "DefaultCheck_DeepCopyInto i = i\<lparr>dc_logConfig := dc_logConfig i, dc_config := dc_config i\<rparr>"

definition DefaultCheck_DeepCopy :: "nat option \<Rightarrow> (('x, 'p) memory, nat option) state" where
  "DefaultCheck_DeepCopy = copy_ptr as_DefaultCheck DefaultCheckCell (\<lambda>i. State_Monad.return (DefaultCheck_DeepCopyInto i))"

definition GCPBackendPolicyDefaultSpec_DeepCopyInto :: "gcp_default_spec \<Rightarrow> gcp_default_spec" where
  "GCPBackendPolicyDefaultSpec_DeepCopyInto i = i\<lparr>gd_logging := gd_logging i\<rparr>"

definition GCPBackendPolicyDefaultSpec_DeepCopy :: "nat option \<Rightarrow> (('x, 'p) memory, nat option) state" where
  "GCPBackendPolicyDefaultSpec_DeepCopy = copy_ptr as_PolicyDefault PolicyDefaultCell (\<lambda>i. State_Monad.return (GCPBackendPolicyDefaultSpec_DeepCopyInto i))"

definition GCPBackendPolicyLoggingSpec_DeepCopyInto :: "gcp_logging_spec \<Rightarrow> gcp_logging_spec" where
  "GCPBackendPolicyLoggingSpec_DeepCopyInto i = i"

definition GCPBackendPolicyLoggingSpec_DeepCopy :: "nat option \<Rightarrow> (('x, 'p) memory, nat option) state" where
  "GCPBackendPolicyLoggingSpec_DeepCopy = copy_ptr as_PolicyLogging PolicyLoggingCell (\<lambda>i. State_Monad.return (GCPBackendPolicyLoggingSpec_DeepCopyInto i))"

definition GCPBackendPolicySpec_DeepCopyInto :: "gcp_backend_policy_spec \<Rightarrow> gcp_backend_policy_spec" where
  "GCPBackendPolicySpec_DeepCopyInto i = i\<lparr>gbp_default := gbp_default i, gbp_targetRef := gbp_targetRef i\<rparr>"

definition GCPBackendPolicySpec_DeepCopy :: "nat option \<Rightarrow> (('x, 'p) memory, nat option) state" where
  "GCPBackendPolicySpec_DeepCopy = copy_ptr as_BackendPolicy BackendPolicyCell (\<lambda>i. State_Monad.return (GCPBackendPolicySpec_DeepCopyInto i))"

definition GCPBackendPolicyTargetRefSpec_DeepCopyInto :: "gcp_target_ref_spec \<Rightarrow> gcp_target_ref_spec" where
  "GCPBackendPolicyTargetRefSpec_DeepCopyInto i = i"

definition GCPBackendPolicyTargetRefSpec_DeepCopy :: "nat option \<Rightarrow> (('x, 'p) memory, nat option) state" where
  "GCPBackendPolicyTargetRefSpec_DeepCopy = copy_ptr as_PolicyTarget PolicyTargetCell (\<lambda>i. State_Monad.return (GCPBackendPolicyTargetRefSpec_DeepCopyInto i))"

definition GRPCCheck_DeepCopyInto :: "grpc_check \<Rightarrow> grpc_check" where
  "GRPCCheck_DeepCopyInto i = i"

definition GRPCCheck_DeepCopy :: "nat option \<Rightarrow> (('x, 'p) memory, nat option) state" where
  "GRPCCheck_DeepCopy = copy_ptr as_GRPCCheck GRPCCheckCell (\<lambda>i. State_Monad.return (GRPCCheck_DeepCopyInto i))"

definition HealthCheck_DeepCopyInto :: "health_check \<Rightarrow> health_check" where
  "HealthCheck_DeepCopyInto i = i"

definition HealthCheck_DeepCopy :: "nat option \<Rightarrow> (('x, 'p) memory, nat option) state" where
  "HealthCheck_DeepCopy = copy_ptr as_HealthCheck HealthCheckCell (\<lambda>i. State_Monad.return (HealthCheck_DeepCopyInto i))"

definition HealthCheckConfig_DeepCopyInto :: "health_check_config \<Rightarrow> health_check_config" where
  "HealthCheckConfig_DeepCopyInto i = i\<lparr>hcc_httpHealthCheck := hcc_httpHealthCheck i, hcc_httpsHealthCheck := hcc_httpsHealthCheck i,
     hcc_grpcHealthCheck := hcc_grpcHealthCheck i, hcc_http2HealthCheck := hcc_http2HealthCheck i\<rparr>"

definition HealthCheckConfig_DeepCopy :: "nat option \<Rightarrow> (('x, 'p) memory, nat option) state" where
  "HealthCheckConfig_DeepCopy = copy_ptr as_HealthCheckConfig HealthCheckConfigCell (\<lambda>i. State_Monad.return (HealthCheckConfig_DeepCopyInto i))"

definition HealthCheckPolicySpec_DeepCopyInto :: "health_check_policy_spec \<Rightarrow> health_check_policy_spec" where
  "HealthCheckPolicySpec_DeepCopyInto i = i\<lparr>hcp_default := hcp_default i, hcp_targetRef := hcp_targetRef i\<rparr>"

definition HealthCheckPolicySpec_DeepCopy :: "nat option \<Rightarrow> (('x, 'p) memory, nat option) state" where
  "HealthCheckPolicySpec_DeepCopy = copy_ptr as_HealthCheckPolicy HealthCheckPolicyCell (\<lambda>i. State_Monad.return (HealthCheckPolicySpec_DeepCopyInto i))"

definition ImageSpec_DeepCopyInto :: "image_spec \<Rightarrow> image_spec" where
  "ImageSpec_DeepCopyInto i = i"

definition ImageSpec_DeepCopy :: "nat option \<Rightarrow> (('x, 'p) memory, nat option) state" where
  "ImageSpec_DeepCopy = copy_ptr as_Image ImageCell (\<lambda>i. State_Monad.return (ImageSpec_DeepCopyInto i))"

definition LogConfig_DeepCopyInto :: "log_config \<Rightarrow> log_config" where
  "LogConfig_DeepCopyInto i = i"

definition LogConfig_DeepCopy :: "nat option \<Rightarrow> (('x, 'p) memory, nat option) state" where
  "LogConfig_DeepCopy = copy_ptr as_LogConfig LogConfigCell (\<lambda>i. State_Monad.return (LogConfig_DeepCopyInto i))"

definition PhareStatus_DeepCopyInto :: "phare_status \<Rightarrow> phare_status" where
  "PhareStatus_DeepCopyInto i = i"

definition PhareStatus_DeepCopy :: "nat option \<Rightarrow> (('x, 'p) memory, nat option) state" where
  "PhareStatus_DeepCopy = copy_ptr as_Status StatusCell (\<lambda>i. State_Monad.return (PhareStatus_DeepCopyInto i))"

definition TargetRef_DeepCopyInto :: "target_ref \<Rightarrow> target_ref" where
  "TargetRef_DeepCopyInto i = i"

definition TargetRef_DeepCopy :: "nat option \<Rightarrow> (('x, 'p) memory, nat option) state" where
  "TargetRef_DeepCopy = copy_ptr as_TargetRef TargetRefCell (\<lambda>i. State_Monad.return (TargetRef_DeepCopyInto i))"

lemma value_copies:
  "DefaultCheck_DeepCopyInto v0 = v0"
  "GCPBackendPolicyDefaultSpec_DeepCopyInto v1 = v1"
  "GCPBackendPolicyLoggingSpec_DeepCopyInto v2 = v2"
  "GCPBackendPolicySpec_DeepCopyInto v3 = v3"
  "GCPBackendPolicyTargetRefSpec_DeepCopyInto v4 = v4"
  "GRPCCheck_DeepCopyInto v5 = v5"
  "HealthCheck_DeepCopyInto v6 = v6"
  "HealthCheckConfig_DeepCopyInto v7 = v7"
  "HealthCheckPolicySpec_DeepCopyInto v8 = v8"
  "ImageSpec_DeepCopyInto v9 = v9"
  "LogConfig_DeepCopyInto v10 = v10"
  "PhareStatus_DeepCopyInto v11 = v11"
  "TargetRef_DeepCopyInto v12 = v12"
  by (simp_all add: DefaultCheck_DeepCopyInto_def GCPBackendPolicyDefaultSpec_DeepCopyInto_def GCPBackendPolicyLoggingSpec_DeepCopyInto_def GCPBackendPolicySpec_DeepCopyInto_def GCPBackendPolicyTargetRefSpec_DeepCopyInto_def GRPCCheck_DeepCopyInto_def HealthCheck_DeepCopyInto_def HealthCheckConfig_DeepCopyInto_def HealthCheckPolicySpec_DeepCopyInto_def ImageSpec_DeepCopyInto_def LogConfig_DeepCopyInto_def PhareStatus_DeepCopyInto_def TargetRef_DeepCopyInto_def)
section \<open>What the objects denote\<close>

text \<open>For each struct: its fields that hold addresses, the struct with these fields replaced, and from them
  what it denotes and what it reaches, given the same for the structs of the libraries (\<open>L\<close>, \<open>R\<close>).\<close>

abbreviation "strings_look \<equiv> ptr_look as_Strings plain_look"
abbreviation "strings_refs \<equiv> ptr_refs as_Strings plain_refs"
abbreviation "ports_look \<equiv> ptr_look as_Ports plain_look"
abbreviation "ports_refs \<equiv> ptr_refs as_Ports plain_refs"
abbreviation "table_look \<equiv> ptr_look as_Table plain_look"
abbreviation "table_refs \<equiv> ptr_refs as_Table plain_refs"
abbreviation "libs_look L \<equiv> ptr_look as_Libs (list_look L)"
abbreviation "libs_refs R \<equiv> ptr_refs as_Libs (list_refs R)"
abbreviation "lib_look L \<equiv> ptr_look as_Lib L"
abbreviation "lib_refs R \<equiv> ptr_refs as_Lib R"

lemma copied_entries_eq [simp]: "copied_entries m = m"
  by (simp add: copied_entries_def go_map)

lemma copier_strings: "copier strings_look strings_refs copy_strings"
  unfolding copy_strings_def by (intro copier_ptr copier_plain) simp_all

lemma copier_ports: "copier ports_look ports_refs copy_ports"
  unfolding copy_ports_def by (intro copier_ptr copier_plain) simp_all

lemma copier_table: "copier table_look table_refs copy_table"
  unfolding copy_table_def by (intro copier_ptr copier_plain) simp_all

lemma copier_lib: "copier L R lib \<Longrightarrow> copier (lib_look L) (lib_refs R) (copy_lib lib)"
  unfolding copy_lib_def by (intro copier_ptr) simp_all

lemma copier_libs: "copier L R lib \<Longrightarrow> copier (libs_look L) (libs_refs R) (copy_libs lib)"
  unfolding copy_libs_def by (intro copier_ptr copier_list) simp_all

lemmas copier_fields = copier_pair copier_strings copier_ports copier_table copier_lib copier_libs

subsection \<open>HTTPRouteSpec\<close>

definition route_parts :: "route_object \<Rightarrow> _" where
  "route_parts i = (ro_hostnames i, ro_parentRefs i, ro_rules i)"

definition route_rebuild :: "route_object \<Rightarrow> _ \<Rightarrow> route_object" where
  "route_rebuild i w = (case w of (hostnames, parentRefs, rules) \<Rightarrow>
     i\<lparr>ro_hostnames := hostnames, ro_parentRefs := parentRefs, ro_rules := rules\<rparr>)"

definition "route_look L = view_look (\<lambda>_. ()) route_parts (pair_look strings_look (pair_look (libs_look L) (libs_look L)))"
definition "route_refs R = view_refs route_parts (pair_refs strings_refs (pair_refs (libs_refs R) (libs_refs R)))"

lemma copier_route:
  assumes lib: "copier L R lib"
  shows "copier (route_look L) (route_refs R) (HTTPRouteSpec_DeepCopyInto lib)"
  unfolding route_look_def route_refs_def
proof (rule copier_view [where rebuild = route_rebuild])
  show "copier (pair_look strings_look (pair_look (libs_look L) (libs_look L)))
      (pair_refs strings_refs (pair_refs (libs_refs R) (libs_refs R)))
      (copy_pair copy_strings (copy_pair (copy_libs lib) (copy_libs lib)))"
    by (intro copier_fields lib)
qed (simp_all add: HTTPRouteSpec_DeepCopyInto_def route_parts_def route_rebuild_def copy_pair_def split: prod.splits)

subsection \<open>MicroServiceSpec\<close>

definition micro_rest :: "'x micro_service_object \<Rightarrow> string \<times> int32 \<times> image_spec \<times> string" where
  "micro_rest i = (mo_kind i, mo_replicaCount i, mo_image i, mo_imagePullPolicy i)"

definition micro_parts :: "'x micro_service_object \<Rightarrow> _" where
  "micro_parts i =
     (mo_ports i, mo_env i, mo_envFrom i, mo_affinity i, mo_tolerations i, mo_volumes i, mo_volumeMounts i,
     mo_volumeClaimTemplates i, mo_initContainers i, mo_extraContainers i, mo_resourceRequirements i,
     mo_command i, mo_args i, mo_podLabels i, mo_podAnnotations i, mo_livenessProbe i, mo_readinessProbe i,
     mo_startupProbe i)"

definition micro_rebuild :: "'x micro_service_object \<Rightarrow> _ \<Rightarrow> 'x micro_service_object" where
  "micro_rebuild i w = (case w of
     (ports, env, envFrom, affinity, tolerations, volumes, volumeMounts, volumeClaimTemplates,
     initContainers, extraContainers, resourceRequirements, command, args, podLabels, podAnnotations,
     livenessProbe, readinessProbe, startupProbe) \<Rightarrow>
     i\<lparr>mo_ports := ports, mo_env := env, mo_envFrom := envFrom, mo_affinity := affinity, mo_tolerations :=
       tolerations, mo_volumes := volumes, mo_volumeMounts := volumeMounts, mo_volumeClaimTemplates :=
       volumeClaimTemplates, mo_initContainers := initContainers, mo_extraContainers := extraContainers,
       mo_resourceRequirements := resourceRequirements, mo_command := command, mo_args := args, mo_podLabels
       := podLabels, mo_podAnnotations := podAnnotations, mo_livenessProbe := livenessProbe,
       mo_readinessProbe := readinessProbe, mo_startupProbe := startupProbe\<rparr>)"

definition "micro_fields_look L =
     pair_look ports_look (pair_look (libs_look L) (pair_look (libs_look L) (pair_look (lib_look L)
     (pair_look (libs_look L) (pair_look (libs_look L) (pair_look (libs_look L) (pair_look (libs_look L)
     (pair_look (libs_look L) (pair_look (libs_look L) (pair_look L (pair_look strings_look (pair_look
     strings_look (pair_look table_look (pair_look table_look (pair_look (lib_look L) (pair_look (lib_look
     L) (lib_look L)))))))))))))))))"

definition "micro_fields_refs R =
     pair_refs ports_refs (pair_refs (libs_refs R) (pair_refs (libs_refs R) (pair_refs (lib_refs R)
     (pair_refs (libs_refs R) (pair_refs (libs_refs R) (pair_refs (libs_refs R) (pair_refs (libs_refs R)
     (pair_refs (libs_refs R) (pair_refs (libs_refs R) (pair_refs R (pair_refs strings_refs (pair_refs
     strings_refs (pair_refs table_refs (pair_refs table_refs (pair_refs (lib_refs R) (pair_refs (lib_refs
     R) (lib_refs R)))))))))))))))))"

definition "copy_micro_fields lib =
     copy_pair copy_ports (copy_pair (copy_libs lib) (copy_pair (copy_libs lib) (copy_pair (copy_lib lib)
     (copy_pair (copy_libs lib) (copy_pair (copy_libs lib) (copy_pair (copy_libs lib) (copy_pair (copy_libs
     lib) (copy_pair (copy_libs lib) (copy_pair (copy_libs lib) (copy_pair lib (copy_pair copy_strings
     (copy_pair copy_strings (copy_pair copy_table (copy_pair copy_table (copy_pair (copy_lib lib)
     (copy_pair (copy_lib lib) (copy_lib lib)))))))))))))))))"

definition "micro_look L = view_look micro_rest micro_parts (micro_fields_look L)"
definition "micro_refs R = view_refs micro_parts (micro_fields_refs R)"

lemma copier_micro:
  assumes lib: "copier L R lib"
  shows "copier (micro_look L) (micro_refs R) (MicroServiceSpec_DeepCopyInto lib)"
  unfolding micro_look_def micro_refs_def
proof (rule copier_view [where rebuild = micro_rebuild])
  show "copier (micro_fields_look L) (micro_fields_refs R) (copy_micro_fields lib)"
    unfolding micro_fields_look_def micro_fields_refs_def copy_micro_fields_def by (intro copier_fields lib)
qed (simp_all add: MicroServiceSpec_DeepCopyInto_def copy_micro_fields_def micro_parts_def micro_rest_def micro_rebuild_def
    copy_pair_def split: prod.splits)

subsection \<open>ToolChainSpec\<close>

abbreviation "route_ptr_look L \<equiv> ptr_look as_HTTPRoute (route_look L)"
abbreviation "route_ptr_refs R \<equiv> ptr_refs as_HTTPRoute (route_refs R)"

definition toolchain_parts :: "toolchain_object \<Rightarrow> _" where
  "toolchain_parts i = (to_config i, to_httpRoute i, to_healthCheckPolicy i, to_gcpBackendPolicy i)"

definition toolchain_rebuild :: "toolchain_object \<Rightarrow> _ \<Rightarrow> toolchain_object" where
  "toolchain_rebuild i w = (case w of (config, httpRoute, healthCheckPolicy, gcpBackendPolicy) \<Rightarrow>
     i\<lparr>to_config := config, to_httpRoute := httpRoute, to_healthCheckPolicy := healthCheckPolicy,
       to_gcpBackendPolicy := gcpBackendPolicy\<rparr>)"

definition "toolchain_look L = view_look (\<lambda>_. ()) toolchain_parts (pair_look table_look (pair_look (route_ptr_look L)
  (pair_look (ptr_look as_HealthCheckPolicy plain_look) (ptr_look as_BackendPolicy plain_look))))"
definition "toolchain_refs R = view_refs toolchain_parts (pair_refs table_refs (pair_refs (route_ptr_refs R)
  (pair_refs (ptr_refs as_HealthCheckPolicy plain_refs) (ptr_refs as_BackendPolicy plain_refs))))"

lemma copier_toolchain:
  assumes lib: "copier L R lib"
  shows "copier (toolchain_look L) (toolchain_refs R) (ToolChainSpec_DeepCopyInto lib)"
  unfolding toolchain_look_def toolchain_refs_def
proof (rule copier_view [where rebuild = toolchain_rebuild])
  show "copier (pair_look table_look (pair_look (route_ptr_look L)
        (pair_look (ptr_look as_HealthCheckPolicy plain_look) (ptr_look as_BackendPolicy plain_look))))
      (pair_refs table_refs (pair_refs (route_ptr_refs R)
        (pair_refs (ptr_refs as_HealthCheckPolicy plain_refs) (ptr_refs as_BackendPolicy plain_refs))))
      (copy_pair copy_table (copy_pair (copy_ptr as_HTTPRoute HTTPRouteCell (HTTPRouteSpec_DeepCopyInto lib))
        (copy_pair (copy_ptr as_HealthCheckPolicy HealthCheckPolicyCell (\<lambda>v. State_Monad.return (id v)))
          (copy_ptr as_BackendPolicy BackendPolicyCell (\<lambda>v. State_Monad.return (id v))))))"
    by (intro copier_fields copier_ptr copier_plain copier_route lib) simp_all
qed (simp_all add: ToolChainSpec_DeepCopyInto_def toolchain_parts_def toolchain_rebuild_def copy_pair_def split: prod.splits)

subsection \<open>PhareSpec, Phare and PhareList\<close>

abbreviation "toolchain_ptr_look L \<equiv> ptr_look as_ToolChain (toolchain_look L)"
abbreviation "toolchain_ptr_refs R \<equiv> ptr_refs as_ToolChain (toolchain_refs R)"

definition spec_parts :: "'x spec_object \<Rightarrow> _" where
  "spec_parts i = (so_microService i, so_service i, so_toolChain i)"

definition spec_rebuild :: "'x spec_object \<Rightarrow> _ \<Rightarrow> 'x spec_object" where
  "spec_rebuild i w = (case w of (microService, service, toolChain) \<Rightarrow>
     i\<lparr>so_microService := microService, so_service := service, so_toolChain := toolChain\<rparr>)"

definition "spec_look L = view_look (\<lambda>_. ()) spec_parts (pair_look (micro_look L) (pair_look (lib_look L) (toolchain_ptr_look L)))"
definition "spec_refs R = view_refs spec_parts (pair_refs (micro_refs R) (pair_refs (lib_refs R) (toolchain_ptr_refs R)))"

lemma copier_spec:
  assumes lib: "copier L R lib"
  shows "copier (spec_look L) (spec_refs R) (PhareSpec_DeepCopyInto lib)"
  unfolding spec_look_def spec_refs_def
proof (rule copier_view [where rebuild = spec_rebuild])
  show "copier (pair_look (micro_look L) (pair_look (lib_look L) (toolchain_ptr_look L)))
      (pair_refs (micro_refs R) (pair_refs (lib_refs R) (toolchain_ptr_refs R)))
      (copy_pair (MicroServiceSpec_DeepCopyInto lib)
        (copy_pair (copy_lib lib) (copy_ptr as_ToolChain ToolChainCell (ToolChainSpec_DeepCopyInto lib))))"
    by (intro copier_pair copier_micro copier_lib copier_ptr copier_toolchain lib) simp
qed (simp_all add: PhareSpec_DeepCopyInto_def spec_parts_def spec_rebuild_def copy_pair_def split: prod.splits)

definition phare_rest :: "'x phare_object \<Rightarrow> type_meta \<times> phare_status" where
  "phare_rest i = (po_type i, po_status i)"

definition phare_parts :: "'x phare_object \<Rightarrow> _" where
  "phare_parts i = (po_meta i, po_spec i)"

definition phare_rebuild :: "'x phare_object \<Rightarrow> _ \<Rightarrow> 'x phare_object" where
  "phare_rebuild i w = (case w of (objectMeta, spec) \<Rightarrow> i\<lparr>po_meta := objectMeta, po_spec := spec\<rparr>)"

definition "phare_look L = view_look phare_rest phare_parts (pair_look L (spec_look L))"
definition "phare_refs R = view_refs phare_parts (pair_refs R (spec_refs R))"

lemma copier_phare:
  assumes lib: "copier L R lib"
  shows "copier (phare_look L) (phare_refs R) (Phare_DeepCopyInto lib)"
  unfolding phare_look_def phare_refs_def
proof (rule copier_view [where rebuild = phare_rebuild])
  show "copier (pair_look L (spec_look L)) (pair_refs R (spec_refs R)) (copy_pair lib (PhareSpec_DeepCopyInto lib))"
    by (intro copier_pair copier_spec lib)
qed (simp_all add: Phare_DeepCopyInto_def phare_parts_def phare_rest_def phare_rebuild_def copy_pair_def split: prod.splits)

definition "phares_look L = ptr_look as_Phares (list_look (phare_look L))"
definition "phares_refs R = ptr_refs as_Phares (list_refs (phare_refs R))"

definition phare_list_parts :: "'x list_object \<Rightarrow> _" where
  "phare_list_parts i = (lo_meta i, lo_items i)"

definition phare_list_rebuild :: "'x list_object \<Rightarrow> _ \<Rightarrow> 'x list_object" where
  "phare_list_rebuild i w = (case w of (listMeta, items) \<Rightarrow> i\<lparr>lo_meta := listMeta, lo_items := items\<rparr>)"

definition "phare_list_look L = view_look lo_type phare_list_parts (pair_look L (phares_look L))"
definition "phare_list_refs R = view_refs phare_list_parts (pair_refs R (phares_refs R))"

lemma copier_phare_list:
  assumes lib: "copier L R lib"
  shows "copier (phare_list_look L) (phare_list_refs R) (PhareList_DeepCopyInto lib)"
  unfolding phare_list_look_def phare_list_refs_def
proof (rule copier_view [where rebuild = phare_list_rebuild])
  show "copier (pair_look L (phares_look L)) (pair_refs R (phares_refs R))
      (copy_pair lib (copy_ptr as_Phares PharesCell (State_Monad.traverse_list (Phare_DeepCopyInto lib))))"
    unfolding phares_look_def phares_refs_def by (intro copier_pair copier_ptr copier_list copier_phare lib) simp
qed (simp_all add: PhareList_DeepCopyInto_def phare_list_parts_def phare_list_rebuild_def copy_pair_def split: prod.splits)

subsection \<open>Structs without addresses\<close>

lemma copier_values:
  "copier (ptr_look as_DefaultCheck plain_look) (ptr_refs as_DefaultCheck plain_refs) DefaultCheck_DeepCopy"
  "copier (ptr_look as_PolicyDefault plain_look) (ptr_refs as_PolicyDefault plain_refs) GCPBackendPolicyDefaultSpec_DeepCopy"
  "copier (ptr_look as_PolicyLogging plain_look) (ptr_refs as_PolicyLogging plain_refs) GCPBackendPolicyLoggingSpec_DeepCopy"
  "copier (ptr_look as_BackendPolicy plain_look) (ptr_refs as_BackendPolicy plain_refs) GCPBackendPolicySpec_DeepCopy"
  "copier (ptr_look as_PolicyTarget plain_look) (ptr_refs as_PolicyTarget plain_refs) GCPBackendPolicyTargetRefSpec_DeepCopy"
  "copier (ptr_look as_GRPCCheck plain_look) (ptr_refs as_GRPCCheck plain_refs) GRPCCheck_DeepCopy"
  "copier (ptr_look as_HealthCheck plain_look) (ptr_refs as_HealthCheck plain_refs) HealthCheck_DeepCopy"
  "copier (ptr_look as_HealthCheckConfig plain_look) (ptr_refs as_HealthCheckConfig plain_refs) HealthCheckConfig_DeepCopy"
  "copier (ptr_look as_HealthCheckPolicy plain_look) (ptr_refs as_HealthCheckPolicy plain_refs) HealthCheckPolicySpec_DeepCopy"
  "copier (ptr_look as_Image plain_look) (ptr_refs as_Image plain_refs) ImageSpec_DeepCopy"
  "copier (ptr_look as_LogConfig plain_look) (ptr_refs as_LogConfig plain_refs) LogConfig_DeepCopy"
  "copier (ptr_look as_Status plain_look) (ptr_refs as_Status plain_refs) PhareStatus_DeepCopy"
  "copier (ptr_look as_TargetRef plain_look) (ptr_refs as_TargetRef plain_refs) TargetRef_DeepCopy"
  unfolding DefaultCheck_DeepCopy_def GCPBackendPolicyDefaultSpec_DeepCopy_def GCPBackendPolicyLoggingSpec_DeepCopy_def GCPBackendPolicySpec_DeepCopy_def GCPBackendPolicyTargetRefSpec_DeepCopy_def GRPCCheck_DeepCopy_def HealthCheck_DeepCopy_def HealthCheckConfig_DeepCopy_def HealthCheckPolicySpec_DeepCopy_def ImageSpec_DeepCopy_def LogConfig_DeepCopy_def PhareStatus_DeepCopy_def TargetRef_DeepCopy_def
  by (intro copier_ptr copier_plain; simp add: value_copies)+

text \<open>The copy of a \<open>ConfigSpec\<close> is that of any map of strings.\<close>

lemma config_spec_copy:
  assumes "table_look h p = Some t"
  shows "run_state (ConfigSpec_DeepCopy p) h = run_state (copy_table p) h"
  using assms
  by (auto simp: ConfigSpec_DeepCopy_def ConfigSpec_DeepCopyInto_def copy_table_def copy_ptr_def ptr_look_def
      points_to_def alloc_def store_def split: option.splits)

section \<open>Isolation\<close>

abbreviation "phare_ptr_look L \<equiv> ptr_look as_Phare (phare_look L)"
abbreviation "phare_ptr_refs R \<equiv> ptr_refs as_Phare (phare_refs R)"

lemma return_or_nil: "do { c \<leftarrow> m; (if c \<noteq> None then State_Monad.return c else State_Monad.return None) } = m"
  by (rule state_ext) (auto split: prod.splits)

lemma copy_object: "Phare_DeepCopyObject lib = Phare_DeepCopy lib" "PhareList_DeepCopyObject lib = PhareList_DeepCopy lib"
  by (rule ext, simp only: Phare_DeepCopyObject_def PhareList_DeepCopyObject_def return_or_nil)+

text \<open>C28. Given library deep copies that keep the contract, the deep copy of a Phare denotes the same Phare, every
  cell that it reaches is new, and whatever is written to those cells, the original denotes what it did: the
  operator can write through the pointers of the Phare it reads without changing the cache.\<close>

theorem phare_copy_isolated:
  assumes lib: "copier L R lib"
    and phare: "phare_ptr_look L h (Some a) = Some t" "phare_ptr_refs R h (Some a) \<subseteq> {..<limit h}"
  shows "\<exists>b h'. run_state (Phare_DeepCopyObject lib (Some a)) h = (Some b, h') \<and> phare_ptr_look L h' (Some b) = Some t \<and>
    phare_ptr_refs R h' (Some b) \<inter> {..<limit h} = {} \<and>
    (\<forall>h''. (\<forall>x. x \<notin> phare_ptr_refs R h' (Some b) \<longrightarrow> cells h'' x = cells h' x) \<longrightarrow>
       phare_ptr_look L h'' (Some a) = Some t)"
  unfolding copy_object Phare_DeepCopy_def by (rule ptr_isolated [OF copier_phare [OF lib] _ phare]) simp

lemma phare_list_copy_isolated:
  assumes lib: "copier L R lib"
    and phares: "ptr_look as_PhareList (phare_list_look L) h (Some a) = Some t"
      "ptr_refs as_PhareList (phare_list_refs R) h (Some a) \<subseteq> {..<limit h}"
  shows "\<exists>b h'. run_state (PhareList_DeepCopyObject lib (Some a)) h = (Some b, h') \<and>
    ptr_look as_PhareList (phare_list_look L) h' (Some b) = Some t \<and>
    ptr_refs as_PhareList (phare_list_refs R) h' (Some b) \<inter> {..<limit h} = {} \<and>
    (\<forall>h''. (\<forall>x. x \<notin> ptr_refs as_PhareList (phare_list_refs R) h' (Some b) \<longrightarrow> cells h'' x = cells h' x) \<longrightarrow>
       ptr_look as_PhareList (phare_list_look L) h'' (Some a) = Some t)"
  unfolding copy_object PhareList_DeepCopy_def by (rule ptr_isolated [OF copier_phare_list [OF lib] _ phares]) simp

section \<open>A Phare in memory\<close>

text \<open>Library structs that are numbers, copied as such, and a Phare with pod labels and a Config.\<close>

definition plain_lib :: "nat \<Rightarrow> ((nat, nat) memory, nat) state" where
  "plain_lib v = State_Monad.return (id v)"

lemma copier_plain_lib: "copier plain_look plain_refs plain_lib"
  unfolding plain_lib_def by (rule copier_plain) simp

interpretation stored_phare: copier "phare_look plain_look" "phare_refs plain_refs" "Phare_DeepCopyInto plain_lib"
  by (rule copier_phare [OF copier_plain_lib])

definition stored_micro :: "nat micro_service_object" where
  "stored_micro = \<lparr>mo_kind = ''Deployment'', mo_replicaCount = 2, mo_image = \<lparr>img_repository = ''app'', img_tag = ''1''\<rparr>,
     mo_ports = None, mo_imagePullPolicy = [], mo_env = None, mo_envFrom = None, mo_affinity = None, mo_tolerations = None,
     mo_volumes = None, mo_volumeMounts = None, mo_volumeClaimTemplates = None, mo_initContainers = None,
     mo_extraContainers = Some 4, mo_resourceRequirements = 5, mo_command = None, mo_args = None, mo_podLabels = Some 1,
     mo_podAnnotations = None, mo_livenessProbe = None, mo_readinessProbe = None, mo_startupProbe = None\<rparr>"

definition stored_phare :: "nat phare_object" where
  "stored_phare = \<lparr>po_type = \<lparr>tm_apiVersion = ''v1beta1'', tm_kind = ''Phare''\<rparr>, po_meta = 7,
     po_spec = \<lparr>so_microService = stored_micro, so_service = None, so_toolChain = Some 2\<rparr>,
     po_status = \<lparr>st_phase = [], st_message = []\<rparr>\<rparr>"

definition stored :: "(nat, nat) memory" where
  "stored = \<lparr>cells = [0 \<mapsto> PhareCell stored_phare, 1 \<mapsto> TableCell (fmap_of_list [(''team'', ''a'')]),
       2 \<mapsto> ToolChainCell \<lparr>to_config = Some 3, to_httpRoute = None, to_healthCheckPolicy = None, to_gcpBackendPolicy = None\<rparr>,
       3 \<mapsto> TableCell (fmap_of_list [(''key'', ''value'')]), 4 \<mapsto> LibsCell [8, 9]],
     limit = 5\<rparr>"

lemmas look_defs = ptr_look_def points_to_def view_look_def pair_look_def plain_look_def phare_look_def spec_look_def
  micro_look_def micro_fields_look_def toolchain_look_def phare_parts_def spec_parts_def micro_parts_def toolchain_parts_def
lemmas refs_defs = ptr_refs_def points_to_def view_refs_def pair_refs_def plain_refs_def phare_refs_def spec_refs_def
  micro_refs_def micro_fields_refs_def toolchain_refs_def phare_parts_def spec_parts_def micro_parts_def toolchain_parts_def

lemma stored_typed: "phare_ptr_look plain_look stored (Some 0) \<noteq> None"
  by (simp add: look_defs stored_def stored_phare_def stored_micro_def)

lemma stored_below: "phare_ptr_refs plain_refs stored (Some 0) \<subseteq> {..<limit stored}"
  by (simp add: refs_defs stored_def stored_phare_def stored_micro_def)

theorem phare_copy_isolated_witness:
  "\<exists>b h'. run_state (Phare_DeepCopyObject plain_lib (Some 0)) stored = (Some b, h') \<and>
     phare_ptr_look plain_look h' (Some b) = phare_ptr_look plain_look stored (Some 0) \<and>
     phare_ptr_look plain_look (store b (StringsCell []) h') (Some 0) = phare_ptr_look plain_look stored (Some 0)"
proof -
  obtain t where t: "phare_ptr_look plain_look stored (Some 0) = Some t" using stored_typed by blast
  from phare_copy_isolated [OF copier_plain_lib t stored_below] obtain b h' where
    b: "run_state (Phare_DeepCopyObject plain_lib (Some 0)) stored = (Some b, h')"
    "phare_ptr_look plain_look h' (Some b) = Some t"
    "\<And>h''. (\<And>x. x \<notin> phare_ptr_refs plain_refs h' (Some b) \<Longrightarrow> cells h'' x = cells h' x) \<Longrightarrow>
       phare_ptr_look plain_look h'' (Some 0) = Some t" by blast
  have "phare_ptr_look plain_look (store b (StringsCell []) h') (Some 0) = Some t"
    by (rule b(3)) (auto simp: ptr_refs_def)
  with b(1,2) t show ?thesis by auto
qed

end
