(* ===== verification/Spec2Isabelle.thy ===== *)
theory Spec2Isabelle
  imports Progress Quiescence Control_Loop Yaml_Print_Laws Validator_Laws Startup Deep_Copy Api_Copies
begin

text \<open>
  The Phare operator, a Kubernetes controller written in Go: for every custom resource of kind Phare it
  keeps a ConfigMap, a Service, a workload (Deployment or StatefulSet), an HTTPRoute and two GKE
  policies. The repository also holds the generated deep copies of the API types, two stand-alone packages,
  a validator and a differ for YAML documents, and a helper that copies nested maps. This development models
  the code as it is written and proves what it promises.

  \<^bold>\<open>How the parts interact.\<close> The program registers its types, parses the flags, registers the reconciler
  and the probes with a manager and starts it. A watch event that passes the predicates of \<open>SetupWithManager\<close> starts
  \<open>Reconcile\<close> (controllers/phare_controller.go) for one Phare. It fetches the Phare, runs the
  sub-reconcilers in the order ConfigMap, Service, HTTPRoute, GCPBackendPolicy, HealthCheckPolicy,
  workload, and writes the outcome to the status. A sub-reconciler builds the object it wants from the
  Phare alone, reads the object that is there, and creates, patches, updates or deletes it. The first
  error ends the run.

  \<^bold>\<open>The model.\<close> An operation takes the state of a run (\<open>Effects.st\<close>: the state of the API server, the
  requests sent, the events recorded) and returns its result or its error with the new state. The API
  server is a record of functions (\<open>client\<close>), the libraries a record \<open>ext\<close> (\<open>Externals\<close>); both are
  parameters of every definition that uses them. Nothing is assumed of them but what a theorem names:
  the locales \<open>store_client\<close>, \<open>service_store\<close>, \<open>config_map_store\<close>, \<open>workload_store\<close> and \<open>api_server\<close>
  are the contract of the server, for a cluster in which nobody else writes during a run, and
  \<open>diff_contract\<close> the contract of \<open>cmp.Diff\<close>. Requests may fail at any time under this contract.
  Three contracts extend it for one theory each: \<open>steady_server\<close> (\<open>Progress\<close>) that well-formed requests are accepted,
  \<open>exact_server\<close> (\<open>Quiescence\<close>) that Services and routes are stored as sent, and \<open>loop_server\<close> (\<open>Control_Loop\<close>)
  that a refused status update changes no other Phare. The
  locales are interpreted on a concrete cluster (\<open>cluster_client\<close>), on which the witnesses run. Go
  integers keep their width, nil and empty maps and slices are different values (\<open>gomap\<close>, \<open>slice\<close>),
  and a JSON number that passes through \<open>float64\<close> is rounded. The operator is modelled on values; where the
  code is about sharing, in the deep copies, it is modelled on a heap (\<open>Go_Memory\<close>), and what a reconciler
  writes through a pointer of the Phare it shares is returned with its result.

  \<^bold>\<open>Theories and sources.\<close>
  \<^item> \<open>Go_Prelude\<close>: strings as bytes, integers, maps, slices, rounding to \<open>float64\<close>, sorting of keys.
  \<^item> \<open>Api_Types\<close>: api/v1beta1/phare_types.go, field by field, and the fields of the Kubernetes types that
    the operator touches; the rest of a type is one opaque value.
  \<^item> \<open>Effects\<close>, \<open>Externals\<close>, \<open>Api_Laws\<close>, \<open>Create_Or_Patch\<close>: requests, errors, events, the library
    parameters, the contract of the server, and the shape that five reconcilers share.
  \<^item> \<open>Map_Utils\<close> (map_utils.go), \<open>Go_Templates\<close> (pkg/go-templates), \<open>Compare_Options\<close>
    (compare_options.go), \<open>Sha256\<close> (the hash that crypto/sha256 computes, checked on test vectors).
  \<^item> \<open>Config_Map\<close> (reconcile_configmap.go): building, comparing and hashing the ConfigMap.
  \<^item> \<open>Service\<close> (reconcile_service.go): drift detection and the merge that keeps immutable fields.
  \<^item> \<open>Workload_Merge\<close> (workload_merge.go), \<open>Workload_Build\<close> and \<open>Workload_Reconcile\<close>
    (reconcile_deployment.go, reconcile_statefulset.go), \<open>Workload_Laws\<close>: their properties.
  \<^item> \<open>Canonical_Json\<close> and \<open>Expose\<close> (expose_controller.go): the comparison of specs through JSON, the
    route and the two policies.
  \<^item> \<open>Resources\<close> (tmp_k8s_resources.go): dispatch by kind, clean-up of objects the Phare does not ask for.
  \<^item> \<open>Controller\<close> (phare_controller.go): the run, the status, the watch predicates.
  \<^item> \<open>Cluster\<close>: the abstract specification \<open>as_desired\<close> of a cluster and the proof that a run that succeeds
    reaches it; \<open>Progress\<close>: the proof that a run succeeds against a server that accepts what is well-formed;
    \<open>Quiescence\<close>: the proof that the run after it finds nothing to do; \<open>Control_Loop\<close>: runs, edits by users
    and changes by others as steps of a state machine with the queue of Phares that wait for a run.
  \<^item> \<open>Startup\<close> (main.go, groupversion_info.go, \<open>SetupWithManager\<close>): the scheme, the flags, the watched kinds,
    the calls up to the running manager.
  \<^item> \<open>Go_Memory\<close>: heaps and the contract \<open>copier\<close> of a deep copy, closed under structs, slices and pointers;
    \<open>Api_Copies\<close> (api/v1beta1/zz_generated.deepcopy.go) on it, and \<open>Deep_Copy\<close> (pkg/deepcopy), whose maps may
    contain themselves.
  \<^item> \<open>Yaml_Diff\<close>, \<open>Yaml_Select\<close>, \<open>Yaml_Print\<close> (pkg/yamldiff) with \<open>Yaml_Diff_Laws\<close> and
    \<open>Yaml_Print_Laws\<close>; \<open>Validator\<close> (pkg/validator) with \<open>Validator_Laws\<close>. The operator imports neither.

  \<^bold>\<open>What the lemmas show.\<close> For the operator: a run that succeeds leaves the cluster as the Phare asks
  (\<open>reconcile_converges\<close>, from one lemma per sub-reconciler); whatever the server answers, a run sends
  requests about its own objects only, writes in dependency order, deletes only what it owns and reports
  its failures; merges keep what others added and settle after one round; against a server that accepts
  well-formed requests the run succeeds (\<open>reconcile_succeeds\<close>), and the run after it finds nothing to do
  (\<open>second_run_quiet\<close>), but for patches of the workload and the policies; in any interleaving of runs and noticed
  changes a Phare that is not queued is as desired (\<open>idle_phares_as_desired\<close>). A deep copy of a Phare shares no cell with
  the original, so writes to it do not show there. For the YAML packages: the
  comparison is sound and complete for an abstract relation on values, every document is reported, a
  report contains the desired document, and the validator decides a covering relation. The theorems
  about behaviour that surprises are named in the findings of the manifest.

  \<^bold>\<open>Bounds.\<close> Fuel is used in one place: \<open>DeepCopyMap\<close> does not return on a map that contains itself, so it
  runs on fuel, and the fuel \<open>n\<close> is shown to be enough exactly for maps nested less than \<open>n\<close> deep. Every other
  recursion of the code is on a finite tree or a finite list. Counts of pkg/yamldiff are natural numbers, below
  \<open>math.MaxInt\<close> as lengths of texts in memory.

  \<^bold>\<open>Not modelled.\<close> The library code itself (the template language, \<open>cmp.Diff\<close>, the JSON encoding and the deep
  copies of Kubernetes structs, the YAML decoder, controller-runtime and its schemes); log output of the reconcilers.
\<close>

section \<open>A reconcile as a whole\<close>

text \<open>C1. Against an API server that keeps its contract, a reconcile that reports success leaves the
  cluster as the Phare asks: the ConfigMap, the Service, the optional objects and the one workload
  are there with the data of the Phare, no object that the Phare does not ask for is still owned
  by it, the workload carries the checksum of the rendered Config, and the stored status is
  \<open>Active\<close>. Without the Phare the run is a single \<open>Get\<close> that changes nothing.\<close>

theorem reconcile_converges:
  assumes server: "api_server cl view"
    and diff: "diff_contract (x_cmpDiffDeployment x)" "diff_contract (x_cmpDiffStatefulSet x)"
    and run: "Reconcile x cl req s = (Inr (), t)"
  shows "case d_phares (view (world s)) req of
      None \<Rightarrow> only_kinds {} (view (world s)) (view (world t)) \<and> calls t = calls s @ [Call Get KPhare req]
    | Some phare \<Rightarrow> as_desired x phare (view (world t)) \<and>
        (\<exists>p. d_phares (view (world t)) req = Some p \<and>
          ph_status p = \<lparr>st_phase = PharePhaseActive, st_message = success_message\<rparr>)"
  by (rule api_server.run_done [OF server diff run])

lemma sample_statefulSet_contract: "diff_contract (x_cmpDiffStatefulSet sample_ext)"
  using sample_diff.diff_contract_axioms by (simp add: sample_ext_def)

theorem reconcile_converges_witness:
  "fst (demo_run sample_phare) = Inr () \<and> as_desired sample_ext sample_phare (world (snd (demo_run sample_phare)))"
proof -
  have ok: "fst (demo_run sample_phare) = Inr ()" by code_simp
  have "d_phares (world (initial (empty_cluster\<lparr>d_phares := [demo_key \<mapsto> sample_phare]\<rparr>))) demo_key =
      Some (sample_phare :: unit phare)" by simp
  with reconcile_converges [OF cluster_server.api_server_axioms sample_diff_contract
      sample_statefulSet_contract run_ok [OF ok, unfolded demo_run_def]]
  show ?thesis using ok unfolding demo_run_def by simp
qed

text \<open>The labels of the Phare win over those of the builder on the Service alone: a Phare that carries a
  \<open>created-by\<close> label of its own gets a Service whose updates start no run.\<close>

theorem service_label_override_unwatched:
  assumes "desiredService x phare svc = Some d"
    and "gm_get (m_labels (ph_meta phare)) ''app.kubernetes.io/created-by'' = Some v" "v \<noteq> ''phare-controller''"
    and "wo_labels old = m_labels (s_meta d)" "wo_labels new = m_labels (s_meta d)"
  shows "\<not> starts_run KService (UpdateEvent (Some old) (Some new))"
proof -
  have "gm_get (m_labels (s_meta d)) ''app.kubernetes.io/created-by'' = Some v"
    using assms(2) by (simp add: desiredService_Some [OF assms(1)] mergeStringMaps_get)
  with assms show ?thesis
    by (simp add: starts_run_def watch_predicates_def label_is_def gm_index_def Let_def)
qed

theorem service_label_override_unwatched_witness:
  "\<exists>d. desiredService sample_ext
      (service_sample\<lparr>ph_meta := (ph_meta service_sample)\<lparr>m_labels :=
        Some (fmap_of_list [(''app.kubernetes.io/created-by'', ''operator'')])\<rparr>\<rparr>)
      (sample_service_spec []) = Some d \<and>
    (let w = \<lparr>wo_labels = m_labels (s_meta d), wo_generation = 1, wo_statefulSet = False\<rparr>
     in \<not> starts_run KService (UpdateEvent (Some w) (Some w)))"
proof -
  let ?p = "service_sample\<lparr>ph_meta := (ph_meta service_sample)\<lparr>m_labels :=
        Some (fmap_of_list [(''app.kubernetes.io/created-by'', ''operator'')])\<rparr>\<rparr>"
  have "desiredService sample_ext ?p (sample_service_spec []) \<noteq> None" by code_simp
  then obtain d where d: "desiredService sample_ext ?p (sample_service_spec []) = Some d" by blast
  have "gm_get (m_labels (ph_meta ?p)) ''app.kubernetes.io/created-by'' = Some ''operator''"
    "''operator'' \<noteq> ''phare-controller''" by simp_all
  from service_label_override_unwatched [OF d this] d show ?thesis by (auto simp: Let_def)
qed

end
